(* ===== verification/Prelude.thy ===== *)
theory Prelude
  imports Main "HOL-Library.AList" "HOL-Library.Word" "HOL-Library.Multiset"
    "HOL-Library.Char_ord" "HOL-Library.List_Lexorder"
begin

text \<open>
  Shared vocabulary of the development: the outcome of a Go call (a value, an error value,
  a panic, or a goroutine that blocks for ever), Go's error values, Go's maps as association
  lists without duplicate keys together with the order in which a \<open>range\<close> statement
  visits them, and the lemmas and fact collections every component uses.
\<close>

section \<open>Fact collections\<close>

named_theorems gomap_simps \<open>lookup, length and key facts about Go maps\<close>
named_theorems wf_intros \<open>operations that keep a map or a component well formed\<close>
named_theorems outcome_simps \<open>evaluation rules of outcomes\<close>

section \<open>Error values and outcomes\<close>

text \<open>
  The sentinel errors are compared by identity in the source, so each is a constructor. An
  error made by \<open>fmt.Errorf\<close> is a fresh value: it carries the format string and its
  arguments, and differs from every sentinel.
\<close>

datatype goerr =
    ErrInvalidSignature | ErrServerNotFound | ErrRegionNotFound | ErrServerExists
  | ErrNoServersAvailable | ErrQuorumNotReached | ErrTimestampVerification | ErrRequestTimeout
  | ErrForeign string
  | Errorf string "farg list"
and farg = FStr string | FInt int | FErr goerr

datatype panic =
    NilDereference | IndexOutOfRange | SliceOutOfRange | IntegerDivideByZero
  | BadKeyLength | MakeChanNegative | MakeSliceNegative | CloseOfClosedChannel | TypeAssertion

text \<open>
  \<open>Ok\<close> is a normal return, \<open>Err\<close> a return with a non-nil error, \<open>Panic\<close> a run-time
  panic, and \<open>Blocked\<close> a goroutine that waits for a lock that is never released.
\<close>

datatype 'a outcome = Ok 'a | Err goerr | Panic panic | Blocked

fun bind_outcome :: "'a outcome \<Rightarrow> ('a \<Rightarrow> 'b outcome) \<Rightarrow> 'b outcome" where
  "bind_outcome (Ok x) f = f x"
| "bind_outcome (Err e) f = Err e"
| "bind_outcome (Panic p) f = Panic p"
| "bind_outcome Blocked f = Blocked"

fun is_ok :: "'a outcome \<Rightarrow> bool" where
  "is_ok (Ok _) = True"
| "is_ok _ = False"

fun is_panic :: "'a outcome \<Rightarrow> bool" where
  "is_panic (Panic _) = True"
| "is_panic _ = False"

text \<open>\<open>if err != nil { return fmt.Errorf(format, err) }\<close>.\<close>

definition wrap_err :: "string \<Rightarrow> 'a outcome \<Rightarrow> 'a outcome" where
  "wrap_err format r = (case r of Err e \<Rightarrow> Err (Errorf format [FErr e]) | _ \<Rightarrow> r)"

lemma wrap_err_simps [simp]:
  "wrap_err f (Ok x) = Ok x" "wrap_err f (Err e) = Err (Errorf f [FErr e])"
  "wrap_err f (Panic p) = Panic p" "wrap_err f Blocked = Blocked"
  by (simp_all add: wrap_err_def)

lemma wrap_err_Ok_iff [simp]: "wrap_err f r = Ok x \<longleftrightarrow> r = Ok x"
  by (cases r) simp_all

fun returns :: "'a outcome \<Rightarrow> bool" where
  "returns (Ok _) = True"
| "returns (Err _) = True"
| "returns _ = False"

lemma is_ok_iff [outcome_simps]: "is_ok r \<longleftrightarrow> (\<exists>x. r = Ok x)"
  by (cases r) auto

lemma bind_outcome_Ok_iff [outcome_simps]:
  "bind_outcome r f = Ok y \<longleftrightarrow> (\<exists>x. r = Ok x \<and> f x = Ok y)"
  by (cases r) auto

lemma bind_outcome_assoc:
  "bind_outcome (bind_outcome r f) g = bind_outcome r (\<lambda>x. bind_outcome (f x) g)"
  by (cases r) auto

section \<open>Locks\<close>

text \<open>
  A \<open>sync.RWMutex\<close> as one goroutine sees it: how it already holds the lock. Taking a lock gives
  the new state, or \<open>None\<close> where the goroutine would wait for itself.
\<close>

datatype rwmutex = Unlocked | ReadLocked nat | WriteLocked

fun mutex_rlock :: "rwmutex \<Rightarrow> rwmutex option" where
  "mutex_rlock Unlocked = Some (ReadLocked 1)"
| "mutex_rlock (ReadLocked n) = Some (ReadLocked (Suc n))"
| "mutex_rlock WriteLocked = None"

fun mutex_lock :: "rwmutex \<Rightarrow> rwmutex option" where
  "mutex_lock Unlocked = Some WriteLocked"
| "mutex_lock (ReadLocked n) = None"
| "mutex_lock WriteLocked = None"

section \<open>Go maps\<close>

text \<open>
  A Go map is an association list with distinct keys. \<open>map_of\<close> looks a key up,
  \<open>map_put\<close> stores, \<open>map_del\<close> deletes, \<open>length\<close> is Go's \<open>len\<close>.
\<close>

type_synonym ('k, 'v) gomap = "('k \<times> 'v) list"

abbreviation map_put :: "'k \<Rightarrow> 'v \<Rightarrow> ('k, 'v) gomap \<Rightarrow> ('k, 'v) gomap" where
  "map_put \<equiv> AList.update"

abbreviation map_del :: "'k \<Rightarrow> ('k, 'v) gomap \<Rightarrow> ('k, 'v) gomap" where
  "map_del \<equiv> AList.delete"

definition keys :: "('k, 'v) gomap \<Rightarrow> 'k list" where
  "keys m = map fst m"

definition has_key :: "('k, 'v) gomap \<Rightarrow> 'k \<Rightarrow> bool" where
  "has_key m k \<longleftrightarrow> k \<in> set (keys m)"

definition wf_map :: "('k, 'v) gomap \<Rightarrow> bool" where
  "wf_map m \<longleftrightarrow> distinct (keys m)"

text \<open>
  Go does not fix the order in which \<open>range\<close> visits a map. An operation that ranges
  over a map takes an iteration order as an argument: a function that rearranges the list of
  keys, of which only \<open>is_order\<close> is assumed. \<open>go_range ord m\<close> is the sequence of entries
  the statement visits.
\<close>

definition is_order :: "('k list \<Rightarrow> 'k list) \<Rightarrow> bool" where
  "is_order ord \<longleftrightarrow> (\<forall>ks. mset (ord ks) = mset ks)"

definition range_over :: "('k, 'v) gomap \<Rightarrow> 'k list \<Rightarrow> ('k \<times> 'v) list" where
  "range_over m ks = List.map_filter (\<lambda>k. map_option (Pair k) (map_of m k)) ks"

definition go_range :: "('k list \<Rightarrow> 'k list) \<Rightarrow> ('k, 'v) gomap \<Rightarrow> ('k \<times> 'v) list" where
  "go_range ord m = range_over m (ord (keys m))"

lemma wf_map_Nil [simp, wf_intros]: "wf_map []"
  by (simp add: wf_map_def keys_def)

lemma wf_map_put [simp, wf_intros]: "wf_map m \<Longrightarrow> wf_map (map_put k v m)"
  by (simp add: wf_map_def keys_def distinct_update)

lemma wf_map_del [simp, wf_intros]: "wf_map m \<Longrightarrow> wf_map (map_del k m)"
  by (simp add: wf_map_def keys_def distinct_delete)

lemma has_key_iff [gomap_simps]: "has_key m k \<longleftrightarrow> map_of m k \<noteq> None"
  by (simp add: has_key_def keys_def map_of_eq_None_iff)

lemma map_of_put [simp, gomap_simps]:
  "map_of (map_put k v m) k' = (if k' = k then Some v else map_of m k')"
  by (simp add: update_conv)

lemma map_of_del [simp, gomap_simps]:
  "map_of (map_del k m) k' = (if k' = k then None else map_of m k')"
  by (simp add: delete_conv')

lemma keys_put [gomap_simps]:
  "keys (map_put k v m) = (if has_key m k then keys m else keys m @ [k])"
  by (simp add: keys_def has_key_def update_keys)

lemma set_keys_put [gomap_simps]: "set (keys (map_put k v m)) = insert k (set (keys m))"
  by (auto simp: keys_put has_key_def)

lemma set_keys_del [gomap_simps]: "set (keys (map_del k m)) = set (keys m) - {k}"
  by (auto simp: keys_def delete_keys simp del: set_map)

lemma length_keys [simp]: "length (keys m) = length m"
  by (simp add: keys_def)

lemma length_put [gomap_simps]:
  "length (map_put k v m) = (if has_key m k then length m else Suc (length m))"
proof -
  have "length (keys (map_put k v m)) = (if has_key m k then length m else Suc (length m))"
    by (simp add: keys_put del: length_keys) (simp add: keys_def)
  then show ?thesis by simp
qed

lemma length_put_le: "length (map_put k v m) \<le> Suc (length m)"
  by (simp add: length_put)

lemma wf_map_length: "wf_map m \<Longrightarrow> length m = card (set (keys m))"
  by (metis distinct_card length_keys wf_map_def)

lemma map_of_Some_in_keys: "map_of m k = Some v \<Longrightarrow> k \<in> set (keys m)"
  using has_key_def has_key_iff by fastforce

lemma in_keys_map_of: "k \<in> set (keys m) \<Longrightarrow> \<exists>v. map_of m k = Some v"
  using has_key_def has_key_iff by fastforce

lemma wf_map_of_iff: "wf_map m \<Longrightarrow> map_of m k = Some v \<longleftrightarrow> (k, v) \<in> set m"
  by (simp add: wf_map_def keys_def)

lemma wf_map_list_all:
  "wf_map m \<Longrightarrow> list_all P m \<longleftrightarrow> (\<forall>k v. map_of m k = Some v \<longrightarrow> P (k, v))"
  by (auto simp: list_all_iff wf_map_of_iff)

lemma map_put_new: "\<not> has_key m k \<Longrightarrow> map_put k v m = m @ [(k, v)]"
  by (induction m) (auto simp: has_key_def keys_def)

subsection \<open>Ranging over a map\<close>

lemma is_order_id [simp]: "is_order (\<lambda>ks. ks)"
  by (simp add: is_order_def)

lemma is_order_rev [simp]: "is_order rev"
  by (simp add: is_order_def)

lemma is_order_set: "is_order ord \<Longrightarrow> set (ord ks) = set ks"
  by (metis is_order_def set_mset_mset)

lemma is_order_distinct: "is_order ord \<Longrightarrow> distinct (ord ks) \<longleftrightarrow> distinct ks"
  by (metis is_order_def mset_eq_imp_distinct_iff)

lemma is_order_length: "is_order ord \<Longrightarrow> length (ord ks) = length ks"
  by (metis is_order_def size_mset)

lemma range_over_Nil [simp]: "range_over m [] = []"
  by (simp add: range_over_def List.map_filter_def)

lemma range_over_Cons [simp]:
  "range_over m (k # ks) =
     (case map_of m k of None \<Rightarrow> range_over m ks | Some v \<Rightarrow> (k, v) # range_over m ks)"
  by (simp add: range_over_def List.map_filter_def split: option.split)

lemma set_range_over: "set (range_over m ks) = {(k, v). k \<in> set ks \<and> map_of m k = Some v}"
  by (induction ks) (auto split: option.splits)

lemma map_fst_range_over:
  "set ks \<subseteq> set (keys m) \<Longrightarrow> map fst (range_over m ks) = ks"
  by (induction ks) (auto split: option.splits dest: in_keys_map_of)

lemma map_fst_go_range [gomap_simps]: "is_order ord \<Longrightarrow> map fst (go_range ord m) = ord (keys m)"
  by (simp add: go_range_def map_fst_range_over is_order_set)

lemma length_go_range [gomap_simps]: "is_order ord \<Longrightarrow> length (go_range ord m) = length m"
  using arg_cong [OF map_fst_go_range, of ord length m] by (simp add: is_order_length)

lemma set_go_range [gomap_simps]:
  "is_order ord \<Longrightarrow> wf_map m \<Longrightarrow> set (go_range ord m) = set m"
  by (force simp: go_range_def set_range_over is_order_set wf_map_of_iff keys_def)

lemma distinct_go_range: "is_order ord \<Longrightarrow> wf_map m \<Longrightarrow> distinct (map fst (go_range ord m))"
  by (simp add: map_fst_go_range is_order_distinct wf_map_def)

lemma mset_go_range [gomap_simps]:
  assumes "is_order ord" and "wf_map m"
  shows "mset (go_range ord m) = mset m"
proof -
  have "distinct (go_range ord m)" and "distinct m"
    using distinct_go_range [OF assms] assms(2) by (simp_all add: wf_map_def keys_def distinct_map)
  then show ?thesis
    using set_go_range [OF assms] set_eq_iff_mset_eq_distinct by blast
qed

text \<open>A loop that deletes from the map it ranges over, as Go allows.\<close>

lemma fold_delete_lookup:
  "map_of (fold (\<lambda>(k, v) m. if P k v then map_del k m else m) es m) j
     = (if \<exists>v. (j, v) \<in> set es \<and> P j v then None else map_of m j)"
  by (induction es arbitrary: m) (auto split: if_splits)

lemma fold_delete_wf:
  "wf_map m \<Longrightarrow> wf_map (fold (\<lambda>(k, v) m. if P k v then map_del k m else m) es m)"
  by (induction es arbitrary: m) auto

lemma sweep_lookup:
  assumes "is_order ord" and "wf_map m"
  shows "map_of (fold (\<lambda>(k, v) m. if P k v then map_del k m else m) (go_range ord m) m) j
     = (case map_of m j of None \<Rightarrow> None | Some v \<Rightarrow> if P j v then None else Some v)"
  unfolding fold_delete_lookup set_go_range [OF assms]
  by (auto simp: wf_map_of_iff [OF assms(2), symmetric] split: option.split)

text \<open>Sorting the visited keys gives the same list whatever order the map was visited in.\<close>

lemma sort_mset_cong:
  fixes xs ys :: "'k :: linorder list"
  shows "mset xs = mset ys \<Longrightarrow> sort xs = sort ys"
  by (metis properties_for_sort mset_sort sorted_sort)

lemma sort_order:
  fixes ks :: "'k :: linorder list"
  shows "is_order ord \<Longrightarrow> sort (ord ks) = sort ks"
  by (rule sort_mset_cong) (simp add: is_order_def)

section \<open>Lists\<close>

lemma sorted_nth_median:
  fixes xs :: "'a :: linorder list"
  assumes "sorted xs" and "i < length xs"
  shows "Suc i \<le> length (filter (\<lambda>x. x \<le> xs ! i) xs)"
    and "length xs - i \<le> length (filter (\<lambda>x. xs ! i \<le> x) xs)"
proof -
  let ?P = "\<lambda>x. x \<le> xs ! i" and ?Q = "\<lambda>x. xs ! i \<le> x"
  have "{..i} \<subseteq> {j. j < length xs \<and> ?P (xs ! j)}"
    using assms by (auto intro: sorted_nth_mono)
  then have "card {..i} \<le> card {j. j < length xs \<and> ?P (xs ! j)}"
    by (intro card_mono) auto
  then show "Suc i \<le> length (filter ?P xs)"
    by (simp add: length_filter_conv_card)
  have "{i..<length xs} \<subseteq> {j. j < length xs \<and> ?Q (xs ! j)}"
    using assms by (auto intro: sorted_nth_mono)
  then have "card {i..<length xs} \<le> card {j. j < length xs \<and> ?Q (xs ! j)}"
    by (intro card_mono) auto
  then show "length xs - i \<le> length (filter ?Q xs)"
    by (simp add: length_filter_conv_card)
qed

lemma length_filter_mset_eq: "mset xs = mset ys \<Longrightarrow> length (filter P xs) = length (filter P ys)"
proof -
  assume "mset xs = mset ys"
  then have "mset (filter P xs) = mset (filter P ys)" by simp
  then show ?thesis by (rule mset_eq_length)
qed

lemma find_Some_in_set: "List.find P xs = Some x \<Longrightarrow> x \<in> set xs \<and> P x"
  by (induction xs) (auto split: if_splits)

lemma find_None_iff_all: "List.find P xs = None \<longleftrightarrow> (\<forall>x \<in> set xs. \<not> P x)"
  by (induction xs) auto

text \<open>Where exactly one element of a list satisfies a test, the search order is irrelevant.\<close>

lemma find_unique:
  assumes "x \<in> set xs" and "P x" and "\<And>y. y \<in> set xs \<Longrightarrow> P y \<Longrightarrow> y = x"
  shows "List.find P xs = Some x"
proof (cases "List.find P xs")
  case None
  then show ?thesis using assms(1,2) by (auto simp: find_None_iff_all)
next
  case (Some y)
  then show ?thesis using assms(3) find_Some_in_set by metis
qed

end
