(* ===== verification/GoTime.thy ===== *)
theory GoTime
  imports Prelude
begin

unbundle bit_operations_syntax

text \<open>
  The part of Go's \<open>time\<close> and \<open>encoding/binary\<close> packages the program uses: instants
  (\<open>time.Time\<close>) with their comparison, \<open>Add\<close>, the saturating \<open>Sub\<close>, the 64-bit
  \<open>UnixNano\<close> and \<open>time.Unix\<close>, and the big- and little-endian encodings of unsigned
  integers. A \<open>time.Duration\<close> is the \<open>int\<close> it holds, between \<open>min_int64\<close> and \<open>max_int64\<close>.
\<close>

type_synonym byte = "8 word"
type_synonym bytes = "8 word list"
type_synonym u64 = "64 word"
type_synonym u32 = "32 word"
type_synonym duration = int

section \<open>Machine integers\<close>

definition max_int64 :: int where
  "max_int64 = 9223372036854775807"

definition min_int64 :: int where
  "min_int64 = - 9223372036854775808"

text \<open>The value of an \<open>int64\<close> (or \<open>int\<close> on a 64-bit platform) after wrapping around.\<close>

definition wrap64 :: "int \<Rightarrow> int" where
  "wrap64 x = sint (word_of_int x :: 64 word)"

lemma wrap64_id: "min_int64 \<le> x \<Longrightarrow> x \<le> max_int64 \<Longrightarrow> wrap64 x = x"
  by (simp add: wrap64_def min_int64_def max_int64_def signed_of_int signed_take_bit_int_eq_self)

lemma wrap64_bounds: "min_int64 \<le> wrap64 x" "wrap64 x \<le> max_int64"
  using sint_ge [of "word_of_int x :: 64 word"] sint_lt [of "word_of_int x :: 64 word"]
  by (simp_all add: wrap64_def min_int64_def max_int64_def)

lemma sint_u64_bounds: "min_int64 \<le> sint (n :: u64)" "sint (n :: u64) \<le> max_int64"
  using sint_ge [of n] sint_lt [of n] by (simp_all add: min_int64_def max_int64_def)

lemma sint_u64_small:
  fixes v :: u64
  assumes "unat v < 2 ^ 63"
  shows "sint v = int (unat v)"
proof -
  have "int (unat v) < int (2 ^ 63)" using assms by (simp only: of_nat_less_iff)
  then have u: "0 \<le> uint v" "uint v < 2 ^ 63" by simp_all
  then have "wrap64 (uint v) = uint v"
    by (intro wrap64_id) (unfold min_int64_def max_int64_def, simp_all add: order_trans [OF _ u(1)])
  then show ?thesis by (simp add: wrap64_def)
qed

lemma sint_u64_large:
  fixes v :: u64
  assumes "2 ^ 63 \<le> unat v"
  shows "sint v = int (unat v) - 2 ^ 64"
proof -
  have "int (2 ^ 63) \<le> int (unat v)" using assms by (simp only: of_nat_le_iff)
  then have u: "2 ^ 63 \<le> uint v" "uint v < 2 ^ 64"
    using unsigned_less [of v, where ?'a = int] by simp_all
  then have "wrap64 (uint v - 2 ^ 64) = uint v - 2 ^ 64"
    by (intro wrap64_id) (simp_all add: min_int64_def max_int64_def)
  moreover have "(word_of_int (uint v - 2 ^ 64) :: u64) = v"
    by simp
  ultimately show ?thesis by (simp only: wrap64_def uint_nat)
qed

text \<open>Go's integer division truncates towards zero; the remainder has the dividend's sign.\<close>

definition go_quot :: "int \<Rightarrow> int \<Rightarrow> int" where
  "go_quot a b = sgn a * sgn b * (\<bar>a\<bar> div \<bar>b\<bar>)"

definition go_rem :: "int \<Rightarrow> int \<Rightarrow> int" where
  "go_rem a b = a - b * go_quot a b"

lemma go_rem_nonneg: "0 \<le> a \<Longrightarrow> 0 < b \<Longrightarrow> go_rem a b = a mod b"
  by (cases "a = 0") (auto simp: go_rem_def go_quot_def minus_mult_div_eq_mod)

lemma go_quot_nonneg: "0 \<le> a \<Longrightarrow> 0 < b \<Longrightarrow> go_quot a b = a div b"
  by (cases "a = 0") (auto simp: go_quot_def)

lemma go_rem_neg:
  assumes "a < 0" and "0 < b"
  shows "go_rem a b = - ((- a) mod b)"
  using assms by (simp add: go_rem_def go_quot_def) (simp add: minus_mult_div_eq_mod [symmetric])

section \<open>Instants\<close>

datatype gotime = Instant (nanos: int)

instantiation gotime :: linorder
begin

definition less_eq_gotime :: "gotime \<Rightarrow> gotime \<Rightarrow> bool" where
  "less_eq_gotime t u \<longleftrightarrow> nanos t \<le> nanos u"

definition less_gotime :: "gotime \<Rightarrow> gotime \<Rightarrow> bool" where
  "less_gotime t u \<longleftrightarrow> nanos t < nanos u"

instance
  by standard (auto simp: less_eq_gotime_def less_gotime_def gotime.expand)

end

text \<open>\<open>t.Before(u)\<close> is \<open>t < u\<close> and \<open>t.After(u)\<close> is \<open>u < t\<close>.\<close>

definition time_add :: "gotime \<Rightarrow> duration \<Rightarrow> gotime" where
  "time_add t d = Instant (nanos t + d)"

definition time_sub :: "gotime \<Rightarrow> gotime \<Rightarrow> duration" where
  "time_sub t u = max min_int64 (min max_int64 (nanos t - nanos u))"

definition unix_nano :: "gotime \<Rightarrow> u64" where
  "unix_nano t = word_of_int (nanos t)"

definition time_unix :: "u64 \<Rightarrow> gotime" where
  "time_unix n = Instant (sint n)"

text \<open>The zero \<open>time.Time\<close>: January 1, year 1, UTC.\<close>

definition zero_time :: gotime where
  "zero_time = Instant (- 62135596800000000000)"

definition millisecond :: duration where
  "millisecond = 1000000"

definition second :: duration where
  "second = 1000000000"

definition in_unix_range :: "gotime \<Rightarrow> bool" where
  "in_unix_range t \<longleftrightarrow> min_int64 \<le> nanos t \<and> nanos t \<le> max_int64"

lemma nanos_time_add [simp]: "nanos (time_add t d) = nanos t + d"
  by (simp add: time_add_def)

lemma le_time_iff: "t \<le> u \<longleftrightarrow> nanos t \<le> nanos u"
  by (simp add: less_eq_gotime_def)

lemma less_time_iff: "t < u \<longleftrightarrow> nanos t < nanos u"
  by (simp add: less_gotime_def)

lemma time_sub_in_range:
  "min_int64 \<le> nanos t - nanos u \<Longrightarrow> nanos t - nanos u \<le> max_int64 \<Longrightarrow>
   time_sub t u = nanos t - nanos u"
  by (simp add: time_sub_def)

lemma time_sub_ge_iff:
  "d \<le> max_int64 \<Longrightarrow> min_int64 < d \<Longrightarrow> d \<le> time_sub t u \<longleftrightarrow> d \<le> nanos t - nanos u"
  by (auto simp: time_sub_def)

lemma time_sub_le_iff:
  "d < max_int64 \<Longrightarrow> min_int64 \<le> d \<Longrightarrow> time_sub t u \<le> d \<longleftrightarrow> nanos t - nanos u \<le> d"
  by (auto simp: time_sub_def)

lemma sint_unix_nano: "in_unix_range t \<Longrightarrow> sint (unix_nano t) = nanos t"
  using wrap64_id [of "nanos t"] by (simp add: in_unix_range_def unix_nano_def wrap64_def)

lemma time_unix_unix_nano: "in_unix_range t \<Longrightarrow> time_unix (unix_nano t) = t"
  by (cases t) (simp add: time_unix_def sint_unix_nano)

lemma unix_nano_time_unix [simp]: "unix_nano (time_unix n) = n"
  by (simp add: unix_nano_def time_unix_def)

lemma unix_nano_inj:
  "in_unix_range t \<Longrightarrow> in_unix_range u \<Longrightarrow> unix_nano t = unix_nano u \<Longrightarrow> t = u"
  by (metis time_unix_unix_nano)

section \<open>Byte orders\<close>

text \<open>\<open>binary.BigEndian.PutUint64\<close> and \<open>Uint64\<close>; the latter panics on fewer than 8 bytes.\<close>

definition be_put_u64 :: "u64 \<Rightarrow> bytes" where
  "be_put_u64 v =
     [ucast (drop_bit 56 v), ucast (drop_bit 48 v), ucast (drop_bit 40 v), ucast (drop_bit 32 v),
      ucast (drop_bit 24 v), ucast (drop_bit 16 v), ucast (drop_bit 8 v), ucast v]"

fun be_u64 :: "bytes \<Rightarrow> u64 outcome" where
  "be_u64 (b0 # b1 # b2 # b3 # b4 # b5 # b6 # b7 # _) =
     Ok (ucast b7 OR push_bit 8 (ucast b6) OR push_bit 16 (ucast b5) OR push_bit 24 (ucast b4)
         OR push_bit 32 (ucast b3) OR push_bit 40 (ucast b2) OR push_bit 48 (ucast b1)
         OR push_bit 56 (ucast b0))"
| "be_u64 _ = Panic IndexOutOfRange"

fun le_u32 :: "bytes \<Rightarrow> u32 outcome" where
  "le_u32 (b0 # b1 # b2 # b3 # _) =
     Ok (ucast b0 OR push_bit 8 (ucast b1) OR push_bit 16 (ucast b2) OR push_bit 24 (ucast b3))"
| "le_u32 _ = Panic IndexOutOfRange"

definition le_put_u32 :: "u32 \<Rightarrow> bytes" where
  "le_put_u32 v =
     [ucast v, ucast (drop_bit 8 v), ucast (drop_bit 16 v), ucast (drop_bit 24 v)]"

lemma length_be_put_u64 [simp]: "length (be_put_u64 v) = 8"
  by (simp add: be_put_u64_def)

lemma length_le_put_u32 [simp]: "length (le_put_u32 v) = 4"
  by (simp add: le_put_u32_def)

lemma be_u64_short: "length bs < 8 \<Longrightarrow> be_u64 bs = Panic IndexOutOfRange"
  by (cases bs rule: be_u64.cases) auto

text \<open>Putting the octets of a word back together, one octet at a time.\<close>

lemma octet_first:
  fixes v :: "'a :: len word"
  shows "ucast (ucast v :: byte) = take_bit 8 v"
  by (rule bit_word_eqI) (auto simp: bit_ucast_iff bit_take_bit_iff)

lemma octet_join:
  fixes v :: "'a :: len word"
  shows "take_bit k v OR push_bit k (take_bit 8 (drop_bit k v)) = take_bit (k + 8) v"
proof (rule bit_word_eqI)
  fix n
  assume "n < LENGTH('a)"
  then show "bit (take_bit k v OR push_bit k (take_bit 8 (drop_bit k v))) n
      \<longleftrightarrow> bit (take_bit (k + 8) v) n"
    by (cases "n < k") (auto simp: bit_or_iff bit_push_bit_iff bit_drop_bit_eq bit_take_bit_iff)
qed

lemmas octet_joins =
  octet_join [where k = 8] octet_join [where k = 16] octet_join [where k = 24]
  octet_join [where k = 32] octet_join [where k = 40] octet_join [where k = 48]
  octet_join [where k = 56]

lemma be_u64_long: "8 \<le> length bs \<Longrightarrow> \<exists>v. be_u64 bs = Ok v"
  by (cases bs rule: be_u64.cases) auto

lemma be_u64_put_bits:
  fixes v :: u64
  shows "ucast (ucast v :: byte) OR push_bit 8 (ucast (ucast (drop_bit 8 v) :: byte))
    OR push_bit 16 (ucast (ucast (drop_bit 16 v) :: byte))
    OR push_bit 24 (ucast (ucast (drop_bit 24 v) :: byte))
    OR push_bit 32 (ucast (ucast (drop_bit 32 v) :: byte))
    OR push_bit 40 (ucast (ucast (drop_bit 40 v) :: byte))
    OR push_bit 48 (ucast (ucast (drop_bit 48 v) :: byte))
    OR push_bit 56 (ucast (ucast (drop_bit 56 v) :: byte)) = v"
  using octet_joins [of v]
  by (simp only: octet_first or.assoc [symmetric]) (simp add: take_bit_word_eq_self)

lemma be_u64_put [simp]: "be_u64 (be_put_u64 v @ rest) = Ok v"
  by (simp add: be_put_u64_def be_u64_put_bits)

lemma be_u64_put' [simp]: "be_u64 (be_put_u64 v) = Ok v"
  using be_u64_put [of v "[]"] by simp

lemma be_put_u64_inj: "be_put_u64 v = be_put_u64 w \<longleftrightarrow> v = w"
  by (metis be_u64_put' outcome.inject(1))

lemma le_u32_put_bits:
  fixes v :: u32
  shows "ucast (ucast v :: byte) OR push_bit 8 (ucast (ucast (drop_bit 8 v) :: byte))
    OR push_bit 16 (ucast (ucast (drop_bit 16 v) :: byte))
    OR push_bit 24 (ucast (ucast (drop_bit 24 v) :: byte)) = v"
  using octet_joins [of v]
  by (simp only: octet_first or.assoc [symmetric]) (simp add: take_bit_word_eq_self)

lemma le_u32_put [simp]: "le_u32 (le_put_u32 v @ rest) = Ok v"
  by (simp add: le_put_u32_def le_u32_put_bits)

lemma le_u32_take: "le_u32 (take 4 bs) = le_u32 bs"
  by (cases bs rule: le_u32.cases) auto

lemma le_u32_long: "4 \<le> length bs \<Longrightarrow> \<exists>v. le_u32 bs = Ok v"
  by (cases bs rule: le_u32.cases) auto

end
