(* ===== verification/Types.thy ===== *)
theory Types
  imports GoTime
begin

text \<open>
  \<open>core/types/types.go\<close>: signed timestamps, their byte form, and the interface of a time
  server. A value of the interface \<open>TimeServer\<close> is a record of its methods; the structs that
  implement it (\<open>core/server\<close>, \<open>core/network\<close>) are turned into such records in the theory
  that models them. The locale \<open>time_servers\<close> is the contract of an implementation.
  \<open>crypto/ed25519\<close> is a parameter \<open>c\<close> of the operations that sign or verify: its length
  checks are written out, the curve arithmetic is the two fields of \<open>ed25519\<close>.
\<close>

section \<open>Signatures\<close>

record ed25519 =
  sign_prim :: "bytes \<Rightarrow> bytes \<Rightarrow> bytes"
  verify_prim :: "bytes \<Rightarrow> bytes \<Rightarrow> bytes \<Rightarrow> bool"

definition signature_size :: nat where
  "signature_size = 64"

definition public_key_size :: nat where
  "public_key_size = 32"

definition private_key_size :: nat where
  "private_key_size = 64"

text \<open>\<open>Sign\<close> and \<open>Verify\<close> panic on a key of the wrong length.\<close>

definition ed25519_sign :: "ed25519 \<Rightarrow> bytes \<Rightarrow> bytes \<Rightarrow> bytes outcome" where
  "ed25519_sign c sk m =
     (if length sk \<noteq> private_key_size then Panic BadKeyLength else Ok (sign_prim c sk m))"

definition ed25519_verify :: "ed25519 \<Rightarrow> bytes \<Rightarrow> bytes \<Rightarrow> bytes \<Rightarrow> bool outcome" where
  "ed25519_verify c pk m sig =
     (if length pk \<noteq> public_key_size then Panic BadKeyLength
      else Ok (length sig = signature_size \<and> verify_prim c pk m sig))"

text \<open>\<open>PrivateKey.Public\<close> copies the second half of the private key.\<close>

definition ed25519_public :: "bytes \<Rightarrow> bytes outcome" where
  "ed25519_public sk =
     (if length sk < 32 then Panic SliceOutOfRange
      else let tail = take public_key_size (drop 32 sk)
           in Ok (tail @ replicate (public_key_size - length tail) 0))"

text \<open>
  What the documentation of the package promises: a signature has 64 bytes, and a signature
  made with a private key verifies under its public key.
\<close>

definition ed25519_spec :: "ed25519 \<Rightarrow> bool" where
  "ed25519_spec c \<longleftrightarrow>
     (\<forall>sk m. length sk = private_key_size \<longrightarrow>
        length (sign_prim c sk m) = signature_size \<and>
        verify_prim c (take 32 (drop 32 sk)) m (sign_prim c sk m))"

text \<open>A concrete (insecure) scheme that meets the specification, for the witnesses.\<close>

definition toy_ed25519 :: ed25519 where
  "toy_ed25519 =
     \<lparr>sign_prim = (\<lambda>sk m. take 64 (drop 32 sk @ m @ replicate 64 0)),
      verify_prim = (\<lambda>pk m sig. sig = take 64 (pk @ m @ replicate 64 0))\<rparr>"

lemma toy_ed25519_spec: "ed25519_spec toy_ed25519"
  by (auto simp: ed25519_spec_def toy_ed25519_def private_key_size_def signature_size_def)

lemma ed25519_sign_verify:
  assumes "ed25519_spec c" and "length sk = private_key_size" and "ed25519_public sk = Ok pk"
  shows "\<exists>sig. ed25519_sign c sk m = Ok sig \<and> length sig = signature_size
    \<and> ed25519_verify c pk m sig = Ok True"
  using assms
  by (auto simp: ed25519_spec_def ed25519_sign_def ed25519_verify_def ed25519_public_def
      private_key_size_def public_key_size_def Let_def)

lemma ed25519_verify_wrong_length:
  "length pk = public_key_size \<Longrightarrow> length sig \<noteq> signature_size \<Longrightarrow>
   ed25519_verify c pk m sig = Ok False"
  by (simp add: ed25519_verify_def)

section \<open>Data types\<close>

record signed_timestamp =
  st_time :: gotime
  st_server :: string
  st_region :: string
  st_sig :: bytes

record network_status =
  ns_status :: string
  ns_region :: string
  ns_peer_count :: int
  ns_latest_round :: u64

record validator_info =
  vi_id :: string
  vi_region :: string
  vi_status :: string

text \<open>The interface \<open>TimeServer\<close>, as the methods of one value of it.\<close>

record time_server =
  get_id :: string
  get_region :: string
  get_public_key :: bytes
  sign_op :: "bytes \<Rightarrow> bytes outcome"
  verify_op :: "bytes \<Rightarrow> bytes \<Rightarrow> unit outcome"

section \<open>Operations\<close>

definition timestamp_to_bytes :: "gotime \<Rightarrow> bytes" where
  "timestamp_to_bytes t = be_put_u64 (unix_nano t)"

definition bytes_to_timestamp :: "bytes \<Rightarrow> gotime outcome" where
  "bytes_to_timestamp b = bind_outcome (be_u64 b) (\<lambda>n. Ok (time_unix n))"

definition st_verify :: "signed_timestamp \<Rightarrow> time_server \<Rightarrow> unit outcome" where
  "st_verify st srv = verify_op srv (be_put_u64 (unix_nano (st_time st))) (st_sig st)"

text \<open>\<open>Sign\<close> writes its receiver: the new value is returned beside the outcome.\<close>

definition st_sign :: "signed_timestamp \<Rightarrow> time_server \<Rightarrow> signed_timestamp \<times> unit outcome" where
  "st_sign s srv =
     (case sign_op srv (timestamp_to_bytes (st_time s)) of
        Ok sig \<Rightarrow> (s\<lparr>st_sig := sig, st_server := get_id srv, st_region := get_region srv\<rparr>, Ok ())
      | Err e \<Rightarrow> (s, Err (Errorf ''failed to sign timestamp: %w'' [FErr e]))
      | Panic p \<Rightarrow> (s, Panic p)
      | Blocked \<Rightarrow> (s, Blocked))"

text \<open>\<open>String\<close>; the rendering of the instant (\<open>%v\<close>) is \<open>fmt\<close>'s and a parameter.\<close>

definition st_string :: "(gotime \<Rightarrow> string) \<Rightarrow> signed_timestamp \<Rightarrow> string" where
  "st_string show_time st =
     ''SignedTimestamp{Time: '' @ show_time (st_time st) @ '', ServerID: '' @ st_server st
     @ '', RegionID: '' @ st_region st @ ''}''"

section \<open>Properties of the byte form\<close>

lemma bytes_to_timestamp_to_bytes:
  "bytes_to_timestamp (timestamp_to_bytes t) = Ok (Instant (wrap64 (nanos t)))"
  by (simp add: bytes_to_timestamp_def timestamp_to_bytes_def time_unix_def unix_nano_def
      wrap64_def)

lemma timestamp_to_bytes_inj:
  "in_unix_range t \<Longrightarrow> in_unix_range u \<Longrightarrow>
   timestamp_to_bytes t = timestamp_to_bytes u \<longleftrightarrow> t = u"
  by (auto simp: timestamp_to_bytes_def be_put_u64_inj dest: unix_nano_inj)

lemma bytes_to_timestamp_short: "length b < 8 \<Longrightarrow> bytes_to_timestamp b = Panic IndexOutOfRange"
  by (simp add: bytes_to_timestamp_def be_u64_short)

lemma bytes_to_timestamp_in_range: "bytes_to_timestamp b = Ok t \<Longrightarrow> in_unix_range t"
  by (auto simp: bytes_to_timestamp_def outcome_simps in_unix_range_def time_unix_def
      sint_u64_bounds)

section \<open>The contract of a time server\<close>

text \<open>
  \<open>mk s\<close> is the interface value of an implementation's object \<open>s\<close>. A well-formed object
  signs every message, and accepts its own signatures. Everything a client needs of a server
  follows from these two laws.
\<close>

locale time_servers =
  fixes mk :: "'s \<Rightarrow> time_server"
    and ok :: "'s \<Rightarrow> bool"
  assumes sign_total: "ok s \<Longrightarrow> \<exists>sig. sign_op (mk s) m = Ok sig"
    and sign_verifies: "ok s \<Longrightarrow> sign_op (mk s) m = Ok sig \<Longrightarrow> verify_op (mk s) m sig = Ok ()"
begin

lemma st_sign_ok:
  assumes "ok s"
  obtains sig where
    "st_sign st (mk s) =
       (st\<lparr>st_sig := sig, st_server := get_id (mk s), st_region := get_region (mk s)\<rparr>, Ok ())"
    and "sign_op (mk s) (timestamp_to_bytes (st_time st)) = Ok sig"
  using sign_total [OF assms, of "timestamp_to_bytes (st_time st)"]
  by (auto simp: st_sign_def)

lemma st_sign_verify:
  assumes "ok s" and "st_sign st (mk s) = (st', r)"
  shows "r = Ok () \<and> st_verify st' (mk s) = Ok () \<and> st_time st' = st_time st
    \<and> st_server st' = get_id (mk s) \<and> st_region st' = get_region (mk s)"
proof -
  obtain sig where
    "st_sign st (mk s) =
       (st\<lparr>st_sig := sig, st_server := get_id (mk s), st_region := get_region (mk s)\<rparr>, Ok ())"
    and sig: "sign_op (mk s) (timestamp_to_bytes (st_time st)) = Ok sig"
    by (rule st_sign_ok [OF assms(1)])
  then show ?thesis
    using assms(2) sign_verifies [OF assms(1) sig]
    by (auto simp: st_verify_def timestamp_to_bytes_def)
qed

end

text \<open>
  The signature covers the instant only: verification does not read the region or the server
  named in the timestamp.
\<close>

lemma st_verify_cong:
  "unix_nano (st_time a) = unix_nano (st_time b) \<Longrightarrow> st_sig a = st_sig b \<Longrightarrow>
   st_verify a srv = st_verify b srv"
  by (simp add: st_verify_def)

end
