(* ===== verification/ConsState.thy ===== *)
theory ConsState
  imports Types
begin

text \<open>
  \<open>core/consensus/types.go\<close>, \<open>state.go\<close>, \<open>messages.go\<close> and \<open>protocol.go\<close>: the
  consensus state behind its \<open>sync.RWMutex\<close>, and the messages. A method that takes the mutex
  is run by one goroutine, and the field \<open>mu\<close> says how that goroutine already holds the mutex
  when it makes the call: taking a write lock, or a read lock under a write lock, then waits
  for itself and the call is \<open>Blocked\<close>. Calls of other goroutines are serialised by the mutex.
\<close>

section \<open>State and messages\<close>

record cons_state =
  mu :: rwmutex
  node_id :: string
  view :: u64
  validators :: "(string, bool) gomap"
  leader :: string
  last_digest :: bytes
  last_time :: gotime

record consensus_message =
  cm_type :: string
  cm_view :: u64
  cm_from :: string
  cm_to :: string
  cm_timestamp :: "signed_timestamp option"
  cm_data :: bytes
  cm_signature :: bytes

record timestamp_batch =
  tb_timestamps :: "signed_timestamp list"
  tb_batch_id :: u64
  tb_leader :: string
  tb_fast_path :: bool

record batch_vote =
  bv_batch_id :: u64
  bv_signatures :: "bytes list"

record batch_commit =
  bc_batch_id :: u64
  bc_aggregated_votes :: bytes

definition consensus_protocol_id :: string where
  "consensus_protocol_id = ''/timeserver/consensus/1.0.0''"

definition max_clock_drift :: duration where
  "max_clock_drift = 100 * millisecond"

text \<open>
  \<open>encoding/json\<close> on consensus messages and batches: functions of which the program relies on
  the round trip only.
\<close>

record msg_codec =
  marshal_msg :: "consensus_message \<Rightarrow> bytes outcome"
  unmarshal_msg :: "bytes \<Rightarrow> consensus_message outcome"
  marshal_batch :: "timestamp_batch \<Rightarrow> bytes outcome"

definition codec_spec :: "msg_codec \<Rightarrow> bool" where
  "codec_spec j \<longleftrightarrow>
     (\<forall>m. \<exists>d. marshal_msg j m = Ok d \<and> unmarshal_msg j d = Ok m)
     \<and> (\<forall>b. \<exists>d. marshal_batch j b = Ok d)"

section \<open>Operations of \<open>State\<close>\<close>

definition new_state :: "string \<Rightarrow> (string, bool) gomap \<Rightarrow> cons_state" where
  "new_state node vs =
     \<lparr>mu = Unlocked, node_id = node, view = 0, validators = vs, leader = [],
      last_digest = [], last_time = zero_time\<rparr>"

text \<open>A method that reads under \<open>RLock\<close>, or writes under \<open>Lock\<close>, and releases on return.\<close>

definition state_read :: "(cons_state \<Rightarrow> 'a) \<Rightarrow> cons_state \<Rightarrow> 'a outcome" where
  "state_read f s = (case mutex_rlock (mu s) of None \<Rightarrow> Blocked | Some _ \<Rightarrow> Ok (f s))"

definition state_write :: "(cons_state \<Rightarrow> cons_state) \<Rightarrow> cons_state \<Rightarrow> cons_state outcome" where
  "state_write f s = (case mutex_lock (mu s) of None \<Rightarrow> Blocked | Some _ \<Rightarrow> Ok (f s))"

definition get_node_id :: "cons_state \<Rightarrow> string outcome" where
  "get_node_id = state_read node_id"

definition get_view :: "cons_state \<Rightarrow> u64 outcome" where
  "get_view = state_read view"

definition set_view :: "u64 \<Rightarrow> cons_state \<Rightarrow> cons_state outcome" where
  "set_view v = state_write (\<lambda>s. s\<lparr>view := v\<rparr>)"

definition get_leader :: "cons_state \<Rightarrow> string outcome" where
  "get_leader = state_read leader"

definition set_leader :: "string \<Rightarrow> cons_state \<Rightarrow> cons_state outcome" where
  "set_leader l = state_write (\<lambda>s. s\<lparr>leader := l\<rparr>)"

definition get_last_time :: "cons_state \<Rightarrow> gotime outcome" where
  "get_last_time = state_read last_time"

definition set_last_time :: "gotime \<Rightarrow> cons_state \<Rightarrow> cons_state outcome" where
  "set_last_time t = state_write (\<lambda>s. s\<lparr>last_time := t\<rparr>)"

definition get_last_digest :: "cons_state \<Rightarrow> bytes outcome" where
  "get_last_digest = state_read last_digest"

definition set_last_digest :: "bytes \<Rightarrow> cons_state \<Rightarrow> cons_state outcome" where
  "set_last_digest d = state_write (\<lambda>s. s\<lparr>last_digest := d\<rparr>)"

text \<open>\<open>GetValidators\<close> copies the map entry by entry, in the order \<open>ord\<close>.\<close>

definition get_validators ::
  "(string list \<Rightarrow> string list) \<Rightarrow> cons_state \<Rightarrow> (string, bool) gomap outcome" where
  "get_validators ord =
     state_read (\<lambda>s. fold (\<lambda>(k, v) m. map_put k v m) (go_range ord (validators s)) [])"

section \<open>Lemmas\<close>

lemmas state_getters =
  get_node_id_def get_view_def get_leader_def get_last_time_def get_last_digest_def

lemmas state_setters =
  set_view_def set_leader_def set_last_time_def set_last_digest_def

lemma state_read_free [simp]: "mu s = Unlocked \<Longrightarrow> state_read f s = Ok (f s)"
  by (simp add: state_read_def)

lemma state_read_held [simp]: "mu s = WriteLocked \<Longrightarrow> state_read f s = Blocked"
  by (simp add: state_read_def)

lemma state_read_OkD: "state_read f s = Ok x \<Longrightarrow> x = f s"
  by (simp add: state_read_def split: option.splits)

lemma state_write_free [simp]: "mu s = Unlocked \<Longrightarrow> state_write f s = Ok (f s)"
  by (simp add: state_write_def)

lemma state_write_held [simp]: "mu s \<noteq> Unlocked \<Longrightarrow> state_write f s = Blocked"
  by (cases "mu s") (simp_all add: state_write_def)

lemma fold_put_append:
  "distinct (map fst (acc @ es)) \<Longrightarrow> fold (\<lambda>(k, v) m. map_put k v m) es acc = acc @ es"
proof (induction es arbitrary: acc)
  case (Cons e es)
  obtain k v where e: "e = (k, v)" by (cases e)
  have "map_put k v acc = acc @ [(k, v)]"
    using Cons.prems by (intro map_put_new) (auto simp: e has_key_def keys_def)
  then show ?case using Cons by (simp add: e)
qed simp

lemma fold_put_range:
  "is_order ord \<Longrightarrow> wf_map m \<Longrightarrow>
   fold (\<lambda>(k, v) m. map_put k v m) (go_range ord m) [] = go_range ord m"
  using fold_put_append [of "[]" "go_range ord m"] by (simp add: distinct_go_range)

text \<open>The copy has the entries of the original, whatever the iteration order.\<close>

lemma get_validators_copy:
  assumes "mu s = Unlocked" and "wf_map (validators s)" and "is_order ord"
  shows "\<exists>vs. get_validators ord s = Ok vs \<and> wf_map vs \<and> mset vs = mset (validators s)
    \<and> mset (keys vs) = mset (keys (validators s)) \<and> length vs = length (validators s)"
proof -
  let ?vs = "go_range ord (validators s)"
  have m: "mset ?vs = mset (validators s)" using assms by (simp add: mset_go_range)
  moreover have "get_validators ord s = Ok ?vs"
    using assms by (simp add: get_validators_def fold_put_range)
  moreover have "wf_map ?vs"
    using distinct_go_range [OF assms(3,2)] by (simp add: wf_map_def keys_def)
  moreover have "mset (keys ?vs) = mset (keys (validators s))"
    using m by (metis keys_def mset_map)
  ultimately show ?thesis by (metis mset_eq_length)
qed

lemma set_then_get:
  assumes "mu s = Unlocked"
  shows "bind_outcome (set_view v s) get_view = Ok v"
    and "bind_outcome (set_leader l s) get_leader = Ok l"
    and "bind_outcome (set_last_time t s) get_last_time = Ok t"
    and "bind_outcome (set_last_digest d s) get_last_digest = Ok d"
  using assms by (simp_all add: state_getters state_setters)

section \<open>A concrete codec\<close>

text \<open>
  A (wasteful) codec that meets \<open>codec_spec\<close>: a message is a list of numbers, strings preceded
  by their length, and a number is that many bytes 1 and a byte 0.
\<close>

fun numbers_to_bytes :: "nat list \<Rightarrow> bytes" where
  "numbers_to_bytes [] = []"
| "numbers_to_bytes (n # ns) = replicate n 1 @ 0 # numbers_to_bytes ns"

fun bytes_to_numbers :: "nat \<Rightarrow> bytes \<Rightarrow> nat list" where
  "bytes_to_numbers k [] = []"
| "bytes_to_numbers k (b # bs) =
     (if b = 0 then k # bytes_to_numbers 0 bs else bytes_to_numbers (Suc k) bs)"

definition put_string :: "string \<Rightarrow> nat list" where
  "put_string s = length s # map of_char s"

definition put_bytes :: "bytes \<Rightarrow> nat list" where
  "put_bytes b = length b # map unat b"

definition put_time :: "gotime \<Rightarrow> nat list" where
  "put_time t = [nat (nanos t), nat (- nanos t)]"

definition put_stamp :: "signed_timestamp option \<Rightarrow> nat list" where
  "put_stamp ts =
     (case ts of None \<Rightarrow> [0]
      | Some s \<Rightarrow> 1 # put_time (st_time s) @ put_string (st_server s) @ put_string (st_region s)
                   @ put_bytes (st_sig s))"

definition put_message :: "consensus_message \<Rightarrow> nat list" where
  "put_message m =
     put_string (cm_type m) @ unat (cm_view m) # put_string (cm_from m) @ put_string (cm_to m)
     @ put_stamp (cm_timestamp m) @ put_bytes (cm_data m) @ put_bytes (cm_signature m)"

definition get_string :: "nat list \<Rightarrow> string \<times> nat list" where
  "get_string ns = (map char_of (take (hd ns) (tl ns)), drop (hd ns) (tl ns))"

definition get_bytes :: "nat list \<Rightarrow> bytes \<times> nat list" where
  "get_bytes ns = (map of_nat (take (hd ns) (tl ns)), drop (hd ns) (tl ns))"

definition get_stamp :: "nat list \<Rightarrow> signed_timestamp option \<times> nat list" where
  "get_stamp ns =
     (if hd ns = 0 then (None, tl ns)
      else let t = Instant (int (ns ! 1) - int (ns ! 2));
               (srv, ns1) = get_string (drop 3 ns); (reg, ns2) = get_string ns1;
               (sig, ns3) = get_bytes ns2
           in (Some \<lparr>st_time = t, st_server = srv, st_region = reg, st_sig = sig\<rparr>, ns3))"

definition get_message :: "nat list \<Rightarrow> consensus_message" where
  "get_message ns =
     (let (kind, ns1) = get_string ns; (from, ns2) = get_string (tl ns1);
          (to, ns3) = get_string ns2; (ts, ns4) = get_stamp ns3;
          (data, ns5) = get_bytes ns4; (sig, ns6) = get_bytes ns5
      in \<lparr>cm_type = kind, cm_view = of_nat (hd ns1), cm_from = from, cm_to = to,
          cm_timestamp = ts, cm_data = data, cm_signature = sig\<rparr>)"

definition unary_codec :: msg_codec where
  "unary_codec =
     \<lparr>marshal_msg = (\<lambda>m. Ok (numbers_to_bytes (put_message m))),
      unmarshal_msg = (\<lambda>d. Ok (get_message (bytes_to_numbers 0 d))),
      marshal_batch = (\<lambda>b. Ok (numbers_to_bytes [unat (tb_batch_id b)]))\<rparr>"

lemma bytes_to_numbers_ones:
  "bytes_to_numbers k (replicate n 1 @ 0 # bs) = (k + n) # bytes_to_numbers 0 bs"
  by (induction n arbitrary: k) simp_all

lemma numbers_round_trip: "bytes_to_numbers 0 (numbers_to_bytes ns) = ns"
  by (induction ns) (simp_all add: bytes_to_numbers_ones)

lemma get_put_string [simp]: "get_string (put_string s @ ns) = (s, ns)"
  by (simp add: get_string_def put_string_def comp_def)

lemma get_put_bytes [simp]: "get_bytes (put_bytes b @ ns) = (b, ns)"
  by (simp add: get_bytes_def put_bytes_def comp_def)

lemma get_put_stamp [simp]: "get_stamp (put_stamp ts @ ns) = (ts, ns)"
  by (cases ts)
    (auto simp: get_stamp_def put_stamp_def put_time_def intro!: signed_timestamp.equality gotime.expand)

lemma get_put_message: "get_message (put_message m) = m"
proof -
  have "get_bytes (put_bytes b) = (b, [])" for b using get_put_bytes [of b "[]"] by simp
  then show ?thesis by (simp add: get_message_def put_message_def)
qed

lemma unary_codec_spec: "codec_spec unary_codec"
  by (simp add: codec_spec_def unary_codec_def numbers_round_trip get_put_message)

end
