(* ===== verification/Election.thy ===== *)
theory Election
  imports ConsState
begin

text \<open>
  \<open>core/consensus/leader.go\<close> and \<open>election.go\<close>: the two election objects. Both sort the
  validators' ids when they are made and index that list by the view. \<open>sha256\<close> is a parameter
  of \<open>elect_leader\<close>; only the length of its digest matters.
\<close>

section \<open>Model\<close>

record leader_election =
  le_state :: cons_state
  le_threshold :: int
  le_validators :: "string list"

record validator_election =
  ve_state :: cons_state
  ve_validators :: "string list"

text \<open>\<open>GetValidators\<close> is called twice (for the capacity and for the loop), then ranged over.\<close>

definition sorted_validator_ids ::
  "(string list \<Rightarrow> string list) \<Rightarrow> (string list \<Rightarrow> string list) \<Rightarrow> (string list \<Rightarrow> string list)
   \<Rightarrow> cons_state \<Rightarrow> string list outcome" where
  "sorted_validator_ids o1 o2 o3 s =
     bind_outcome (get_validators o1 s)
       (\<lambda>_. bind_outcome (get_validators o2 s) (\<lambda>vs. Ok (sort (map fst (go_range o3 vs)))))"

definition new_leader_election ::
  "(string list \<Rightarrow> string list) \<Rightarrow> (string list \<Rightarrow> string list) \<Rightarrow> (string list \<Rightarrow> string list)
   \<Rightarrow> cons_state \<Rightarrow> int \<Rightarrow> leader_election outcome" where
  "new_leader_election o1 o2 o3 s threshold =
     bind_outcome (sorted_validator_ids o1 o2 o3 s)
       (\<lambda>vs. Ok \<lparr>le_state = s, le_threshold = threshold, le_validators = vs\<rparr>)"

definition elect_leader :: "(bytes \<Rightarrow> bytes) \<Rightarrow> leader_election \<Rightarrow> u64 \<Rightarrow> string outcome" where
  "elect_leader sha256 le v =
     (if le_validators le = [] then Ok []
      else bind_outcome (be_u64 (sha256 (be_put_u64 v)))
        (\<lambda>h. Ok (le_validators le ! (unat h mod length (le_validators le)))))"

text \<open>
  \<open>validators[int(view) % len(validators)]\<close>: the view is read as a signed number, the
  remainder takes its sign, and a negative index panics.
\<close>

definition view_index :: "string list \<Rightarrow> u64 \<Rightarrow> string outcome" where
  "view_index vs v =
     (if vs = [] then Ok []
      else let i = go_rem (sint v) (int (length vs))
           in if i < 0 \<or> int (length vs) \<le> i then Panic IndexOutOfRange
              else Ok (vs ! nat i))"

definition get_leader_for_view :: "leader_election \<Rightarrow> u64 \<Rightarrow> string outcome" where
  "get_leader_for_view le v = view_index (le_validators le) v"

definition is_leader :: "leader_election \<Rightarrow> u64 \<Rightarrow> bool outcome" where
  "is_leader le v =
     bind_outcome (get_leader_for_view le v)
       (\<lambda>l. bind_outcome (get_node_id (le_state le)) (\<lambda>n. Ok (l = n)))"

text \<open>These two read the field without the state's mutex.\<close>

definition is_leader_node :: "leader_election \<Rightarrow> string \<Rightarrow> bool" where
  "is_leader_node le node \<longleftrightarrow> leader (le_state le) = node"

definition le_get_leader :: "leader_election \<Rightarrow> string" where
  "le_get_leader le = leader (le_state le)"

definition new_validator_election ::
  "(string list \<Rightarrow> string list) \<Rightarrow> (string list \<Rightarrow> string list) \<Rightarrow> (string list \<Rightarrow> string list)
   \<Rightarrow> cons_state \<Rightarrow> validator_election outcome" where
  "new_validator_election o1 o2 o3 s =
     bind_outcome (sorted_validator_ids o1 o2 o3 s)
       (\<lambda>vs. Ok \<lparr>ve_state = s, ve_validators = vs\<rparr>)"

definition get_validator_for_view :: "validator_election \<Rightarrow> u64 \<Rightarrow> string outcome" where
  "get_validator_for_view ve v = view_index (ve_validators ve) v"

text \<open>
  The body of \<open>StartViewChange\<close> between \<open>Lock\<close> and the deferred \<open>Unlock\<close>. It builds a
  message that is thrown away, so the message is not part of the result; the setters are
  called on the locked state.
\<close>

definition view_change_body ::
  "(string list \<Rightarrow> string list) \<Rightarrow> (string list \<Rightarrow> string list) \<Rightarrow> cons_state
   \<Rightarrow> cons_state outcome" where
  "view_change_body o1 o2 s =
     bind_outcome (get_view s) (\<lambda>v.
     bind_outcome (get_validators o1 s) (\<lambda>vs.
       let new_view = v + 1; ids = sort (map fst (go_range o2 vs))
       in if ids = [] then Panic IntegerDivideByZero
          else bind_outcome (set_view new_view s) (\<lambda>s1.
               bind_outcome (set_leader (ids ! (unat new_view mod length ids)) s1) (\<lambda>s2.
               bind_outcome (get_node_id s2) (\<lambda>_. Ok s2)))))"

text \<open>
  The state is returned too: when the body blocks, the goroutine keeps the write lock. The
  deferred \<open>Unlock\<close> runs on a return and on a panic.
\<close>

definition start_view_change ::
  "(string list \<Rightarrow> string list) \<Rightarrow> (string list \<Rightarrow> string list) \<Rightarrow> validator_election
   \<Rightarrow> validator_election \<times> unit outcome" where
  "start_view_change o1 o2 ve =
     (let s = ve_state ve in
      case mutex_lock (mu s) of
        None \<Rightarrow> (ve, Blocked)
      | Some m \<Rightarrow>
          let locked = s\<lparr>mu := m\<rparr> in
          case view_change_body o1 o2 locked of
            Ok s' \<Rightarrow> (ve\<lparr>ve_state := s'\<lparr>mu := Unlocked\<rparr>\<rparr>, Err (Errorf ''not implemented'' []))
          | Err e \<Rightarrow> (ve\<lparr>ve_state := locked\<lparr>mu := Unlocked\<rparr>\<rparr>, Err e)
          | Panic p \<Rightarrow> (ve\<lparr>ve_state := locked\<lparr>mu := Unlocked\<rparr>\<rparr>, Panic p)
          | Blocked \<Rightarrow> (ve\<lparr>ve_state := locked\<rparr>, Blocked))"

section \<open>Lemmas\<close>

lemma sorted_validator_ids_eq:
  assumes "mu s = Unlocked" and "wf_map (validators s)"
    and "is_order o1" and "is_order o2" and "is_order o3"
  shows "sorted_validator_ids o1 o2 o3 s = Ok (sort (keys (validators s)))"
proof -
  obtain vs0 where "get_validators o1 s = Ok vs0"
    using get_validators_copy [OF assms(1,2,3)] by blast
  moreover obtain vs where "get_validators o2 s = Ok vs" "wf_map vs"
    and keys: "mset (keys vs) = mset (keys (validators s))"
    using get_validators_copy [OF assms(1,2,4)] by blast
  ultimately show ?thesis
    using assms(5) sort_mset_cong [OF keys]
    by (simp add: sorted_validator_ids_def map_fst_go_range sort_order)
qed

lemma view_index_small:
  assumes "vs \<noteq> []" and "unat v < 2 ^ 63"
  shows "view_index vs v = Ok (vs ! (unat v mod length vs))"
proof -
  have s: "sint v = int (unat v)"
    using assms(2) by (rule sint_u64_small)
  have "go_rem (sint v) (int (length vs)) = int (unat v mod length vs)"
    using assms(1) by (simp add: s go_rem_nonneg zmod_int)
  moreover have "unat v mod length vs < length vs" using assms(1) by simp
  ultimately show ?thesis
    using assms(1) by (simp add: view_index_def Let_def not_le)
qed

lemma go_rem_minus_nat:
  "0 < k \<Longrightarrow> 0 < n \<Longrightarrow> go_rem (- int k) (int n) = - int (k mod n)"
  by (simp add: go_rem_neg zmod_int)

lemma view_index_large:
  assumes "vs \<noteq> []" and "2 ^ 63 \<le> unat v"
  shows "view_index vs v =
    (if (2 ^ 64 - unat v) mod length vs = 0 then Ok (vs ! 0) else Panic IndexOutOfRange)"
proof -
  let ?n = "length vs" and ?k = "2 ^ 64 - unat v"
  have lt: "unat v < 2 ^ 64" using unsigned_less [of v, where ?'a = nat] by simp
  have s: "sint v = - int ?k" using sint_u64_large [OF assms(2)] lt by simp
  have r: "go_rem (sint v) (int ?n) = - int (?k mod ?n)"
    unfolding s using assms(1) lt by (intro go_rem_minus_nat) auto
  show ?thesis
  proof (cases "?k mod ?n = 0")
    case True
    then show ?thesis using assms(1) by (simp add: view_index_def r)
  next
    case False
    then have "go_rem (sint v) (int ?n) < 0" unfolding r by simp
    with False show ?thesis using assms(1) by (simp only: view_index_def Let_def) simp
  qed
qed

lemma mod_add_left_cancel: "(k + i) mod n = (k + j) mod n \<Longrightarrow> i mod n = j mod (n :: nat)"
  by (simp add: nat_mod_eq_iff)

lemma nth_mod_window:
  assumes "distinct vs" and "x \<in> set vs" and "n = length vs"
  shows "\<exists>!i. i < n \<and> vs ! ((k + i) mod n) = x"
proof -
  obtain j where j: "j < n" "vs ! j = x" using assms(2,3) by (auto simp: in_set_conv_nth)
  have n: "0 < n" using j(1) by simp
  let ?i = "(j + (n - k mod n)) mod n"
  have "(k + ?i) mod n = (k mod n + (j + (n - k mod n))) mod n" by (metis mod_add_eq mod_mod_trivial)
  also have "k mod n + (j + (n - k mod n)) = j + n" using mod_less_divisor [OF n, of k] by linarith
  finally have "(k + ?i) mod n = j" using j(1) by simp
  moreover have "i = ?i" if "i < n" "vs ! ((k + i) mod n) = x" for i
  proof -
    have "(k + i) mod n = j"
      using that j n assms(1,3) by (metis mod_less_divisor nth_eq_iff_index_eq)
    then have "(k + i) mod n = (k + ?i) mod n" using \<open>(k + ?i) mod n = j\<close> by simp
    then have "i mod n = ?i mod n" by (rule mod_add_left_cancel)
    with that n show ?thesis by simp
  qed
  ultimately show ?thesis using j n by (intro ex1I [of _ ?i]) auto
qed

lemma new_leader_election_eq:
  assumes "mu s = Unlocked" and "wf_map (validators s)"
    and "is_order o1" and "is_order o2" and "is_order o3"
  shows "new_leader_election o1 o2 o3 s t =
    Ok \<lparr>le_state = s, le_threshold = t, le_validators = sort (keys (validators s))\<rparr>"
  using assms by (simp add: new_leader_election_def sorted_validator_ids_eq)

lemma new_validator_election_eq:
  assumes "mu s = Unlocked" and "wf_map (validators s)"
    and "is_order o1" and "is_order o2" and "is_order o3"
  shows "new_validator_election o1 o2 o3 s =
    Ok \<lparr>ve_state = s, ve_validators = sort (keys (validators s))\<rparr>"
  using assms by (simp add: new_validator_election_def sorted_validator_ids_eq)

lemma sort_keys_cong:
  fixes m m' :: "(string, 'v) gomap"
  assumes "wf_map m" and "wf_map m'" and "set (keys m) = set (keys m')"
  shows "sort (keys m) = sort (keys m')"
  using assms by (intro sort_mset_cong) (simp add: wf_map_def set_eq_iff_mset_eq_distinct)

section \<open>Properties\<close>

text \<open>
  C18. Agreement on the leader: two nodes that know the same set of validators, in maps of any
  layout visited in any order, elect the same leader for every view, with both selection rules.
\<close>

theorem leader_agreement:
  assumes "mu s = Unlocked" and "wf_map (validators s)"
    and "mu s' = Unlocked" and "wf_map (validators s')"
    and "set (keys (validators s)) = set (keys (validators s'))"
    and "is_order o1" and "is_order o2" and "is_order o3"
    and "is_order p1" and "is_order p2" and "is_order p3"
  shows "bind_outcome (new_leader_election o1 o2 o3 s t) (\<lambda>le. get_leader_for_view le v)
       = bind_outcome (new_leader_election p1 p2 p3 s' t') (\<lambda>le. get_leader_for_view le v)
    \<and> bind_outcome (new_leader_election o1 o2 o3 s t) (\<lambda>le. elect_leader sha le v)
       = bind_outcome (new_leader_election p1 p2 p3 s' t') (\<lambda>le. elect_leader sha le v)"
  using sort_keys_cong [OF assms(2,4,5)] assms
  by (simp add: new_leader_election_eq get_leader_for_view_def elect_leader_def)

text \<open>
  Rotation: from any view on (below \<open>2\<^sup>6\<^sup>3\<close>), in as many consecutive views as there are
  validators every validator is the leader exactly once.
\<close>

lemma leader_rotation:
  assumes "mu s = Unlocked" and "wf_map (validators s)"
    and "is_order o1" and "is_order o2" and "is_order o3"
    and "new_leader_election o1 o2 o3 s t = Ok le"
    and "x \<in> set (keys (validators s))"
    and "unat v + length (validators s) \<le> 2 ^ 63"
  shows "\<exists>!i. i < length (validators s) \<and> get_leader_for_view le (v + of_nat i) = Ok x"
proof -
  let ?vs = "sort (keys (validators s))" and ?n = "length (validators s)"
  have le: "le_validators le = ?vs"
    using assms(6) by (auto simp: new_leader_election_eq [OF assms(1-5)])
  have ne: "?vs \<noteq> []" using assms(7) by (metis empty_iff empty_set set_sort)
  have at: "get_leader_for_view le (v + of_nat i) = Ok (?vs ! ((unat v + i) mod ?n))"
    if "i < ?n" for i
  proof -
    have lt: "unat v + i < 2 ^ 63" using that assms(8) by linarith
    have "unat (v + of_nat i) = unat v + i"
      using lt by (simp add: unat_word_ariths unat_of_nat)
    then show ?thesis
      using view_index_small [OF ne, of "v + of_nat i"] lt
      by (simp add: get_leader_for_view_def le)
  qed
  have "\<exists>!i. i < ?n \<and> ?vs ! ((unat v + i) mod ?n) = x"
    using assms(2,7) by (intro nth_mod_window) (simp_all add: wf_map_def)
  then show ?thesis using at by (metis outcome.inject(1))
qed

text \<open>
  From view \<open>2\<^sup>6\<^sup>3\<close> on, \<open>int(view)\<close> is negative: unless the number of validators happens
  to divide \<open>2\<^sup>6\<^sup>4 - view\<close>, the index is negative and asking for the leader panics.
\<close>

lemma leader_for_huge_view_panics:
  assumes "le_validators le \<noteq> []" and "2 ^ 63 \<le> unat v"
  shows "get_leader_for_view le v =
    (if (2 ^ 64 - unat v) mod length (le_validators le) = 0 then Ok (le_validators le ! 0)
     else Panic IndexOutOfRange)"
  using view_index_large [OF assms] by (simp add: get_leader_for_view_def)

text \<open>
  The hash-based election always yields one of the validators, for every view, when the
  digest has the 32 bytes of SHA-256.
\<close>

lemma elect_leader_total:
  assumes "le_validators le \<noteq> []" and "length (sha (be_put_u64 v)) = 32"
  shows "\<exists>l. elect_leader sha le v = Ok l \<and> l \<in> set (le_validators le)"
proof -
  obtain h where "be_u64 (sha (be_put_u64 v)) = Ok h"
    using be_u64_long [of "sha (be_put_u64 v)"] assms(2) by auto
  moreover have "unat h mod length (le_validators le) < length (le_validators le)"
    using assms(1) by simp
  ultimately show ?thesis using assms(1) by (simp add: elect_leader_def)
qed

text \<open>
  The two election objects agree: for the same state \<open>GetValidatorForView\<close> and
  \<open>GetLeaderForView\<close> give the same answer (a panic included) for every view, and in every
  view below \<open>2\<^sup>6\<^sup>3\<close> with at least one validator a node is the leader exactly if it bears the
  id the election gives, so that nodes with different ids never both are.
\<close>

lemma single_leader:
  assumes "mu s = Unlocked" and "wf_map (validators s)"
    and "is_order o1" and "is_order o2" and "is_order o3"
    and "validators s \<noteq> []" and "unat v < 2 ^ 63"
  shows "\<exists>l. l \<in> set (keys (validators s))
    \<and> bind_outcome (new_validator_election o1 o2 o3 s) (\<lambda>ve. get_validator_for_view ve v) = Ok l
    \<and> (\<forall>n. bind_outcome (new_leader_election o1 o2 o3 (s\<lparr>node_id := n\<rparr>) t) (\<lambda>le. is_leader le v)
             = Ok (n = l))"
proof -
  let ?vs = "sort (keys (validators s))"
  let ?l = "?vs ! (unat v mod length ?vs)"
  have ne: "?vs \<noteq> []" using assms(6) by (metis length_0_conv length_keys length_sort)
  have vi: "view_index ?vs v = Ok ?l" by (rule view_index_small [OF ne assms(7)])
  have mem: "?l \<in> set ?vs"
    using ne by (intro nth_mem mod_less_divisor) (simp only: length_greater_0_conv not_False_eq_True)
  have "bind_outcome (new_leader_election o1 o2 o3 (s\<lparr>node_id := n\<rparr>) t) (\<lambda>le. is_leader le v)
      = Ok (n = ?l)" for n
    using assms(1-5) vi
    by (simp add: new_leader_election_eq is_leader_def get_leader_for_view_def get_node_id_def
        eq_commute)
  moreover have "bind_outcome (new_validator_election o1 o2 o3 s)
      (\<lambda>ve. get_validator_for_view ve v) = Ok ?l"
    using assms(1-5) vi by (simp add: new_validator_election_eq get_validator_for_view_def)
  moreover have "?l \<in> set (keys (validators s))" using mem by (simp only: set_sort)
  ultimately show ?thesis by blast
qed

text \<open>
  C36. \<open>ValidatorElection.StartViewChange\<close> never returns: it takes the state's write lock and
  then calls \<open>GetView\<close>, which waits for the same lock. If the mutex was free the goroutine
  keeps the write lock, so that from then on every accessor of that state waits for ever.
\<close>

theorem start_view_change_deadlocks:
  "snd (start_view_change o1 o2 ve) = Blocked \<and>
   (mu (ve_state ve) = Unlocked \<longrightarrow>
     (let s' = ve_state (fst (start_view_change o1 o2 ve)) in
      get_view s' = Blocked \<and> get_node_id s' = Blocked \<and> get_validators ord s' = Blocked
      \<and> set_view v s' = Blocked \<and> set_leader l s' = Blocked))"
proof (cases "mu (ve_state ve)")
  case Unlocked
  then show ?thesis
    by (simp add: start_view_change_def view_change_body_def get_view_def get_node_id_def
        get_validators_def set_view_def set_leader_def Let_def)
qed (simp_all add: start_view_change_def)

section \<open>Witnesses\<close>

definition demo_state :: cons_state where
  "demo_state = new_state ''b'' [(''c'', True), (''a'', True), (''b'', True)]"

definition demo_state' :: cons_state where
  "demo_state' = new_state ''c'' [(''a'', True), (''b'', True), (''c'', True)]"

lemma demo_state_ok:
  "mu demo_state = Unlocked" "wf_map (validators demo_state)"
  "mu demo_state' = Unlocked" "wf_map (validators demo_state')"
  "set (keys (validators demo_state)) = set (keys (validators demo_state'))"
  "validators demo_state \<noteq> []" "length (validators demo_state) = 3"
  by (auto simp: demo_state_def demo_state'_def new_state_def wf_map_def keys_def)

lemma demo_election:
  "new_leader_election rev rev rev demo_state 2 =
     Ok \<lparr>le_state = demo_state, le_threshold = 2, le_validators = [''a'', ''b'', ''c'']\<rparr>"
  by code_simp

theorem leader_agreement_witness:
  "bind_outcome (new_leader_election rev rev rev demo_state 2) (\<lambda>le. get_leader_for_view le 4)
   = bind_outcome (new_leader_election (\<lambda>x. x) rev rev demo_state' 0)
       (\<lambda>le. get_leader_for_view le 4)"
  using leader_agreement [OF demo_state_ok(1-5) is_order_rev is_order_rev is_order_rev
      is_order_id is_order_rev is_order_rev, of 2 4 0 "\<lambda>b. b"] by blast

lemma leader_rotation_witness:
  "\<exists>!i. i < length (validators demo_state)
     \<and> get_leader_for_view
         \<lparr>le_state = demo_state, le_threshold = 2, le_validators = [''a'', ''b'', ''c'']\<rparr>
         (7 + of_nat i) = Ok ''b''"
proof -
  have "''b'' \<in> set (keys (validators demo_state))"
    by (simp add: demo_state_def new_state_def keys_def)
  moreover have "unat (7 :: u64) + length (validators demo_state) \<le> 2 ^ 63"
    by (simp add: demo_state_ok)
  ultimately show ?thesis
    by (rule leader_rotation [OF demo_state_ok(1,2) is_order_rev is_order_rev is_order_rev
          demo_election])
qed

lemma leader_for_huge_view_panics_witness:
  "get_leader_for_view
     \<lparr>le_state = demo_state, le_threshold = 2, le_validators = [''a'', ''b'', ''c'']\<rparr> (- 1)
   = Panic IndexOutOfRange"
  using leader_for_huge_view_panics [of
      "\<lparr>le_state = demo_state, le_threshold = 2, le_validators = [''a'', ''b'', ''c'']\<rparr>" "- 1"]
  by (simp add: unsigned_minus_1_eq_mask mask_eq_exp_minus_1)

theorem elect_leader_total_witness:
  "\<exists>l. elect_leader (\<lambda>b. b @ replicate 24 0)
     \<lparr>le_state = demo_state, le_threshold = 2, le_validators = [''a'', ''b'', ''c'']\<rparr> 5 = Ok l
   \<and> l \<in> {''a'', ''b'', ''c''}"
  using elect_leader_total [of
      "\<lparr>le_state = demo_state, le_threshold = 2, le_validators = [''a'', ''b'', ''c'']\<rparr>"
      "\<lambda>b. b @ replicate 24 0" 5]
  by (simp add: be_put_u64_def)

lemma single_leader_witness:
  "\<exists>l. l \<in> {''c'', ''a'', ''b''}
    \<and> (\<forall>n. bind_outcome (new_leader_election rev rev rev (demo_state\<lparr>node_id := n\<rparr>) 2)
             (\<lambda>le. is_leader le 4) = Ok (n = l))"
proof -
  have "unat (4 :: u64) < 2 ^ 63" by simp
  from single_leader [OF demo_state_ok(1,2) is_order_rev is_order_rev is_order_rev
      demo_state_ok(6) this, of 2]
  show ?thesis by (auto simp: demo_state_def new_state_def keys_def)
qed

theorem start_view_change_deadlocks_witness:
  "get_view (ve_state (fst (start_view_change rev rev
     \<lparr>ve_state = demo_state, ve_validators = [''a'', ''b'', ''c'']\<rparr>))) = Blocked"
  using start_view_change_deadlocks [of rev rev
      "\<lparr>ve_state = demo_state, ve_validators = [''a'', ''b'', ''c'']\<rparr>" rev 0 "[]"]
  by (simp add: demo_state_ok Let_def)

end
