(* ===== verification/Quorums.thy ===== *)
theory Quorums
  imports Prelude
begin

text \<open>
  The arithmetic of quorums, as the contract of a quorum rule: \<open>quorum n\<close> votes out of \<open>n\<close>
  voters, of whom \<open>faults n\<close> may be faulty. The view change (\<open>view.go\<close>) and the batch
  consensus (\<open>pbft.go\<close>) provide the two rules of the program.
\<close>

locale quorum_system =
  fixes quorum :: "nat \<Rightarrow> nat"
    and faults :: "nat \<Rightarrow> nat"
  assumes overlap: "0 < n \<Longrightarrow> n + faults n < 2 * quorum n"
    and available: "0 < n \<Longrightarrow> quorum n + faults n \<le> n"
begin

lemma quorum_pos: "0 < n \<Longrightarrow> 0 < quorum n"
  using overlap [of n] by linarith

text \<open>Two quorums of the same voters have more than \<open>faults\<close> voters in common.\<close>

lemma quorums_intersect:
  assumes "finite V" and "V \<noteq> {}" and "A \<subseteq> V" and "B \<subseteq> V"
    and "quorum (card V) \<le> card A" and "quorum (card V) \<le> card B"
  shows "faults (card V) < card (A \<inter> B)"
proof -
  have fin: "finite A" "finite B" using assms(1,3,4) finite_subset by auto
  have "card A + card B = card (A \<union> B) + card (A \<inter> B)" using fin by (rule card_Un_Int)
  moreover have "card (A \<union> B) \<le> card V" using assms by (intro card_mono) auto
  moreover have "card V + faults (card V) < 2 * quorum (card V)"
    using assms(1,2) by (intro overlap) (simp add: card_gt_0_iff)
  ultimately show ?thesis using assms(5,6) by linarith
qed

lemma common_honest_voter:
  assumes "finite V" and "V \<noteq> {}" and "A \<subseteq> V" and "B \<subseteq> V"
    and "quorum (card V) \<le> card A" and "quorum (card V) \<le> card B"
    and "finite F" and "card F \<le> faults (card V)"
  shows "\<exists>x. x \<in> A \<and> x \<in> B \<and> x \<notin> F"
proof (rule ccontr)
  assume "\<not> ?thesis"
  then have "A \<inter> B \<subseteq> F" by blast
  then have "card (A \<inter> B) \<le> card F" by (intro card_mono assms(7))
  with quorums_intersect [OF assms(1-6)] assms(8) show False by linarith
qed

text \<open>The voters that are not faulty make a quorum.\<close>

lemma correct_voters_suffice:
  assumes "finite V" and "V \<noteq> {}" and "F \<subseteq> V" and "card F \<le> faults (card V)"
  shows "quorum (card V) \<le> card (V - F)"
proof -
  have "card (V - F) = card V - card F"
    using assms(1,3) by (intro card_Diff_subset) (auto intro: finite_subset)
  moreover have "quorum (card V) + faults (card V) \<le> card V"
    using assms(1,2) by (intro available) (simp add: card_gt_0_iff)
  ultimately show ?thesis using assms(4) by linarith
qed

end

end
