(* ===== verification/ViewChange.thy ===== *)
theory ViewChange
  imports ConsState Quorums
begin

text \<open>
  \<open>core/consensus/view.go\<close>: the view-change log. Each call is one step of a state machine
  (\<open>vc_step\<close>); its reachable states carry the invariant \<open>vc_inv\<close>. The clock reading and the
  answer of the network to a broadcast are inputs of the step.
\<close>

section \<open>Model\<close>

text \<open>\<open>ConsensusState\<close> of \<open>pbft.go\<close>, the plain copy of the state without a mutex.\<close>

record consensus_state =
  cs_node_id :: string
  cs_view :: u64
  cs_validators :: "(string, bool) gomap"
  cs_leader :: string
  cs_last_digest :: bytes
  cs_last_time :: gotime

record view_change =
  vc_state :: consensus_state
  vc_view_id :: u64
  vc_messages :: "(u64, consensus_message list) gomap"

definition new_view_change :: "consensus_state \<Rightarrow> view_change" where
  "new_view_change s = \<lparr>vc_state = s, vc_view_id = 0, vc_messages = []\<rparr>"

text \<open>\<open>m[v]\<close> is nil for a missing key.\<close>

definition msgs_at :: "(u64, consensus_message list) gomap \<Rightarrow> u64 \<Rightarrow> consensus_message list" where
  "msgs_at m v = (case map_of m v of None \<Rightarrow> [] | Some xs \<Rightarrow> xs)"

definition add_msg :: "u64 \<Rightarrow> consensus_message \<Rightarrow> view_change \<Rightarrow> view_change" where
  "add_msg v msg vc =
     vc\<lparr>vc_messages := map_put v (msgs_at (vc_messages vc) v @ [msg]) (vc_messages vc)\<rparr>"

definition view_change_message :: "string \<Rightarrow> u64 \<Rightarrow> gotime \<Rightarrow> consensus_message" where
  "view_change_message node v now =
     \<lparr>cm_type = ''viewchange'', cm_view = v, cm_from = node, cm_to = [],
      cm_timestamp = Some \<lparr>st_time = now, st_server = node, st_region = [], st_sig = []\<rparr>,
      cm_data = [], cm_signature = []\<rparr>"

text \<open>
  \<open>net p d\<close> is the network's answer to broadcasting \<open>d\<close> under protocol \<open>p\<close>; the last
  component of the result lists what was handed to the network.
\<close>

definition vc_start ::
  "msg_codec \<Rightarrow> (string \<Rightarrow> bytes \<Rightarrow> unit outcome) \<Rightarrow> gotime \<Rightarrow> view_change
   \<Rightarrow> view_change \<times> unit outcome \<times> (string \<times> bytes) list" where
  "vc_start j net now vc =
     (let v = vc_view_id vc + 1;
          msg = view_change_message (cs_node_id (vc_state vc)) v now;
          vc' = add_msg v msg (vc\<lparr>vc_view_id := v\<rparr>)
      in case marshal_msg j msg of
           Err e \<Rightarrow> (vc', Err (Errorf ''failed to encode view change message: %w'' [FErr e]), [])
         | Panic p \<Rightarrow> (vc', Panic p, [])
         | Blocked \<Rightarrow> (vc', Blocked, [])
         | Ok data \<Rightarrow>
             (vc',
              (case net consensus_protocol_id data of
                 Err e \<Rightarrow> Err (Errorf ''failed to broadcast view change message: %w'' [FErr e])
               | r \<Rightarrow> r),
              [(consensus_protocol_id, data)]))"

definition majority :: "nat \<Rightarrow> nat" where
  "majority n = n div 2 + 1"

definition vc_quorum :: "view_change \<Rightarrow> nat" where
  "vc_quorum vc = majority (length (cs_validators (vc_state vc)))"

interpretation vq: quorum_system majority "\<lambda>n. 0"
  by unfold_locales (auto simp: majority_def)

definition vc_receive :: "consensus_message \<Rightarrow> view_change \<Rightarrow> view_change" where
  "vc_receive msg vc =
     (let vc' = add_msg (cm_view msg) msg vc
      in if vc_quorum vc' \<le> length (msgs_at (vc_messages vc') (cm_view msg))
         then vc'\<lparr>vc_view_id := cm_view msg\<rparr> else vc')"

definition vc_process :: "msg_codec \<Rightarrow> bytes \<Rightarrow> view_change \<Rightarrow> view_change \<times> unit outcome" where
  "vc_process j data vc =
     (case unmarshal_msg j data of
        Err e \<Rightarrow> (vc, Err (Errorf ''failed to unmarshal view change message: %w'' [FErr e]))
      | Panic p \<Rightarrow> (vc, Panic p)
      | Blocked \<Rightarrow> (vc, Blocked)
      | Ok msg \<Rightarrow> (vc_receive msg vc, Ok ()))"

definition vc_get_current_view :: "view_change \<Rightarrow> u64" where
  "vc_get_current_view vc = vc_view_id vc"

section \<open>The machine\<close>

inductive vc_step :: "view_change \<Rightarrow> view_change \<Rightarrow> bool" where
  start: "vc_start j net now vc = (vc', r, out) \<Longrightarrow> vc_step vc vc'"
| process: "vc_process j data vc = (vc', r) \<Longrightarrow> vc_step vc vc'"

inductive vc_reachable :: "consensus_state \<Rightarrow> view_change \<Rightarrow> bool" for s where
  init: "vc_reachable s (new_view_change s)"
| step: "vc_reachable s vc \<Longrightarrow> vc_step vc vc' \<Longrightarrow> vc_reachable s vc'"

text \<open>What a step does to the state: it starts the next view, adopts nothing, or logs a message.\<close>

lemma vc_start_state:
  "vc_start j net now vc = (vc', r, out) \<Longrightarrow>
   vc' = add_msg (vc_view_id vc + 1)
           (view_change_message (cs_node_id (vc_state vc)) (vc_view_id vc + 1) now)
           (vc\<lparr>vc_view_id := vc_view_id vc + 1\<rparr>)"
  by (auto simp: vc_start_def Let_def split: outcome.splits)

lemma vc_process_state:
  "vc_process j data vc = (vc', r) \<Longrightarrow>
   vc' = vc \<or> (\<exists>msg. unmarshal_msg j data = Ok msg \<and> r = Ok () \<and> vc' = vc_receive msg vc)"
  by (auto simp: vc_process_def split: outcome.splits)

lemma vc_step_cases [consumes 1, case_names start receive same]:
  assumes "vc_step vc vc'"
  obtains now where "vc' = add_msg (vc_view_id vc + 1)
      (view_change_message (cs_node_id (vc_state vc)) (vc_view_id vc + 1) now)
      (vc\<lparr>vc_view_id := vc_view_id vc + 1\<rparr>)"
  | msg where "vc' = vc_receive msg vc"
  | "vc' = vc"
  using assms by cases (auto dest: vc_start_state vc_process_state)

lemma msgs_at_put [simp]:
  "msgs_at (map_put v xs m) w = (if w = v then xs else msgs_at m w)"
  by (simp add: msgs_at_def)

lemma add_msg_fields [simp]:
  "vc_state (add_msg v msg vc) = vc_state vc"
  "vc_view_id (add_msg v msg vc) = vc_view_id vc"
  "vc_messages (add_msg v msg vc) =
     map_put v (msgs_at (vc_messages vc) v @ [msg]) (vc_messages vc)"
  "vc_quorum (add_msg v msg vc) = vc_quorum vc"
  by (simp_all add: add_msg_def vc_quorum_def majority_def)

lemma vc_receive_fields [simp]:
  "vc_state (vc_receive msg vc) = vc_state vc"
  "vc_messages (vc_receive msg vc) =
     map_put (cm_view msg) (msgs_at (vc_messages vc) (cm_view msg) @ [msg]) (vc_messages vc)"
  "vc_quorum (vc_receive msg vc) = vc_quorum vc"
  "vc_view_id (vc_receive msg vc) =
     (if vc_quorum vc \<le> Suc (length (msgs_at (vc_messages vc) (cm_view msg)))
      then cm_view msg else vc_view_id vc)"
  by (simp_all add: vc_receive_def vc_quorum_def Let_def add_msg_def)

section \<open>The invariant\<close>

text \<open>
  Messages are filed under their own view; the map is well formed; and the current view is the
  initial one or one for which the log holds a message of this node or a quorum of messages.
\<close>

definition view_justified :: "view_change \<Rightarrow> bool" where
  "view_justified vc \<longleftrightarrow>
     vc_view_id vc = 0
     \<or> (\<exists>msg \<in> set (msgs_at (vc_messages vc) (vc_view_id vc)).
          cm_from msg = cs_node_id (vc_state vc) \<and> cm_type msg = ''viewchange'')
     \<or> vc_quorum vc \<le> length (msgs_at (vc_messages vc) (vc_view_id vc))"

definition vc_inv :: "view_change \<Rightarrow> bool" where
  "vc_inv vc \<longleftrightarrow>
     wf_map (vc_messages vc)
     \<and> (\<forall>v. \<forall>msg \<in> set (msgs_at (vc_messages vc) v). cm_view msg = v)
     \<and> view_justified vc"

lemma vc_inv_init: "vc_inv (new_view_change s)"
  by (simp add: vc_inv_def new_view_change_def view_justified_def msgs_at_def)

lemma vc_step_inv: "vc_step vc vc' \<Longrightarrow> vc_inv vc \<Longrightarrow> vc_inv vc'"
proof (induction rule: vc_step_cases)
  case (start now)
  then show ?case
    by (auto simp: vc_inv_def view_justified_def view_change_message_def vc_quorum_def majority_def)
next
  case (receive msg)
  then show ?case
    by (auto simp: vc_inv_def view_justified_def)
next
  case same
  then show ?case by simp
qed

lemma vc_reachable_inv: "vc_reachable s vc \<Longrightarrow> vc_inv vc \<and> vc_state vc = s"
proof (induction rule: vc_reachable.induct)
  case init
  show ?case by (simp add: vc_inv_init) (simp add: new_view_change_def)
next
  case (step vc vc')
  from step.hyps(2) have "vc_state vc' = vc_state vc"
    by (cases rule: vc_step_cases) auto
  with step show ?case by (auto intro: vc_step_inv)
qed

section \<open>Properties\<close>

text \<open>
  C9. In every state a node can reach by starting view changes and processing any bytes, the
  view it is in is view 0, or one it announced itself, or one for which it has logged a
  majority (\<open>validators/2 + 1\<close>) of messages; and every logged message is for the view it is
  filed under.
\<close>

theorem view_change_safe:
  assumes "vc_reachable s vc"
  shows "(vc_get_current_view vc = 0
     \<or> (\<exists>msg \<in> set (msgs_at (vc_messages vc) (vc_get_current_view vc)).
          cm_from msg = cs_node_id s \<and> cm_type msg = ''viewchange'')
     \<or> length (cs_validators s) div 2 + 1
         \<le> length (msgs_at (vc_messages vc) (vc_get_current_view vc)))
    \<and> (\<forall>v. list_all (\<lambda>msg. cm_view msg = v) (msgs_at (vc_messages vc) v))"
  using vc_reachable_inv [OF assms]
  by (auto simp: vc_inv_def view_justified_def vc_quorum_def majority_def vc_get_current_view_def list_all_iff)

text \<open>The same message processed \<open>n\<close> times in a row.\<close>

fun vc_replay :: "nat \<Rightarrow> consensus_message \<Rightarrow> view_change \<Rightarrow> view_change" where
  "vc_replay 0 msg vc = vc"
| "vc_replay (Suc n) msg vc = vc_replay n msg (vc_receive msg vc)"

lemma vc_replay_log:
  "length (msgs_at (vc_messages (vc_replay n msg vc)) (cm_view msg))
     = length (msgs_at (vc_messages vc) (cm_view msg)) + n
   \<and> vc_quorum (vc_replay n msg vc) = vc_quorum vc"
  by (induction n arbitrary: vc) auto

lemma vc_replay_snoc: "vc_replay (Suc n) msg vc = vc_receive msg (vc_replay n msg vc)"
  by (induction n arbitrary: vc) auto

text \<open>
  C40. The majority counts messages, not senders: one and the same message, from anyone and for
  any view, processed as often as the quorum is large, moves the node to the message's view
  (forwards or backwards), whatever the node's state was.
\<close>

theorem single_sender_forces_view:
  assumes "length (cs_validators (vc_state vc)) div 2 < n"
  shows "vc_get_current_view (vc_replay n msg vc) = cm_view msg"
proof -
  obtain k where k: "n = Suc k" using assms by (cases n) auto
  have "vc_quorum vc \<le> Suc (length (msgs_at (vc_messages (vc_replay k msg vc)) (cm_view msg)))"
    using assms by (simp add: vc_replay_log k vc_quorum_def majority_def)
  then show ?thesis
    by (simp only: k vc_replay_snoc vc_get_current_view_def) (simp add: vc_replay_log)
qed

text \<open>
  A processed message moves the node only to the message's own view, only when the bytes
  parse, and only when the message completes a majority of messages logged for that view.
\<close>

lemma process_below_quorum:
  assumes "snd (vc_process j data vc) = Ok ()"
    and "vc_get_current_view (fst (vc_process j data vc)) \<noteq> vc_get_current_view vc"
  shows "\<exists>msg. unmarshal_msg j data = Ok msg
     \<and> vc_get_current_view (fst (vc_process j data vc)) = cm_view msg
     \<and> length (cs_validators (vc_state vc)) div 2 + 1
         \<le> length (msgs_at (vc_messages vc) (cm_view msg)) + 1"
  using assms
  by (auto simp: vc_process_def vc_get_current_view_def vc_quorum_def majority_def split: outcome.splits if_splits)

section \<open>Witnesses\<close>

definition demo_cs :: consensus_state where
  "demo_cs =
     \<lparr>cs_node_id = ''a'', cs_view = 0,
      cs_validators = [(''a'', True), (''b'', True), (''c'', True)], cs_leader = ''a'',
      cs_last_digest = [], cs_last_time = zero_time\<rparr>"

definition demo_view_msg :: consensus_message where
  "demo_view_msg = view_change_message ''b'' 9 (Instant 0)"

definition demo_codec :: msg_codec where
  "demo_codec = \<lparr>marshal_msg = (\<lambda>m. Ok []), unmarshal_msg = (\<lambda>d. Ok demo_view_msg),
     marshal_batch = (\<lambda>b. Ok [])\<rparr>"

lemma demo_received: "vc_reachable demo_cs (vc_receive demo_view_msg (new_view_change demo_cs))"
  by (rule vc_reachable.step [OF vc_reachable.init vc_step.process
        [where j = demo_codec and data = "[]" and r = "Ok ()"]])
    (simp add: vc_process_def demo_codec_def)

theorem view_change_safe_witness:
  "list_all (\<lambda>msg. cm_view msg = 9)
     (msgs_at (vc_messages (vc_receive demo_view_msg (new_view_change demo_cs))) 9)"
  using view_change_safe [OF demo_received] by blast

theorem single_sender_forces_view_witness:
  "vc_get_current_view (vc_replay 2 demo_view_msg (new_view_change demo_cs)) = 9"
  using single_sender_forces_view [of "new_view_change demo_cs" 2 demo_view_msg]
  by (simp add: new_view_change_def demo_cs_def demo_view_msg_def view_change_message_def)

theorem process_below_quorum_witness:
  "\<exists>msg. unmarshal_msg demo_codec [] = Ok msg
     \<and> length (cs_validators (vc_state (vc_receive demo_view_msg (new_view_change demo_cs)))) div 2 + 1
         \<le> length (msgs_at (vc_messages (vc_receive demo_view_msg (new_view_change demo_cs)))
              (cm_view msg)) + 1"
proof -
  let ?vc = "vc_receive demo_view_msg (new_view_change demo_cs)"
  have "snd (vc_process demo_codec [] ?vc) = Ok ()"
    by (simp add: vc_process_def demo_codec_def)
  moreover have "vc_get_current_view (fst (vc_process demo_codec [] ?vc))
      \<noteq> vc_get_current_view ?vc"
    by code_simp
  ultimately show ?thesis using process_below_quorum [of demo_codec "[]" ?vc] by blast
qed

end
