(* ===== verification/Threshold.thy ===== *)
theory Threshold
  imports Types
begin

text \<open>
  \<open>core/consensus/threshold.go\<close>: the aggregation of validator signatures. \<open>aggregate\<close> is
  the code's loop; \<open>agg_spec\<close> says what it computes. The loops over the maps take their
  iteration orders \<open>o1\<close> and \<open>o2\<close> as arguments.
\<close>

section \<open>Model\<close>

record threshold_sig =
  th_private :: bytes
  th_public :: "(string, bytes) gomap"
  th_threshold :: int

definition new_threshold_signature ::
  "bytes \<Rightarrow> (string, bytes) gomap \<Rightarrow> int \<Rightarrow> threshold_sig" where
  "new_threshold_signature sk pks t = \<lparr>th_private = sk, th_public = pks, th_threshold = t\<rparr>"

definition bytes_of :: "string \<Rightarrow> bytes" where
  "bytes_of s = map of_char s"

definition th_sign :: "ed25519 \<Rightarrow> threshold_sig \<Rightarrow> bytes \<Rightarrow> bytes outcome" where
  "th_sign c ts data = ed25519_sign c (th_private ts) data"

definition th_verify :: "ed25519 \<Rightarrow> threshold_sig \<Rightarrow> string \<Rightarrow> bytes \<Rightarrow> bytes \<Rightarrow> bool outcome" where
  "th_verify c ts node data sig =
     (case map_of (th_public ts) node of
        Some pk \<Rightarrow> ed25519_verify c pk data sig
      | None \<Rightarrow> Ok False)"

text \<open>The validation loop of \<open>Aggregate\<close>, with the map \<open>validSigs\<close> as accumulator.\<close>

fun collect_valid ::
  "ed25519 \<Rightarrow> threshold_sig \<Rightarrow> (string \<times> bytes) list \<Rightarrow> (string, bytes) gomap
   \<Rightarrow> (string, bytes) gomap outcome" where
  "collect_valid c ts [] acc = Ok acc"
| "collect_valid c ts ((node, sig) # rest) acc =
     bind_outcome (th_verify c ts node (bytes_of ''timestamp'') sig)
       (\<lambda>b. collect_valid c ts rest (if b then map_put node sig acc else acc))"

text \<open>\<open>m[id]\<close> is nil where the key is missing.\<close>

definition sig_at :: "(string, bytes) gomap \<Rightarrow> string \<Rightarrow> bytes" where
  "sig_at m k = (case map_of m k of Some s \<Rightarrow> s | None \<Rightarrow> [])"

definition aggregate ::
  "ed25519 \<Rightarrow> threshold_sig \<Rightarrow> (string list \<Rightarrow> string list) \<Rightarrow> (string list \<Rightarrow> string list)
   \<Rightarrow> (string, bytes) gomap \<Rightarrow> bytes outcome" where
  "aggregate c ts o1 o2 signatures =
     (if int (length signatures) < th_threshold ts
      then Err (Errorf ''not enough signatures: got %d, need %d''
             [FInt (int (length signatures)), FInt (th_threshold ts)])
      else bind_outcome (collect_valid c ts (go_range o1 signatures) [])
        (\<lambda>valid_sigs.
          if int (length valid_sigs) < th_threshold ts
          then Err (Errorf ''not enough valid signatures: got %d, need %d''
                 [FInt (int (length valid_sigs)), FInt (th_threshold ts)])
          else let sorted_ids = sort (map fst (go_range o2 valid_sigs))
               in if th_threshold ts < 0 then Panic SliceOutOfRange
                  else Ok (concat (map (sig_at valid_sigs)
                         (take (nat (th_threshold ts)) sorted_ids)))))"

text \<open>The product of two \<open>int\<close>s wraps around; \<open>data\<close> is not read.\<close>

definition verify_aggregated :: "threshold_sig \<Rightarrow> bytes \<Rightarrow> bytes \<Rightarrow> bool" where
  "verify_aggregated ts data aggregated_sig \<longleftrightarrow>
     wrap64 (th_threshold ts * int signature_size) \<le> int (length aggregated_sig)"

section \<open>What aggregation computes\<close>

definition keys_ok :: "threshold_sig \<Rightarrow> bool" where
  "keys_ok ts \<longleftrightarrow> (\<forall>e \<in> set (th_public ts). length (snd e) = public_key_size)"

definition valid_vote :: "ed25519 \<Rightarrow> threshold_sig \<Rightarrow> string \<times> bytes \<Rightarrow> bool" where
  "valid_vote c ts e \<longleftrightarrow> th_verify c ts (fst e) (bytes_of ''timestamp'') (snd e) = Ok True"

definition valid_ids :: "ed25519 \<Rightarrow> threshold_sig \<Rightarrow> (string, bytes) gomap \<Rightarrow> string list" where
  "valid_ids c ts signatures = sort (map fst (filter (valid_vote c ts) signatures))"

definition agg_spec :: "ed25519 \<Rightarrow> threshold_sig \<Rightarrow> (string, bytes) gomap \<Rightarrow> bytes" where
  "agg_spec c ts signatures =
     concat (map (sig_at signatures) (take (nat (th_threshold ts)) (valid_ids c ts signatures)))"

lemma th_verify_total:
  assumes "keys_ok ts"
  shows "\<exists>b. th_verify c ts node data sig = Ok b"
proof (cases "map_of (th_public ts) node")
  case (Some pk)
  then have "(node, pk) \<in> set (th_public ts)" by (rule map_of_SomeD)
  with assms have "length pk = public_key_size" by (auto simp: keys_ok_def)
  with Some show ?thesis by (simp add: th_verify_def ed25519_verify_def)
next
  case None
  then show ?thesis by (auto simp: th_verify_def)
qed

lemma valid_vote_pair:
  "valid_vote c ts (node, sig) \<longleftrightarrow> th_verify c ts node (bytes_of ''timestamp'') sig = Ok True"
  by (simp add: valid_vote_def)

lemma th_verify_length: "th_verify c ts node data sig = Ok True \<Longrightarrow> length sig = signature_size"
  by (auto simp: th_verify_def ed25519_verify_def split: option.splits if_splits)

lemma th_verify_known: "th_verify c ts node data sig = Ok True \<Longrightarrow> has_key (th_public ts) node"
  by (auto simp: th_verify_def has_key_iff split: option.splits)

lemma collect_valid_filter:
  assumes "keys_ok ts" and "distinct (map fst (acc @ es))"
  shows "collect_valid c ts es acc = Ok (acc @ filter (valid_vote c ts) es)"
  using assms(2)
proof (induction es arbitrary: acc)
  case Nil
  then show ?case by simp
next
  case (Cons e es)
  obtain node sig where e: "e = (node, sig)" by (cases e)
  obtain b where b: "th_verify c ts node (bytes_of ''timestamp'') sig = Ok b"
    using th_verify_total [OF assms(1)] by blast
  have new: "map_put node sig acc = acc @ [(node, sig)]"
    using Cons.prems by (intro map_put_new) (auto simp: e has_key_def keys_def)
  have "collect_valid c ts es (if b then acc @ [e] else acc)
      = Ok ((if b then acc @ [e] else acc) @ filter (valid_vote c ts) es)"
    using Cons.prems by (intro Cons.IH) auto
  then show ?case
    using b new by (cases b) (auto simp: e valid_vote_pair)
qed

lemma sig_at_filter:
  assumes "wf_map m" and "k \<in> set (map fst (filter P m))"
  shows "sig_at (filter P m) k = sig_at m k"
proof -
  obtain v where v: "(k, v) \<in> set m" "P (k, v)" using assms(2) by auto
  have "wf_map (filter P m)"
    using assms(1) by (simp add: wf_map_def keys_def distinct_map_filter)
  with v assms(1) have "map_of (filter P m) k = Some v" and "map_of m k = Some v"
    by (simp_all add: wf_map_of_iff)
  then show ?thesis by (simp add: sig_at_def)
qed

lemma sig_at_perm:
  assumes "wf_map m" and "mset m' = mset m"
  shows "sig_at m' = sig_at m"
proof -
  have "set m' = set m" and "wf_map m'"
    using assms by (auto simp: wf_map_def keys_def dest: mset_eq_setD)
      (metis mset_eq_imp_distinct_iff mset_map)
  then have "map_of m' = map_of m"
    using assms(1) by (metis map_of_eqI map_of_inject_set wf_map_def keys_def set_map)
  then show ?thesis by (simp add: sig_at_def fun_eq_iff)
qed

lemma length_valid_ids: "length (valid_ids c ts m) = length (filter (valid_vote c ts) m)"
  by (simp add: valid_ids_def)

text \<open>
  The loop in closed form: independent of both iteration orders, never a panic, an error
  exactly when fewer than the threshold of signatures (or of valid signatures) are there.
\<close>

lemma aggregate_eq:
  assumes "keys_ok ts" and "wf_map m" and "is_order o1" and "is_order o2"
    and "0 \<le> th_threshold ts"
  shows "aggregate c ts o1 o2 m =
    (if int (length m) < th_threshold ts
     then Err (Errorf ''not enough signatures: got %d, need %d''
            [FInt (int (length m)), FInt (th_threshold ts)])
     else if int (length (valid_ids c ts m)) < th_threshold ts
     then Err (Errorf ''not enough valid signatures: got %d, need %d''
            [FInt (int (length (valid_ids c ts m))), FInt (th_threshold ts)])
     else Ok (agg_spec c ts m))"
proof -
  let ?es = "go_range o1 m" and ?P = "valid_vote c ts"
  let ?V = "filter ?P ?es"
  have perm: "mset ?es = mset m" using assms by (simp add: mset_go_range)
  have wf: "wf_map ?es" using distinct_go_range [OF assms(3,2)] by (simp add: wf_map_def keys_def)
  have V: "collect_valid c ts ?es [] = Ok ?V"
    using collect_valid_filter [OF assms(1), of "[]" ?es c] wf by (simp add: wf_map_def keys_def)
  have permV: "mset ?V = mset (filter ?P m)" using perm by simp
  have len: "length ?V = length (valid_ids c ts m)"
    using permV by (simp add: length_valid_ids mset_eq_length)
  have ids: "sort (map fst (go_range o2 ?V)) = valid_ids c ts m"
  proof -
    have "sort (map fst (go_range o2 ?V)) = sort (map fst ?V)"
      using assms(4) by (simp add: map_fst_go_range sort_order keys_def)
    also have "\<dots> = sort (map fst (filter ?P m))"
      by (rule sort_mset_cong) (metis mset_map permV)
    finally show ?thesis by (simp add: valid_ids_def)
  qed
  have at: "sig_at ?V k = sig_at m k" if "k \<in> set (valid_ids c ts m)" for k
  proof -
    have "k \<in> set (map fst ?V)"
      using that mset_eq_setD [OF permV] by (simp only: valid_ids_def set_sort set_map)
    then show ?thesis
      using sig_at_filter [OF wf] sig_at_perm [OF assms(2) perm] by simp
  qed
  have eqs: "map (sig_at ?V) (take n (valid_ids c ts m)) = map (sig_at m) (take n (valid_ids c ts m))" for n
    by (rule map_cong [OF refl]) (meson at in_set_takeD)
  show ?thesis
    using assms(5) by (simp add: aggregate_def V len ids agg_spec_def Let_def eqs)
qed

lemma valid_ids_valid:
  assumes "k \<in> set (valid_ids c ts m)" and "wf_map m"
  shows "\<exists>sig. map_of m k = Some sig \<and> th_verify c ts k (bytes_of ''timestamp'') sig = Ok True"
  using assms by (auto simp: valid_ids_def valid_vote_pair wf_map_of_iff)

lemma distinct_valid_ids: "wf_map m \<Longrightarrow> distinct (valid_ids c ts m)"
  by (simp add: valid_ids_def wf_map_def keys_def distinct_map_filter)

lemma length_concat_sig_at:
  assumes "wf_map m" and "set ids \<subseteq> set (valid_ids c ts m)"
  shows "length (concat (map (sig_at m) ids)) = length ids * signature_size"
  using assms(2)
proof (induction ids)
  case (Cons k ids)
  then obtain sig where "map_of m k = Some sig"
    "th_verify c ts k (bytes_of ''timestamp'') sig = Ok True"
    using valid_ids_valid [OF _ assms(1), of k c ts] by auto
  then have "length (sig_at m k) = signature_size"
    by (simp add: sig_at_def th_verify_length)
  then show ?case using Cons by simp
qed simp

lemma length_agg_spec:
  assumes "wf_map m" and "th_threshold ts \<le> int (length (valid_ids c ts m))"
  shows "length (agg_spec c ts m) = nat (th_threshold ts) * signature_size"
proof -
  let ?ids = "take (nat (th_threshold ts)) (valid_ids c ts m)"
  have "length ?ids = nat (th_threshold ts)" using assms(2) by simp
  then show ?thesis
    using length_concat_sig_at [OF assms(1) set_take_subset] by (simp only: agg_spec_def)
qed

lemma aggregate_OkD:
  assumes "keys_ok ts" and "wf_map m" and "is_order o1" and "is_order o2"
    and "0 \<le> th_threshold ts" and "aggregate c ts o1 o2 m = Ok agg"
  shows "agg = agg_spec c ts m" and "th_threshold ts \<le> int (length (valid_ids c ts m))"
    and "th_threshold ts \<le> int (length m)"
  using assms(6) by (simp_all add: aggregate_eq [OF assms(1-5)] split: if_splits)

section \<open>Properties\<close>

text \<open>
  C4. \<open>Aggregate\<close> is deterministic and correct: with public keys of the right size it
  computes, whatever order the two maps are visited in, the concatenation of the signatures of
  the first \<open>threshold\<close> validators (in the order of their ids) among those whose signature
  verifies, and it fails exactly when there are fewer than \<open>threshold\<close> of them.
\<close>

theorem aggregate_correct:
  assumes "keys_ok ts" and "wf_map m" and "is_order o1" and "is_order o2"
    and "0 \<le> th_threshold ts"
  shows "aggregate c ts o1 o2 m =
    (if th_threshold ts \<le> int (length (valid_ids c ts m)) then Ok (agg_spec c ts m)
     else Err (if int (length m) < th_threshold ts
               then Errorf ''not enough signatures: got %d, need %d''
                 [FInt (int (length m)), FInt (th_threshold ts)]
               else Errorf ''not enough valid signatures: got %d, need %d''
                 [FInt (int (length (valid_ids c ts m))), FInt (th_threshold ts)]))"
proof -
  have "length (valid_ids c ts m) \<le> length m" by (simp add: length_valid_ids)
  then show ?thesis by (simp add: aggregate_eq [OF assms])
qed

text \<open>
  A successful aggregation rests on at least \<open>threshold\<close> different validators, each known
  by its public key and each with a signature of the message that verifies; the result has
  exactly \<open>threshold\<close> signatures' length and \<open>VerifyAggregated\<close> accepts it.
\<close>

lemma aggregate_sound:
  assumes "keys_ok ts" and "wf_map m" and "is_order o1" and "is_order o2"
    and "0 \<le> th_threshold ts" and "th_threshold ts \<le> 1000000"
    and "aggregate c ts o1 o2 m = Ok agg"
  shows "(\<exists>ids. distinct ids \<and> int (length ids) = th_threshold ts
      \<and> list_all (\<lambda>k. has_key (th_public ts) k \<and> (case map_of m k of None \<Rightarrow> False
            | Some s \<Rightarrow> th_verify c ts k (bytes_of ''timestamp'') s = Ok True)) ids)
    \<and> int (length agg) = 64 * th_threshold ts \<and> verify_aggregated ts data agg"
proof -
  note agg = aggregate_OkD [OF assms(1-5,7)]
  let ?ids = "take (nat (th_threshold ts)) (valid_ids c ts m)"
  have n: "nat (th_threshold ts) \<le> length (valid_ids c ts m)" using agg(2) by simp
  have "list_all (\<lambda>k. has_key (th_public ts) k \<and> (case map_of m k of None \<Rightarrow> False
      | Some s \<Rightarrow> th_verify c ts k (bytes_of ''timestamp'') s = Ok True)) ?ids"
    unfolding list_all_iff
  proof
    fix k assume "k \<in> set ?ids"
    then have "k \<in> set (valid_ids c ts m)" by (rule in_set_takeD)
    from valid_ids_valid [OF this assms(2)]
    show "has_key (th_public ts) k \<and> (case map_of m k of None \<Rightarrow> False
      | Some s \<Rightarrow> th_verify c ts k (bytes_of ''timestamp'') s = Ok True)"
      by (auto dest: th_verify_known)
  qed
  moreover have "distinct ?ids" using distinct_valid_ids [OF assms(2)] by simp
  moreover have "int (length ?ids) = th_threshold ts" using n assms(5) by simp
  moreover have len: "int (length agg) = 64 * th_threshold ts"
    using length_agg_spec [OF assms(2) agg(2)] agg(1) assms(5) by (simp add: signature_size_def)
  moreover have "verify_aggregated ts data agg"
    using len assms(5,6)
    by (simp add: verify_aggregated_def signature_size_def wrap64_id min_int64_def max_int64_def)
  ultimately show ?thesis by blast
qed

text \<open>
  \<open>VerifyAggregated\<close> checks only the length: for a threshold of up to a million, every
  byte string of that length or more is accepted, whatever the data (the source says so in a
  comment). So it is not evidence that any validator signed.
\<close>

lemma verify_aggregated_length_only:
  assumes "0 \<le> th_threshold ts" and "th_threshold ts \<le> 1000000"
  shows "verify_aggregated ts data agg \<longleftrightarrow> 64 * th_threshold ts \<le> int (length agg)"
  using assms
  by (simp add: verify_aggregated_def signature_size_def wrap64_id min_int64_def max_int64_def
      mult.commute)

text \<open>
  A \<open>ThresholdSignature\<close> without public keys and with a positive threshold, which is
  what \<open>NewBigBFTConsensus\<close> gives its fast path, never aggregates anything.
\<close>

lemma aggregate_no_keys_fails:
  assumes "wf_map m" and "is_order o1" and "is_order o2" and "0 < t"
  shows "\<exists>e. aggregate c (new_threshold_signature sk [] t) o1 o2 m = Err e"
proof -
  let ?ts = "new_threshold_signature sk [] t"
  have "valid_ids c ?ts m = []"
    by (auto simp: valid_ids_def filter_empty_conv valid_vote_def th_verify_def
        new_threshold_signature_def)
  moreover have "th_threshold ?ts = t" "keys_ok ?ts"
    by (simp_all add: new_threshold_signature_def keys_ok_def)
  ultimately show ?thesis
    using aggregate_eq [of ?ts m o1 o2 c] assms by simp
qed

section \<open>Witnesses\<close>

text \<open>
  Three validators, of which two must sign; the signature of \<open>''b''\<close> is a byte string of
  zeroes, so that \<open>''a''\<close> and \<open>''c''\<close> make the threshold.
\<close>

definition demo_ts :: threshold_sig where
  "demo_ts = new_threshold_signature []
     [(''b'', replicate 32 2), (''c'', replicate 32 3), (''a'', replicate 32 1)] 2"

definition demo_vote :: "byte \<Rightarrow> bytes" where
  "demo_vote b = replicate 32 b @ bytes_of ''timestamp'' @ replicate 23 0"

definition demo_votes :: "(string, bytes) gomap" where
  "demo_votes = [(''c'', demo_vote 3), (''b'', replicate 64 0), (''a'', demo_vote 1)]"

lemma demo_ts_ok:
  "keys_ok demo_ts" "wf_map demo_votes" "0 \<le> th_threshold demo_ts"
  "th_threshold demo_ts \<le> 1000000"
  by (simp_all add: demo_ts_def new_threshold_signature_def keys_ok_def public_key_size_def
      demo_votes_def wf_map_def keys_def)

lemma demo_ids: "valid_ids toy_ed25519 demo_ts demo_votes = [''a'', ''c'']"
  by code_simp

lemma demo_aggregate:
  "aggregate toy_ed25519 demo_ts rev (\<lambda>x. x) demo_votes = Ok (demo_vote 1 @ demo_vote 3)"
  by code_simp

theorem aggregate_correct_witness:
  "aggregate toy_ed25519 demo_ts rev rev demo_votes = Ok (agg_spec toy_ed25519 demo_ts demo_votes)"
  using aggregate_correct [of demo_ts demo_votes rev rev toy_ed25519] demo_ts_ok
  by (simp add: demo_ids) (simp add: demo_ts_def new_threshold_signature_def)

lemma aggregate_sound_witness:
  "int (length (demo_vote 1 @ demo_vote 3)) = 128
   \<and> verify_aggregated demo_ts [] (demo_vote 1 @ demo_vote 3)"
proof -
  have "th_threshold demo_ts = 2" by (simp add: demo_ts_def new_threshold_signature_def)
  then show ?thesis
    using aggregate_sound [OF demo_ts_ok(1,2) is_order_rev is_order_id demo_ts_ok(3,4)
        demo_aggregate, of "[]"] by simp
qed

theorem verify_aggregated_length_only_witness:
  "verify_aggregated demo_ts (bytes_of ''timestamp'') (replicate 128 7)"
proof -
  have "th_threshold demo_ts = 2" by (simp add: demo_ts_def new_threshold_signature_def)
  then show ?thesis
    using verify_aggregated_length_only [OF demo_ts_ok(3,4), of "bytes_of ''timestamp''"
        "replicate 128 7"] by simp
qed

theorem aggregate_no_keys_fails_witness:
  "\<exists>e. aggregate toy_ed25519 (new_threshold_signature [] [] 5) rev rev demo_votes = Err e"
  by (rule aggregate_no_keys_fails [OF demo_ts_ok(2) is_order_rev is_order_rev]) simp

end
