(* ===== verification/Metrics.thy ===== *)
theory Metrics
  imports GoTime
begin

text \<open>
  \<open>core/metrics/metrics.go\<close>: the metrics the program keeps. Prometheus is a library the
  program only calls; the model keeps, for every metric and label values, how often it was
  incremented or observed (\<open>samples\<close>) and the value of each gauge (\<open>gauges\<close>). The
  observed durations are not modelled: the program never reads them back. An operation of
  another component that records metrics returns the list of its calls, in order.
\<close>

section \<open>Model\<close>

datatype metric_call =
    RecordConsensusLatency string
  | RecordTimestampLatency string
  | RecordTimestampError string
  | UpdatePeerCount int string
  | RecordNetworkLatency string
  | RecordP2PMessage string string
  | RecordP2PDiscoveryEvent string
  | UpdateP2PConnectionState string int
  | RecordP2PStreamLatency string
  | RecordAPILatency string
  | RecordAPIRequest string

record registry =
  samples :: "(string \<times> string list, nat) gomap"
  gauges :: "(string \<times> string list, int) gomap"

definition empty_registry :: registry where
  "empty_registry = \<lparr>samples = [], gauges = []\<rparr>"

definition sample_count :: "registry \<Rightarrow> string \<Rightarrow> string list \<Rightarrow> nat" where
  "sample_count r name labels =
     (case map_of (samples r) (name, labels) of None \<Rightarrow> 0 | Some n \<Rightarrow> n)"

definition bump :: "string \<Rightarrow> string list \<Rightarrow> registry \<Rightarrow> registry" where
  "bump name labels r =
     r\<lparr>samples := map_put (name, labels) (Suc (sample_count r name labels)) (samples r)\<rparr>"

definition set_gauge :: "string \<Rightarrow> string list \<Rightarrow> int \<Rightarrow> registry \<Rightarrow> registry" where
  "set_gauge name labels v r = r\<lparr>gauges := map_put (name, labels) v (gauges r)\<rparr>"

fun record_metric :: "metric_call \<Rightarrow> registry \<Rightarrow> registry" where
  "record_metric (RecordConsensusLatency result) r =
     bump ''timeserver_consensus_total'' [result]
       (bump ''timeserver_consensus_latency_seconds'' [result] r)"
| "record_metric (RecordTimestampLatency op) r =
     bump ''timeserver_timestamp_latency_seconds'' [op] r"
| "record_metric (RecordTimestampError t) r =
     bump ''timeserver_timestamp_errors_total'' [t] r"
| "record_metric (UpdatePeerCount n region) r = set_gauge ''timeserver_peer_count'' [region] n r"
| "record_metric (RecordNetworkLatency peer) r =
     bump ''timeserver_network_latency_seconds'' [peer] r"
| "record_metric (RecordP2PMessage t dir) r =
     bump ''timeserver_p2p_messages_total'' [t, dir] r"
| "record_metric (RecordP2PDiscoveryEvent e) r =
     bump ''timeserver_p2p_discovery_events_total'' [e] r"
| "record_metric (UpdateP2PConnectionState st v) r =
     set_gauge ''timeserver_p2p_connection_state'' [st] v r"
| "record_metric (RecordP2PStreamLatency op) r =
     bump ''timeserver_p2p_stream_latency_seconds'' [op] r"
| "record_metric (RecordAPILatency path) r = bump ''timeserver_api_latency_seconds'' [path] r"
| "record_metric (RecordAPIRequest path) r = bump ''timeserver_api_requests_total'' [path] r"

definition record_all :: "metric_call list \<Rightarrow> registry \<Rightarrow> registry" where
  "record_all = fold record_metric"

section \<open>Counting calls\<close>

lemma sample_count_bump [simp]:
  "sample_count (bump name labels r) name' labels' =
     (if name' = name \<and> labels' = labels then Suc (sample_count r name labels)
      else sample_count r name' labels')"
  by (simp add: sample_count_def bump_def)

lemma sample_count_set_gauge [simp]:
  "sample_count (set_gauge g l v r) name labels = sample_count r name labels"
  by (simp add: sample_count_def set_gauge_def)

lemma sample_count_empty [simp]: "sample_count empty_registry name labels = 0"
  by (simp add: sample_count_def empty_registry_def)

lemma timestamp_errors_count:
  "sample_count (record_all cs r) ''timeserver_timestamp_errors_total'' [t]
     = sample_count r ''timeserver_timestamp_errors_total'' [t]
       + count_list cs (RecordTimestampError t)"
proof (induction cs arbitrary: r)
  case (Cons a cs)
  then show ?case by (cases a) (auto simp: record_all_def)
qed (simp add: record_all_def)

text \<open>
  The two consensus metrics never disagree: after any sequence of metric calls the counter
  of consensus results and the number of latency observations are the same for each result.
\<close>

lemma consensus_metrics_agree:
  "sample_count (record_all cs empty_registry) ''timeserver_consensus_total'' [result]
     = sample_count (record_all cs empty_registry) ''timeserver_consensus_latency_seconds'' [result]
   \<and> sample_count (record_all cs empty_registry) ''timeserver_consensus_total'' [result]
     = count_list cs (RecordConsensusLatency result)"
proof -
  have "sample_count (record_all cs r) ''timeserver_consensus_total'' [result]
       = sample_count r ''timeserver_consensus_total'' [result]
         + count_list cs (RecordConsensusLatency result)
     \<and> sample_count (record_all cs r) ''timeserver_consensus_latency_seconds'' [result]
       = sample_count r ''timeserver_consensus_latency_seconds'' [result]
         + count_list cs (RecordConsensusLatency result)" for r
  proof (induction cs arbitrary: r)
    case (Cons a cs)
    then show ?case by (cases a) (auto simp: record_all_def)
  qed (simp add: record_all_def)
  then show ?thesis by simp
qed

end
