(* ===== verification/FastPath.thy ===== *)
theory FastPath
  imports Threshold Metrics
begin

text \<open>
  \<open>core/consensus/fastpath.go\<close>: the fast path. The body of the \<open>select\<close> loop is
  \<open>collect_sig\<close> and \<open>collect_err\<close>; the goroutines that ask the servers, the two channels
  and the waiting main goroutine are the step relation \<open>fp_step\<close>. The clock readings and the
  choice of the next ready event are the relation's nondeterminism.
\<close>

section \<open>Model\<close>

record fp_config =
  min_signatures :: int
  max_latency :: duration
  max_drift :: duration

record fast_path =
  fp_cfg :: fp_config
  fp_threshold :: "threshold_sig option"
  fp_servers :: "string list"

definition new_fast_path :: "fp_config \<Rightarrow> threshold_sig option \<Rightarrow> string list \<Rightarrow> fast_path" where
  "new_fast_path cfg th servers = \<lparr>fp_cfg = cfg, fp_threshold = th, fp_servers = servers\<rparr>"

text \<open>\<open>requestSignature\<close> is a stand-in in the source too: it answers with a fixed string.\<close>

definition request_signature :: "string \<Rightarrow> bytes outcome" where
  "request_signature server = Ok (bytes_of ''signature'')"

record collect =
  c_sigs :: "(string, bytes) gomap"
  c_times :: "(string, gotime) gomap"
  c_valid :: int
  c_remaining :: int

text \<open>
  The main goroutine waits in the \<open>select\<close>, hangs on a full error channel, or has returned.
  \<open>Retry\<close> is the branch that puts an error on the error channel and continues.
\<close>

datatype fp_main = Running collect | Hung | Returned "signed_timestamp outcome"

datatype fp_turn = Next collect | Retry | Done "signed_timestamp outcome" "metric_call list"

definition drift_exceeds :: "fp_config \<Rightarrow> gotime \<Rightarrow> gotime \<Rightarrow> bool" where
  "drift_exceeds cfg t u \<longleftrightarrow>
     (let drift = time_sub t u in max_drift cfg < drift \<or> drift < wrap64 (- max_drift cfg))"

definition median_time :: "(string list \<Rightarrow> string list) \<Rightarrow> (string, gotime) gomap \<Rightarrow> gotime" where
  "median_time om tms =
     (let all = sort (map snd (go_range om tms)) in all ! (length all div 2))"

text \<open>Enough signatures: the median and the aggregation.\<close>

definition fp_finish ::
  "ed25519 \<Rightarrow> fast_path \<Rightarrow> (string list \<Rightarrow> string list) \<Rightarrow> (string list \<Rightarrow> string list)
   \<Rightarrow> (string list \<Rightarrow> string list) \<Rightarrow> collect \<Rightarrow> fp_turn" where
  "fp_finish ed fp om o1 o2 c =
     (let med = median_time om (c_times c) in
      case fp_threshold fp of
        None \<Rightarrow> Done (Panic NilDereference) []
      | Some th \<Rightarrow>
          (case aggregate ed th o1 o2 (c_sigs c) of
             Err e \<Rightarrow> Done (Err (Errorf ''fast path: failed to aggregate signatures: %v'' [FErr e]))
                        [RecordTimestampError ''signature_aggregation'']
           | Panic p \<Rightarrow> Done (Panic p) []
           | Blocked \<Rightarrow> Done Blocked []
           | Ok agg \<Rightarrow> Done (Ok \<lparr>st_time = med, st_server = [], st_region = [], st_sig = agg\<rparr>)
                        [RecordConsensusLatency ''success'']))"

definition not_enough :: goerr where
  "not_enough = Errorf ''fast path: not enough valid signatures available'' []"

text \<open>One response taken from \<open>sigChan\<close>.\<close>

definition collect_sig ::
  "ed25519 \<Rightarrow> fast_path \<Rightarrow> gotime \<Rightarrow> (string list \<Rightarrow> string list) \<Rightarrow> (string list \<Rightarrow> string list)
   \<Rightarrow> (string list \<Rightarrow> string list) \<Rightarrow> (string list \<Rightarrow> string list)
   \<Rightarrow> collect \<Rightarrow> string \<times> bytes \<times> gotime \<Rightarrow> fp_turn" where
  "collect_sig ed fp now od om o1 o2 c resp =
     (case resp of (server, sig, t) \<Rightarrow>
      case List.find (\<lambda>(sid, u). drift_exceeds (fp_cfg fp) t u) (go_range od (c_times c)) of
        Some (sid, u) \<Rightarrow>
          Done (Err (Errorf ''timestamp drift between servers %s and %s exceeds MaxDrift (%v > %v)''
                 [FStr server, FStr sid, FInt (time_sub t u), FInt (max_drift (fp_cfg fp))]))
               [RecordTimestampError ''drift_exceeded'']
      | None \<Rightarrow>
          if time_add now (max_drift (fp_cfg fp)) < t then Retry
          else let c' = c\<lparr>c_sigs := map_put server sig (c_sigs c),
                          c_times := map_put server t (c_times c),
                          c_valid := c_valid c + 1,
                          c_remaining := c_remaining c - 1\<rparr>
               in if min_signatures (fp_cfg fp) \<le> c_valid c' then fp_finish ed fp om o1 o2 c'
                  else if c_valid c' + c_remaining c' < min_signatures (fp_cfg fp)
                  then Done (Err not_enough) [] else Next c')"

text \<open>One error taken from \<open>errChan\<close>; its value is not read.\<close>

definition collect_err :: "fast_path \<Rightarrow> collect \<Rightarrow> fp_turn" where
  "collect_err fp c =
     (let c' = c\<lparr>c_remaining := c_remaining c - 1\<rparr>
      in if c_valid c' + c_remaining c' < min_signatures (fp_cfg fp)
         then Done (Err not_enough) [] else Next c')"

definition fp_timeout :: "signed_timestamp outcome" where
  "fp_timeout = Err (Errorf ''fast path: timeout waiting for signatures'' [])"

section \<open>The goroutines\<close>

text \<open>
  \<open>waiting\<close> are the goroutines that have not sent yet, \<open>sigq\<close> and \<open>errq\<close> the contents of the
  two channels. \<open>sigChan\<close> has capacity \<open>MinSignatures\<close>; for capacity 0 the queue holds the one
  response that is being handed over. \<open>errChan\<close> has capacity \<open>len(nearestServers)\<close>.
\<close>

record fp_sys =
  waiting :: "string list"
  sigq :: "(string \<times> bytes \<times> gotime) list"
  errq :: nat
  main :: fp_main
  calls :: "metric_call list"

definition sig_capacity :: "fast_path \<Rightarrow> nat" where
  "sig_capacity fp = max 1 (nat (min_signatures (fp_cfg fp)))"

definition err_capacity :: "fast_path \<Rightarrow> nat" where
  "err_capacity fp = length (fp_servers fp)"

text \<open>A negative capacity makes \<open>make\<close> panic before any goroutine starts.\<close>

definition fp_init :: "fast_path \<Rightarrow> fp_sys" where
  "fp_init fp =
     (if min_signatures (fp_cfg fp) < 0
      then \<lparr>waiting = [], sigq = [], errq = 0, main = Returned (Panic MakeChanNegative),
            calls = [RecordTimestampLatency ''get_timestamp'']\<rparr>
      else \<lparr>waiting = fp_servers fp, sigq = [], errq = 0,
            main = Running \<lparr>c_sigs = [], c_times = [], c_valid = 0,
                            c_remaining = int (length (fp_servers fp))\<rparr>,
            calls = []\<rparr>)"

text \<open>
  The main goroutine after one turn; every return runs the deferred latency record. A send to
  a full error channel hangs.
\<close>

definition take_turn :: "fast_path \<Rightarrow> fp_turn \<Rightarrow> fp_sys \<Rightarrow> fp_sys" where
  "take_turn fp turn s =
     (case turn of
        Next c \<Rightarrow> s\<lparr>main := Running c\<rparr>
      | Retry \<Rightarrow> if errq s < err_capacity fp then s\<lparr>errq := Suc (errq s)\<rparr> else s\<lparr>main := Hung\<rparr>
      | Done r ms \<Rightarrow> s\<lparr>main := Returned r,
                       calls := calls s @ ms @ [RecordTimestampLatency ''get_timestamp'']\<rparr>)"

text \<open>A step is labelled with what happens; \<open>Deadline\<close> is the context's timeout.\<close>

datatype fp_label = Reply | Receive | Deadline

inductive fp_step ::
  "ed25519 \<Rightarrow> fast_path \<Rightarrow> (string \<Rightarrow> bytes outcome) \<Rightarrow> gotime
   \<Rightarrow> fp_sys \<Rightarrow> fp_label \<Rightarrow> fp_sys \<Rightarrow> bool"
  for ed fp request now where
  reply_ok: "waiting s = xs @ server # ys \<Longrightarrow> request server = Ok sig \<Longrightarrow>
     length (sigq s) < sig_capacity fp \<Longrightarrow>
     fp_step ed fp request now s Reply
       (s\<lparr>waiting := xs @ ys, sigq := sigq s @ [(server, sig, t)]\<rparr>)"
| reply_err: "waiting s = xs @ server # ys \<Longrightarrow> request server = Err e \<Longrightarrow>
     errq s < err_capacity fp \<Longrightarrow>
     fp_step ed fp request now s Reply (s\<lparr>waiting := xs @ ys, errq := Suc (errq s)\<rparr>)"
| recv_sig: "main s = Running c \<Longrightarrow> sigq s = resp # q \<Longrightarrow>
     is_order od \<Longrightarrow> is_order om \<Longrightarrow> is_order o1 \<Longrightarrow> is_order o2 \<Longrightarrow>
     fp_step ed fp request now s Receive
       (take_turn fp (collect_sig ed fp now od om o1 o2 c resp) (s\<lparr>sigq := q\<rparr>))"
| recv_err: "main s = Running c \<Longrightarrow> errq s = Suc k \<Longrightarrow>
     fp_step ed fp request now s Receive (take_turn fp (collect_err fp c) (s\<lparr>errq := k\<rparr>))"
| timeout: "main s = Running c \<Longrightarrow>
     fp_step ed fp request now s Deadline (take_turn fp (Done fp_timeout []) s)"

inductive fp_reachable ::
  "ed25519 \<Rightarrow> fast_path \<Rightarrow> (string \<Rightarrow> bytes outcome) \<Rightarrow> gotime \<Rightarrow> fp_sys \<Rightarrow> bool"
  for ed fp request now where
  init: "fp_reachable ed fp request now (fp_init fp)"
| step: "fp_reachable ed fp request now s \<Longrightarrow> fp_step ed fp request now s l s' \<Longrightarrow>
     fp_reachable ed fp request now s'"

section \<open>One turn of the loop\<close>

lemma drift_exceeds_iff:
  assumes "0 \<le> max_drift cfg" and "max_drift cfg < max_int64"
  shows "drift_exceeds cfg t u \<longleftrightarrow> max_drift cfg < \<bar>nanos t - nanos u\<bar>"
proof -
  have "wrap64 (- max_drift cfg) = - max_drift cfg"
    using assms by (intro wrap64_id) (simp_all add: min_int64_def max_int64_def)
  moreover have "max_drift cfg < time_sub t u \<longleftrightarrow> max_drift cfg < nanos t - nanos u"
    using time_sub_le_iff [of "max_drift cfg" t u] assms by (simp add: not_le [symmetric] min_int64_def)
  moreover have "time_sub t u < - max_drift cfg \<longleftrightarrow> nanos t - nanos u < - max_drift cfg"
    using time_sub_ge_iff [of "- max_drift cfg" t u] assms
    by (simp add: not_le [symmetric] min_int64_def max_int64_def)
  ultimately show ?thesis unfolding drift_exceeds_def Let_def by linarith
qed

lemma median_time_eq:
  assumes "is_order om" and "wf_map tms"
  shows "median_time om tms = sort (map snd tms) ! (length tms div 2)"
proof -
  have "mset (map snd (go_range om tms)) = mset (map snd tms)"
    using mset_go_range [OF assms] by (metis mset_map)
  then have "sort (map snd (go_range om tms)) = sort (map snd tms)" by (rule sort_mset_cong)
  then show ?thesis by (simp add: median_time_def)
qed

text \<open>How many of the times lie on either side of the median.\<close>

lemma median_counts:
  fixes ts :: "gotime list"
  assumes "ts \<noteq> []" and "m = sort ts ! (length ts div 2)"
  shows "length ts div 2 < length (filter (\<lambda>x. x \<le> m) ts)"
    and "length ts - length ts div 2 \<le> length (filter (\<lambda>x. m \<le> x) ts)"
    and "m \<in> set ts"
proof -
  have i: "length ts div 2 < length (sort ts)" using assms(1) by simp
  show "length ts div 2 < length (filter (\<lambda>x. x \<le> m) ts)"
    using sorted_nth_median(1) [OF sorted_sort i] length_filter_mset_eq [of "sort ts" ts]
    by (simp add: assms(2) Suc_le_eq)
  show "length ts - length ts div 2 \<le> length (filter (\<lambda>x. m \<le> x) ts)"
    using sorted_nth_median(2) [OF sorted_sort i] length_filter_mset_eq [of "sort ts" ts]
    by (simp add: assms(2))
  show "m \<in> set ts" using nth_mem [OF i] by (simp add: assms(2))
qed

section \<open>The invariant\<close>

definition drift_ok :: "fast_path \<Rightarrow> bool" where
  "drift_ok fp \<longleftrightarrow> 0 \<le> max_drift (fp_cfg fp) \<and> max_drift (fp_cfg fp) < max_int64"

text \<open>The accepted times: none too far ahead, and any two within the drift of each other.\<close>

definition accepted :: "fast_path \<Rightarrow> gotime \<Rightarrow> (string, gotime) gomap \<Rightarrow> bool" where
  "accepted fp now tms \<longleftrightarrow>
     wf_map tms
     \<and> (\<forall>e \<in> set tms. snd e \<le> time_add now (max_drift (fp_cfg fp)))
     \<and> (drift_ok fp \<longrightarrow> (\<forall>e \<in> set tms. \<forall>f \<in> set tms.
          \<bar>nanos (snd e) - nanos (snd f)\<bar> \<le> max_drift (fp_cfg fp)))"

definition good_result :: "ed25519 \<Rightarrow> fast_path \<Rightarrow> gotime \<Rightarrow> signed_timestamp \<Rightarrow> bool" where
  "good_result ed fp now ts \<longleftrightarrow>
     (\<exists>tms sigs th o1 o2. accepted fp now tms \<and> tms \<noteq> [] \<and> set (keys tms) \<subseteq> set (fp_servers fp)
        \<and> (distinct (fp_servers fp) \<longrightarrow> int (length tms) = max 1 (min_signatures (fp_cfg fp)))
        \<and> st_time ts = sort (map snd tms) ! (length tms div 2)
        \<and> wf_map sigs \<and> keys sigs = keys tms \<and> fp_threshold fp = Some th
        \<and> is_order o1 \<and> is_order o2 \<and> aggregate ed th o1 o2 sigs = Ok (st_sig ts))"

definition pending :: "fp_sys \<Rightarrow> nat" where
  "pending s = length (waiting s) + length (sigq s) + errq s"

definition loop_inv :: "fast_path \<Rightarrow> gotime \<Rightarrow> fp_sys \<Rightarrow> collect \<Rightarrow> bool" where
  "loop_inv fp now s c \<longleftrightarrow>
     accepted fp now (c_times c) \<and> wf_map (c_sigs c) \<and> keys (c_sigs c) = keys (c_times c)
     \<and> c_remaining c = int (pending s) \<and> pending s \<le> length (fp_servers fp)
     \<and> 0 \<le> min_signatures (fp_cfg fp) \<and> 0 \<le> c_valid c
     \<and> (c_valid c < min_signatures (fp_cfg fp)
         \<or> c_valid c = 0 \<and> min_signatures (fp_cfg fp) = 0)
     \<and> (c_valid c = 0 \<and> pending s = length (fp_servers fp)
         \<or> min_signatures (fp_cfg fp) \<le> c_valid c + c_remaining c)
     \<and> mset (waiting s) + mset (map fst (sigq s)) + mset (keys (c_times c))
         \<subseteq># mset (fp_servers fp)
     \<and> (distinct (fp_servers fp) \<longrightarrow> int (length (c_times c)) = c_valid c)"

definition fp_inv :: "ed25519 \<Rightarrow> fast_path \<Rightarrow> gotime \<Rightarrow> fp_sys \<Rightarrow> bool" where
  "fp_inv ed fp now s \<longleftrightarrow>
     (case main s of
        Running c \<Rightarrow> loop_inv fp now s c
      | Hung \<Rightarrow> False
      | Returned r \<Rightarrow> (\<forall>ts. r = Ok ts \<longrightarrow> good_result ed fp now ts))"

lemma set_map_put_subset: "set (map_put k v m) \<subseteq> insert (k, v) (set m)"
  by (induction m) auto

lemma accepted_put:
  assumes "accepted fp now tms" and "is_order od"
    and "List.find (\<lambda>(sid, u). drift_exceeds (fp_cfg fp) t u) (go_range od tms) = None"
    and "\<not> time_add now (max_drift (fp_cfg fp)) < t"
  shows "accepted fp now (map_put server t tms)"
proof -
  let ?D = "max_drift (fp_cfg fp)"
  have wf: "wf_map tms" using assms(1) by (simp add: accepted_def)
  have close: "\<bar>nanos t - nanos (snd e)\<bar> \<le> ?D" if "drift_ok fp" "e \<in> set tms" for e
    using that assms(3) drift_exceeds_iff [of "fp_cfg fp" t "snd e"]
    by (force simp: find_None_iff_all set_go_range [OF assms(2) wf] drift_ok_def)
  then have close': "\<bar>nanos (snd e) - nanos t\<bar> \<le> ?D" if "drift_ok fp" "e \<in> set tms" for e
    using that by (simp add: abs_minus_commute)
  have "0 \<le> ?D" if "drift_ok fp" using that by (simp add: drift_ok_def)
  moreover have "e = (server, t) \<or> e \<in> set tms" if "e \<in> set (map_put server t tms)" for e
    using that set_map_put_subset [of server t tms] by auto
  ultimately show ?thesis
    using assms(1,4) close close' unfolding accepted_def by (simp add: not_less) (metis snd_conv
      cancel_comm_monoid_add_class.diff_cancel abs_0)
qed

lemma keys_put_eq: "keys m = keys m' \<Longrightarrow> keys (map_put k v m) = keys (map_put k w m')"
  by (simp add: keys_put has_key_def)

text \<open>The state of the loop after an accepted response satisfies everything but the exits.\<close>

definition accept :: "string \<Rightarrow> bytes \<Rightarrow> gotime \<Rightarrow> collect \<Rightarrow> collect" where
  "accept server sig t c =
     c\<lparr>c_sigs := map_put server sig (c_sigs c), c_times := map_put server t (c_times c),
       c_valid := c_valid c + 1, c_remaining := c_remaining c - 1\<rparr>"

lemma accept_fields [simp]:
  "c_sigs (accept server sig t c) = map_put server sig (c_sigs c)"
  "c_times (accept server sig t c) = map_put server t (c_times c)"
  "c_valid (accept server sig t c) = c_valid c + 1"
  "c_remaining (accept server sig t c) = c_remaining c - 1"
  by (simp_all add: accept_def)

lemma collect_sig_eq:
  "collect_sig ed fp now od om o1 o2 c (server, sig, t) =
     (case List.find (\<lambda>(sid, u). drift_exceeds (fp_cfg fp) t u) (go_range od (c_times c)) of
        Some (sid, u) \<Rightarrow>
          Done (Err (Errorf ''timestamp drift between servers %s and %s exceeds MaxDrift (%v > %v)''
                 [FStr server, FStr sid, FInt (time_sub t u), FInt (max_drift (fp_cfg fp))]))
               [RecordTimestampError ''drift_exceeded'']
      | None \<Rightarrow>
          if time_add now (max_drift (fp_cfg fp)) < t then Retry
          else if min_signatures (fp_cfg fp) \<le> c_valid c + 1
          then fp_finish ed fp om o1 o2 (accept server sig t c)
          else if c_valid c + c_remaining c < min_signatures (fp_cfg fp)
          then Done (Err not_enough) [] else Next (accept server sig t c))"
  by (simp add: collect_sig_def accept_def Let_def cong: option.case_cong)

lemma mset_keys_put_subset:
  "mset (keys (map_put k v m)) \<subseteq># add_mset k (mset (keys m))"
  by (simp add: keys_put)

lemma accept_servers:
  assumes "mset ws + mset (map fst ((server, sig, t) # q)) + mset (keys tms) \<subseteq># mset servers"
  shows "mset ws + mset (map fst q) + mset (keys (map_put server t tms)) \<subseteq># mset servers"
    and "distinct servers \<Longrightarrow> length (map_put server t tms) = Suc (length tms)"
proof -
  have "mset ws + mset (map fst q) + mset (keys (map_put server t tms))
      \<subseteq># mset ws + mset (map fst q) + add_mset server (mset (keys tms))"
    by (intro subset_mset.add_mono mset_keys_put_subset) simp_all
  also have "\<dots> = mset ws + mset (map fst ((server, sig, t) # q)) + mset (keys tms)" by simp
  finally show "mset ws + mset (map fst q) + mset (keys (map_put server t tms)) \<subseteq># mset servers"
    using assms by (rule subset_mset.order_trans)
  assume "distinct servers"
  then have "count (mset servers) server \<le> 1" by (simp add: distinct_count_atmost_1)
  moreover have "Suc (count (mset (keys tms)) server) \<le> count (mset servers) server"
    using mset_subset_eq_count [OF assms, of server] by simp
  ultimately have "count (mset (keys tms)) server = 0" by linarith
  then have "\<not> has_key tms server" by (simp add: has_key_def count_eq_zero_iff)
  then show "length (map_put server t tms) = Suc (length tms)" by (simp add: length_put)
qed

lemma loop_inv_accept:
  assumes inv: "loop_inv fp now s c" and q: "sigq s = (server, sig, t) # q" and od: "is_order od"
    and find: "List.find (\<lambda>(sid, u). drift_exceeds (fp_cfg fp) t u) (go_range od (c_times c)) = None"
    and early: "\<not> time_add now (max_drift (fp_cfg fp)) < t"
    and s': "s' = s\<lparr>sigq := q\<rparr>"
  shows "accepted fp now (map_put server t (c_times c))"
    and "keys (map_put server sig (c_sigs c)) = keys (map_put server t (c_times c))"
    and "mset (waiting s') + mset (map fst (sigq s')) + mset (keys (map_put server t (c_times c)))
      \<subseteq># mset (fp_servers fp)"
    and "distinct (fp_servers fp) \<Longrightarrow>
      int (length (map_put server t (c_times c))) = c_valid c + 1"
    and "int (pending s') = c_remaining c - 1" and "pending s = Suc (pending s')"
proof -
  have "accepted fp now (c_times c)" using inv by (simp add: loop_inv_def)
  then show "accepted fp now (map_put server t (c_times c))"
    by (rule accepted_put [OF _ od find early])
  show "keys (map_put server sig (c_sigs c)) = keys (map_put server t (c_times c))"
    using inv by (intro keys_put_eq) (simp add: loop_inv_def)
  have sub: "mset (waiting s) + mset (map fst ((server, sig, t) # q)) + mset (keys (c_times c))
      \<subseteq># mset (fp_servers fp)"
    using inv by (simp add: loop_inv_def flip: q)
  show "mset (waiting s') + mset (map fst (sigq s')) + mset (keys (map_put server t (c_times c)))
      \<subseteq># mset (fp_servers fp)"
    using accept_servers(1) [OF sub] by (simp add: s')
  show "int (length (map_put server t (c_times c))) = c_valid c + 1" if "distinct (fp_servers fp)"
    using that accept_servers(2) [OF sub that] inv by (simp add: loop_inv_def)
  show "int (pending s') = c_remaining c - 1" "pending s = Suc (pending s')"
    using inv by (simp_all add: loop_inv_def pending_def q s')
qed

lemma fp_finish_result:
  assumes "fp_finish ed fp om o1 o2 c = Done r ms" and "r = Ok ts"
  obtains th agg where "fp_threshold fp = Some th" and "aggregate ed th o1 o2 (c_sigs c) = Ok agg"
    and "ts = \<lparr>st_time = median_time om (c_times c), st_server = [], st_region = [], st_sig = agg\<rparr>"
  using assms by (auto simp: fp_finish_def Let_def split: option.splits outcome.splits)

lemma fp_finish_done: "\<exists>r ms. fp_finish ed fp om o1 o2 c = Done r ms"
  by (simp add: fp_finish_def Let_def split: option.split outcome.split)

lemma add_mset_subsetD: "add_mset x A \<subseteq># B \<Longrightarrow> A \<subseteq># B"
  by (meson mset_subset_eq_insertD subset_mset.less_imp_le)

lemma recv_sig_inv:
  assumes run: "main s = Running c" and inv: "loop_inv fp now s c"
    and q: "sigq s = (server, sig, t) # q"
    and ord: "is_order od" "is_order om" "is_order o1" "is_order o2"
  shows "fp_inv ed fp now
    (take_turn fp (collect_sig ed fp now od om o1 o2 c (server, sig, t)) (s\<lparr>sigq := q\<rparr>))"
proof (cases "List.find (\<lambda>(sid, u). drift_exceeds (fp_cfg fp) t u) (go_range od (c_times c))")
  case (Some e)
  then show ?thesis
    by (cases e) (simp add: collect_sig_eq take_turn_def fp_inv_def)
next
  case None
  let ?s = "s\<lparr>sigq := q\<rparr>" and ?min = "min_signatures (fp_cfg fp)"
  show ?thesis
  proof (cases "time_add now (max_drift (fp_cfg fp)) < t")
    case True
    have "errq s < err_capacity fp"
      using inv q by (simp add: loop_inv_def pending_def err_capacity_def)
    moreover have "loop_inv fp now (?s\<lparr>errq := Suc (errq s)\<rparr>) c"
      using inv q by (auto simp: loop_inv_def pending_def dest: add_mset_subsetD)
    ultimately show ?thesis
      using None True run by (simp add: collect_sig_eq take_turn_def fp_inv_def)
  next
    case False
    note acc = loop_inv_accept [OF inv q ord(1) None False refl]
    show ?thesis
    proof (cases "?min \<le> c_valid c + 1")
      case True
      obtain r ms where d: "fp_finish ed fp om o1 o2 (accept server sig t c) = Done r ms"
        using fp_finish_done by blast
      have "good_result ed fp now ts" if r: "r = Ok ts" for ts
      proof -
        obtain th agg where th: "fp_threshold fp = Some th"
          and agg: "aggregate ed th o1 o2 (map_put server sig (c_sigs c)) = Ok agg"
          and ts: "ts = \<lparr>st_time = median_time om (map_put server t (c_times c)),
                        st_server = [], st_region = [], st_sig = agg\<rparr>"
          using fp_finish_result [OF d r] by auto
        have "wf_map (c_times c)" "wf_map (c_sigs c)" "0 \<le> ?min" "0 \<le> c_valid c"
            "c_valid c < ?min \<or> c_valid c = 0 \<and> ?min = 0"
          using inv by (simp_all add: loop_inv_def accepted_def)
        moreover have "set (keys (map_put server t (c_times c))) \<subseteq> set (fp_servers fp)"
          using set_mset_mono [OF acc(3)] by simp
        ultimately show ?thesis
          unfolding good_result_def
          by (intro exI [of _ "map_put server t (c_times c)"] exI [of _ "map_put server sig (c_sigs c)"]
              exI [of _ th] exI [of _ o1] exI [of _ o2])
            (use acc True ord th agg ts in \<open>auto simp: median_time_eq max_def\<close>)
      qed
      then show ?thesis
        using None False True d by (simp add: collect_sig_eq take_turn_def fp_inv_def)
    next
      case below: False
      show ?thesis
      proof (cases "c_valid c + c_remaining c < ?min")
        case True
        then show ?thesis
          using None False below by (simp add: collect_sig_eq take_turn_def fp_inv_def)
      next
        case enough: False
        have "loop_inv fp now ?s (accept server sig t c)"
          using inv acc below enough by (auto simp: loop_inv_def)
        then show ?thesis
          using None False below enough
          by (simp add: collect_sig_eq take_turn_def fp_inv_def) (simp add: loop_inv_def pending_def)
      qed
    qed
  qed
qed

lemma fp_inv_running: "main s = Running c \<Longrightarrow> fp_inv ed fp now s \<longleftrightarrow> loop_inv fp now s c"
  by (simp add: fp_inv_def)

lemma recv_err_inv:
  assumes run: "main s = Running c" and inv: "loop_inv fp now s c" and k: "errq s = Suc k"
  shows "fp_inv ed fp now (take_turn fp (collect_err fp c) (s\<lparr>errq := k\<rparr>))"
proof (cases "c_valid c + (c_remaining c - 1) < min_signatures (fp_cfg fp)")
  case True
  then show ?thesis by (simp add: collect_err_def take_turn_def fp_inv_def)
next
  case False
  then have "loop_inv fp now (s\<lparr>errq := k\<rparr>) (c\<lparr>c_remaining := c_remaining c - 1\<rparr>)"
    using inv k by (auto simp: loop_inv_def pending_def)
  with False show ?thesis
    by (simp add: collect_err_def take_turn_def fp_inv_def) (simp add: loop_inv_def pending_def)
qed

lemma reply_inv:
  assumes "fp_inv ed fp now s" and "waiting s = xs @ server # ys"
  shows "fp_inv ed fp now (s\<lparr>waiting := xs @ ys, sigq := sigq s @ [(server, sig, t)]\<rparr>)"
    and "fp_inv ed fp now (s\<lparr>waiting := xs @ ys, errq := Suc (errq s)\<rparr>)"
proof -
  let ?s1 = "s\<lparr>waiting := xs @ ys, sigq := sigq s @ [(server, sig, t)]\<rparr>"
  let ?s2 = "s\<lparr>waiting := xs @ ys, errq := Suc (errq s)\<rparr>"
  have p: "pending ?s1 = pending s" "pending ?s2 = pending s"
    using assms(2) by (simp_all add: pending_def)
  have "loop_inv fp now ?s1 c" "loop_inv fp now ?s2 c" if "loop_inv fp now s c" for c
    using that assms(2) unfolding loop_inv_def p by (auto dest: add_mset_subsetD)
  then show "fp_inv ed fp now ?s1" "fp_inv ed fp now ?s2"
    using assms(1) by (simp_all add: fp_inv_def split: fp_main.splits)
qed

lemma fp_step_inv: "fp_step ed fp request now s l s' \<Longrightarrow> fp_inv ed fp now s \<Longrightarrow> fp_inv ed fp now s'"
proof (induction rule: fp_step.induct)
  case (recv_sig s c resp q od om o1 o2)
  then show ?case
    by (cases resp) (auto intro: recv_sig_inv simp: fp_inv_running)
next
  case (timeout s c)
  then show ?case by (simp add: take_turn_def fp_inv_def fp_timeout_def)
qed (auto intro: reply_inv recv_err_inv simp: fp_inv_running)

lemma fp_init_inv: "fp_inv ed fp now (fp_init fp)"
  by (auto simp: fp_init_def fp_inv_def loop_inv_def accepted_def pending_def keys_def)

lemma fp_reachable_inv: "fp_reachable ed fp request now s \<Longrightarrow> fp_inv ed fp now s"
  by (induction rule: fp_reachable.induct) (auto intro: fp_init_inv fp_step_inv)

section \<open>Termination\<close>

definition fp_measure :: "fp_sys \<Rightarrow> nat" where
  "fp_measure s = 3 * length (waiting s) + 2 * length (sigq s) + errq s
     + (case main s of Running _ \<Rightarrow> 1 | _ \<Rightarrow> 0)"

lemma take_turn_measure:
  "main s = Running c \<Longrightarrow> fp_measure (take_turn fp turn s) \<le> Suc (fp_measure s)
   \<and> (turn \<noteq> Retry \<longrightarrow> fp_measure (take_turn fp turn s) \<le> fp_measure s)"
  by (auto simp: fp_measure_def take_turn_def split: fp_turn.splits)

lemma collect_err_not_retry: "collect_err fp c \<noteq> Retry"
  by (simp add: collect_err_def Let_def)

lemma fp_step_measure: "fp_step ed fp request now s l s' \<Longrightarrow> fp_measure s' < fp_measure s"
proof (induction rule: fp_step.induct)
  case (recv_sig s c resp q od om o1 o2)
  then have "fp_measure s = fp_measure (s\<lparr>sigq := q\<rparr>) + 2" by (simp add: fp_measure_def)
  then show ?case
    using take_turn_measure [of "s\<lparr>sigq := q\<rparr>" c fp "collect_sig ed fp now od om o1 o2 c resp"]
      recv_sig by simp
next
  case (recv_err s c k)
  then have "fp_measure s = fp_measure (s\<lparr>errq := k\<rparr>) + 1" by (simp add: fp_measure_def)
  then show ?case
    using take_turn_measure [of "s\<lparr>errq := k\<rparr>" c fp "collect_err fp c"] recv_err
    by (simp add: collect_err_not_retry)
next
  case (timeout s c)
  then show ?case by (simp add: fp_measure_def take_turn_def)
qed (simp_all add: fp_measure_def split: fp_main.split)

text \<open>
  While the main goroutine waits there is a step other than the timeout; a reply can carry any
  reading of the clock, in particular the start of the call.
\<close>

lemma fp_can_move:
  assumes c: "main s = Running c" and li: "loop_inv fp now s c" and ne: "fp_servers fp \<noteq> []"
    and pos: "0 < min_signatures (fp_cfg fp)"
    and ans: "list_all (\<lambda>srv. is_ok (request srv) \<or> (\<exists>e. request srv = Err e)) (fp_servers fp)"
  shows "\<exists>l s'. l \<noteq> Deadline \<and> fp_step ed fp request now s l s'
    \<and> set (sigq s') \<subseteq> set (sigq s) \<union> {e. snd (snd e) = now}"
proof -
  have take_turn_sigq: "sigq (take_turn fp turn u) = sigq u" for turn u
    by (simp add: take_turn_def split: fp_turn.split)
  have "pending s \<noteq> 0" using li ne pos by (auto simp: loop_inv_def)
  then consider resp q where "sigq s = resp # q" | j where "errq s = Suc j"
    | srv ys where "waiting s = srv # ys" "sigq s = []" "errq s = 0"
    by (cases "waiting s"; cases "sigq s"; cases "errq s") (auto simp: pending_def)
  then show ?thesis
  proof cases
    case 1
    then show ?thesis
      using fp_step.recv_sig [OF c 1 is_order_id is_order_id is_order_id is_order_id, of ed fp request now]
      by (intro exI [of _ Receive] exI conjI) (auto simp: take_turn_sigq)
  next
    case 2
    then show ?thesis
      using fp_step.recv_err [OF c 2, of ed fp request now]
      by (intro exI [of _ Receive] exI conjI) (auto simp: take_turn_sigq)
  next
    case 3
    have "srv \<in> set (fp_servers fp)"
      using li 3 by (auto simp: loop_inv_def dest: mset_subset_eqD)
    then consider sig where "request srv = Ok sig" | e where "request srv = Err e"
      using ans by (auto simp: list_all_iff is_ok_iff)
    then show ?thesis
    proof cases
      case ok: 1
      have "fp_step ed fp request now s Reply (s\<lparr>waiting := ys, sigq := [(srv, sig, now)]\<rparr>)"
        using fp_step.reply_ok [of s "[]" srv ys request sig fp ed now now] 3 ok
        by (simp add: sig_capacity_def)
      then show ?thesis using 3 by (intro exI [of _ Reply] exI conjI) auto
    next
      case e: 2
      have "fp_step ed fp request now s Reply (s\<lparr>waiting := ys, errq := Suc 0\<rparr>)"
        using fp_step.reply_err [of s "[]" srv ys request e fp ed now] 3 e ne
        by (simp add: err_capacity_def)
      then show ?thesis using 3 by (intro exI [of _ Reply] exI conjI) auto
    qed
  qed
qed

section \<open>With the stand-in for \<open>requestSignature\<close>\<close>







section \<open>Properties\<close>


text \<open>
  C17. The median resists a minority: if fewer than half of the responses come from servers that
  lie, the time the fast path picks is between the earliest and the latest honest time.
\<close>

theorem median_resists_minority:
  assumes "is_order om" and "wf_map tms"
    and "2 * length (filter (\<lambda>e. \<not> honest (fst e)) tms) < length tms"
    and "list_all (\<lambda>e. honest (fst e) \<longrightarrow> lo \<le> snd e \<and> snd e \<le> hi) tms"
  shows "lo \<le> median_time om tms \<and> median_time om tms \<le> hi"
proof -
  let ?m = "median_time om tms" and ?bad = "filter (\<lambda>e. \<not> honest (fst e)) tms"
  have ne: "map snd tms \<noteq> []" using assms(3) by auto
  have m: "?m = sort (map snd tms) ! (length (map snd tms) div 2)"
    using median_time_eq [OF assms(1,2)] by simp
  have honest_in: "\<exists>e \<in> set tms. honest (fst e) \<and> P (snd e)"
    if "length ?bad < length (filter P (map snd tms))" for P
  proof (rule ccontr)
    assume "\<not> ?thesis"
    then have "filter (\<lambda>e. P (snd e)) tms = filter (\<lambda>e. P (snd e) \<and> \<not> honest (fst e)) tms"
      by (intro filter_cong) auto
    also have "length \<dots> \<le> length ?bad" by (induction tms) auto
    finally show False using that by (simp add: filter_map o_def)
  qed
  have "\<exists>e \<in> set tms. honest (fst e) \<and> snd e \<le> ?m"
    using median_counts(1) [OF ne m] assms(3) by (intro honest_in) simp
  moreover have "\<exists>e \<in> set tms. honest (fst e) \<and> ?m \<le> snd e"
    using median_counts(2) [OF ne m] assms(3) by (intro honest_in) simp
  ultimately show ?thesis
    using assms(4) by (auto simp: list_all_iff dest: order_trans)
qed

text \<open>
  C11. The fast path always comes back: its main goroutine never blocks on the error channel; a
  run of the goroutines has at most \<open>3 * servers + 1\<close> steps; and while the main goroutine
  waits, with a positive minimum, at least one server and servers that answer or fail, there is a step other than
  the timeout.
\<close>

theorem fast_path_terminates:
  assumes "((\<lambda>s s'. \<exists>l. fp_step ed fp request now s l s') ^^ k) (fp_init fp) s"
  shows "k \<le> 3 * length (fp_servers fp) + 1 \<and> main s \<noteq> Hung
    \<and> (\<forall>c. main s = Running c \<longrightarrow> fp_servers fp \<noteq> [] \<longrightarrow> 0 < min_signatures (fp_cfg fp) \<longrightarrow>
         list_all (\<lambda>srv. is_ok (request srv) \<or> (\<exists>e. request srv = Err e)) (fp_servers fp) \<longrightarrow>
         (\<exists>l s'. l \<noteq> Deadline \<and> fp_step ed fp request now s l s'))"
proof -
  let ?R = "\<lambda>s s'. \<exists>l. fp_step ed fp request now s l s'"
  have run: "fp_reachable ed fp request now s \<and> fp_measure s + k \<le> fp_measure (fp_init fp)"
    using assms
  proof (induction k arbitrary: s)
    case 0
    then show ?case by (auto intro: fp_reachable.init)
  next
    case (Suc k)
    then obtain s0 l where "(?R ^^ k) (fp_init fp) s0" and st: "fp_step ed fp request now s0 l s" by auto
    with Suc.IH have "fp_reachable ed fp request now s0" "fp_measure s0 + k \<le> fp_measure (fp_init fp)"
      by auto
    with fp_step_measure [OF st] show ?case by (auto intro: fp_reachable.step [OF _ st])
  qed
  have inv: "fp_inv ed fp now s" using run fp_reachable_inv by blast
  have "fp_measure (fp_init fp) \<le> 3 * length (fp_servers fp) + 1"
    by (simp add: fp_init_def fp_measure_def)
  moreover have "main s \<noteq> Hung" using inv by (auto simp: fp_inv_def)
  moreover have "\<exists>l s'. l \<noteq> Deadline \<and> fp_step ed fp request now s l s'"
    if "main s = Running c" and "fp_servers fp \<noteq> []" and "0 < min_signatures (fp_cfg fp)"
      and "list_all (\<lambda>srv. is_ok (request srv) \<or> (\<exists>e. request srv = Err e)) (fp_servers fp)" for c
    using fp_can_move [OF that(1) _ that(2-4), of now ed] inv that(1) by (fastforce simp: fp_inv_running)
  ultimately show ?thesis using run by (meson add_leD2 order_trans)
qed


section \<open>Witnesses\<close>

text \<open>One server whose key and signature fit the toy scheme; a run of one reply.\<close>

definition demo_fp :: fast_path where
  "demo_fp = new_fast_path \<lparr>min_signatures = 1, max_latency = 50 * millisecond, max_drift = 10\<rparr>
     (Some (new_threshold_signature [] [(''a'', replicate 32 0)] 1)) [''a'']"






theorem median_resists_minority_witness:
  "Instant 5 \<le> median_time rev [(''a'', Instant 5), (''b'', Instant 900), (''c'', Instant 7)]
   \<and> median_time rev [(''a'', Instant 5), (''b'', Instant 900), (''c'', Instant 7)] \<le> Instant 7"
proof -
  let ?tms = "[(''a'', Instant 5), (''b'', Instant 900), (''c'', Instant 7)]"
  have "wf_map ?tms" by (simp add: wf_map_def keys_def)
  moreover have "2 * length (filter (\<lambda>e. \<not> (fst e \<noteq> ''b'')) ?tms) < length ?tms" by simp
  moreover have "list_all (\<lambda>e. fst e \<noteq> ''b'' \<longrightarrow> Instant 5 \<le> snd e \<and> snd e \<le> Instant 7) ?tms"
    by (simp add: le_time_iff)
  ultimately show ?thesis
    using median_resists_minority [of rev ?tms "\<lambda>s. s \<noteq> ''b''" "Instant 5" "Instant 7"] by simp
qed

theorem fast_path_terminates_witness:
  "(0::nat) \<le> 3 * length (fp_servers demo_fp) + 1 \<and> main (fp_init demo_fp) \<noteq> Hung
   \<and> (\<exists>l s'. l \<noteq> Deadline
        \<and> fp_step toy_ed25519 demo_fp request_signature (Instant 0) (fp_init demo_fp) l s')"
proof -
  have "main (fp_init demo_fp) = Running \<lparr>c_sigs = [], c_times = [], c_valid = 0, c_remaining = 1\<rparr>"
    and "fp_servers demo_fp \<noteq> []" and "0 < min_signatures (fp_cfg demo_fp)"
    and "list_all (\<lambda>srv. is_ok (request_signature srv) \<or> (\<exists>e. request_signature srv = Err e))
        (fp_servers demo_fp)"
    by (simp_all add: fp_init_def demo_fp_def new_fast_path_def request_signature_def)
  then show ?thesis
    using fast_path_terminates [where ed = toy_ed25519 and fp = demo_fp and k = 0
        and request = request_signature and now = "Instant 0" and s = "fp_init demo_fp"] by auto
qed


end
