(* ===== verification/BigBFT.thy ===== *)
theory BigBFT
  imports FastPath ConsState Quorums
begin

text \<open>
  \<open>core/consensus/pbft.go\<close>: the batch consensus. \<open>BigBFTConsensus\<close> is the record \<open>bigbft\<close>;
  each method is one function from the record to the new record, the outcome, and what it hands
  to the outside (broadcasts, spawned timers). The goroutines that wait for the batch window
  are the step relation \<open>bb_step\<close>. The \<open>ThresholdSignature\<close> is a pointer that the
  constructor leaves nil, hence an option. The methods' own mutex serialises them and is not
  part of the record; the mutex of the shared \<open>State\<close> is.
\<close>

section \<open>Model\<close>

record bigbft =
  bb_state :: cons_state
  bb_fast_path :: fast_path
  bb_threshold :: "threshold_sig option"
  bb_window :: duration
  bb_current :: "timestamp_batch option"
  bb_batches :: "(u64, timestamp_batch) gomap"
  bb_votes :: "(u64, (string, bytes) gomap) gomap"
  bb_commits :: "(u64, (string, bytes) gomap) gomap"

text \<open>The constructor reads the field \<open>Validators\<close> directly, without the state's mutex.\<close>

definition new_big_bft :: "(string list \<Rightarrow> string list) \<Rightarrow> cons_state \<Rightarrow> bigbft" where
  "new_big_bft ord s =
     (let cfg = \<lparr>min_signatures = 5, max_latency = 50 * millisecond, max_drift = 10 * millisecond\<rparr>;
          vs = map fst (go_range ord (validators s));
          nearest = (if 7 < length vs then take 7 vs else vs)
      in \<lparr>bb_state = s,
          bb_fast_path = new_fast_path cfg (Some (new_threshold_signature [] [] 5)) nearest,
          bb_threshold = None, bb_window = second, bb_current = None,
          bb_batches = [], bb_votes = [], bb_commits = []\<rparr>)"

text \<open>
  \<open>broadcast\<close>; \<open>net p d\<close> is the network's answer and the second component what was handed to
  it.
\<close>

type_synonym network = "string \<Rightarrow> bytes \<Rightarrow> unit outcome"

definition broadcast ::
  "msg_codec \<Rightarrow> network \<Rightarrow> consensus_message \<Rightarrow> unit outcome \<times> (string \<times> bytes) list" where
  "broadcast j net msg =
     (case marshal_msg j msg of
        Err e \<Rightarrow> (Err (Errorf ''failed to marshal message: %w'' [FErr e]), [])
      | Panic p \<Rightarrow> (Panic p, [])
      | Blocked \<Rightarrow> (Blocked, [])
      | Ok data \<Rightarrow> (net consensus_protocol_id data, [(consensus_protocol_id, data)]))"

definition batch_message :: "string \<Rightarrow> u64 \<Rightarrow> string \<Rightarrow> bytes \<Rightarrow> consensus_message" where
  "batch_message kind v from data =
     \<lparr>cm_type = kind, cm_view = v, cm_from = from, cm_to = [], cm_timestamp = None,
      cm_data = data, cm_signature = []\<rparr>"

text \<open>The current batch, or a new one stamped with the clock.\<close>

definition batch_for :: "gotime \<Rightarrow> bigbft \<Rightarrow> timestamp_batch outcome" where
  "batch_for now b =
     (case bb_current b of
        Some batch \<Rightarrow> Ok batch
      | None \<Rightarrow> bind_outcome (get_node_id (bb_state b))
          (\<lambda>n. Ok \<lparr>tb_timestamps = [], tb_batch_id = unix_nano now, tb_leader = n,
                     tb_fast_path = False\<rparr>))"

text \<open>
  \<open>fast\<close> is what the fast path answered. Where it succeeded its timestamp is assigned to a
  local variable and nothing else happens. The last component lists the batch ids for which a
  \<open>processBatchAfterWindow\<close> goroutine was started.
\<close>

definition propose_timestamp ::
  "signed_timestamp outcome \<Rightarrow> gotime \<Rightarrow> signed_timestamp \<Rightarrow> bigbft
   \<Rightarrow> bigbft \<times> unit outcome \<times> u64 list" where
  "propose_timestamp fast now ts b =
     (case fast of
        Ok fast_ts \<Rightarrow> (b, Ok (), [])
      | Panic p \<Rightarrow> (b, Panic p, [])
      | Blocked \<Rightarrow> (b, Blocked, [])
      | Err e \<Rightarrow>
          (case batch_for now b of
             Err e' \<Rightarrow> (b, Err e', [])
           | Panic p \<Rightarrow> (b, Panic p, [])
           | Blocked \<Rightarrow> (b, Blocked, [])
           | Ok batch \<Rightarrow>
               let batch' = batch\<lparr>tb_timestamps := tb_timestamps batch @ [ts]\<rparr>
               in (b\<lparr>bb_current := Some batch'\<rparr>, Ok (), [tb_batch_id batch'])))"

text \<open>
  The goroutine after its sleep: it takes the current batch if it is still the one the timer
  was started for. \<open>startConsensus\<close> follows, in the same goroutine.
\<close>

definition process_batch_after_window :: "u64 \<Rightarrow> bigbft \<Rightarrow> bigbft \<times> timestamp_batch option" where
  "process_batch_after_window batch_id b =
     (case bb_current b of
        Some batch \<Rightarrow>
          if tb_batch_id batch = batch_id then (b\<lparr>bb_current := None\<rparr>, Some batch) else (b, None)
      | None \<Rightarrow> (b, None))"

definition register_batch :: "timestamp_batch \<Rightarrow> bigbft \<Rightarrow> bigbft" where
  "register_batch batch b =
     b\<lparr>bb_batches := map_put (tb_batch_id batch) batch (bb_batches b),
       bb_votes := map_put (tb_batch_id batch) [] (bb_votes b),
       bb_commits := map_put (tb_batch_id batch) [] (bb_commits b)\<rparr>"

definition start_consensus ::
  "msg_codec \<Rightarrow> network \<Rightarrow> timestamp_batch \<Rightarrow> bigbft
   \<Rightarrow> bigbft \<times> unit outcome \<times> (string \<times> bytes) list" where
  "start_consensus j net batch b =
     (let b' = register_batch batch b in
      case marshal_batch j batch of
        Err e \<Rightarrow> (b', Err e, [])
      | Panic p \<Rightarrow> (b', Panic p, [])
      | Blocked \<Rightarrow> (b', Blocked, [])
      | Ok data \<Rightarrow>
          (case get_node_id (bb_state b') of
             Ok n \<Rightarrow> (b', broadcast j net (batch_message ''propose'' (tb_batch_id batch) n data))
           | Err e \<Rightarrow> (b', Err e, [])
           | Panic p \<Rightarrow> (b', Panic p, [])
           | Blocked \<Rightarrow> (b', Blocked, [])))"

definition bft_quorum :: "nat \<Rightarrow> nat" where
  "bft_quorum n = n * 2 div 3 + 1"

definition get_quorum_size :: "(string list \<Rightarrow> string list) \<Rightarrow> bigbft \<Rightarrow> nat outcome" where
  "get_quorum_size ord b =
     bind_outcome (get_validators ord (bb_state b)) (\<lambda>vs. Ok (bft_quorum (length vs)))"

text \<open>A vote is stored before the quorum is looked at; the commit message carries the aggregate.\<close>

definition add_vote :: "consensus_message \<Rightarrow> (string, bytes) gomap \<Rightarrow> bigbft \<Rightarrow> bigbft" where
  "add_vote msg vs b =
     b\<lparr>bb_votes := map_put (cm_view msg) (map_put (cm_from msg) (cm_data msg) vs) (bb_votes b)\<rparr>"

definition aggregate_votes ::
  "ed25519 \<Rightarrow> (string list \<Rightarrow> string list) \<Rightarrow> (string list \<Rightarrow> string list)
   \<Rightarrow> threshold_sig option \<Rightarrow> (string, bytes) gomap \<Rightarrow> bytes outcome" where
  "aggregate_votes ed o1 o2 th vs =
     (case th of None \<Rightarrow> Panic NilDereference | Some t \<Rightarrow> aggregate ed t o1 o2 vs)"

definition commit_message ::
  "ed25519 \<Rightarrow> (string list \<Rightarrow> string list) \<Rightarrow> (string list \<Rightarrow> string list)
   \<Rightarrow> u64 \<Rightarrow> (string, bytes) gomap \<Rightarrow> bigbft \<Rightarrow> consensus_message outcome" where
  "commit_message ed o1 o2 batch_id vs b =
     bind_outcome (aggregate_votes ed o1 o2 (bb_threshold b) vs)
       (\<lambda>agg. bind_outcome (get_node_id (bb_state b))
         (\<lambda>n. Ok (batch_message ''commit'' batch_id n agg)))"

definition handle_vote ::
  "ed25519 \<Rightarrow> msg_codec \<Rightarrow> network
   \<Rightarrow> (string list \<Rightarrow> string list) \<Rightarrow> (string list \<Rightarrow> string list) \<Rightarrow> (string list \<Rightarrow> string list)
   \<Rightarrow> consensus_message \<Rightarrow> bigbft \<Rightarrow> bigbft \<times> unit outcome \<times> (string \<times> bytes) list" where
  "handle_vote ed j net ov o1 o2 msg b =
     (case map_of (bb_votes b) (cm_view msg) of
        None \<Rightarrow> (b, Ok (), [])
      | Some vs0 \<Rightarrow>
          let vs = map_put (cm_from msg) (cm_data msg) vs0; b' = add_vote msg vs0 b in
          case get_quorum_size ov b' of
            Err e \<Rightarrow> (b', Err e, [])
          | Panic p \<Rightarrow> (b', Panic p, [])
          | Blocked \<Rightarrow> (b', Blocked, [])
          | Ok q \<Rightarrow>
              if length vs < q then (b', Ok (), [])
              else case commit_message ed o1 o2 (cm_view msg) vs b' of
                     Ok commit \<Rightarrow> (b', broadcast j net commit)
                   | Err e \<Rightarrow> (b', Err e, [])
                   | Panic p \<Rightarrow> (b', Panic p, [])
                   | Blocked \<Rightarrow> (b', Blocked, []))"


section \<open>The system\<close>

text \<open>
  \<open>timers\<close> are the sleeping goroutines, \<open>starting\<close> the batches taken by a goroutine that has
  not yet entered \<open>startConsensus\<close>. \<open>proposed\<close>, \<open>dropped\<close> and \<open>outbox\<close> only record: the
  timestamps whose proposal returned nil after the fast path failed, those the fast path
  returned, and everything handed to the network. \<open>clock\<close> is the last reading of the clock;
  readings increase and can be represented by \<open>UnixNano\<close>.
\<close>

record bb_sys =
  node :: bigbft
  timers :: "u64 list"
  starting :: "timestamp_batch list"
  clock :: gotime
  proposed :: "signed_timestamp list"
  dropped :: "signed_timestamp list"
  outbox :: "(string \<times> bytes) list"

definition bb_init :: "(string list \<Rightarrow> string list) \<Rightarrow> cons_state \<Rightarrow> gotime \<Rightarrow> bb_sys" where
  "bb_init ord s t =
     \<lparr>node = new_big_bft ord s, timers = [], starting = [], clock = t, proposed = [],
      dropped = [], outbox = []\<rparr>"

definition note_fast :: "signed_timestamp outcome \<Rightarrow> signed_timestamp list" where
  "note_fast r = (case r of Ok ts \<Rightarrow> [ts] | _ \<Rightarrow> [])"

inductive bb_step ::
  "ed25519 \<Rightarrow> msg_codec \<Rightarrow> network \<Rightarrow> bb_sys \<Rightarrow> bb_sys \<Rightarrow> bool" for ed j net where
  propose: "propose_timestamp fast now ts (node s) = (b, Ok (), ids) \<Longrightarrow>
     clock s < now \<Longrightarrow> in_unix_range now \<Longrightarrow>
     bb_step ed j net s
       (s\<lparr>node := b, timers := timers s @ ids, clock := now,
          proposed := proposed s @ (if is_ok fast then [] else [ts]),
          dropped := dropped s @ note_fast fast\<rparr>)"
| fire: "timers s = xs @ i # ys \<Longrightarrow>
     process_batch_after_window i (node s) = (b, taken) \<Longrightarrow>
     bb_step ed j net s
       (s\<lparr>node := b, timers := xs @ ys,
          starting := starting s @ (case taken of None \<Rightarrow> [] | Some batch \<Rightarrow> [batch])\<rparr>)"
| start: "starting s = xs @ batch # ys \<Longrightarrow>
     start_consensus j net batch (node s) = (b, r, out) \<Longrightarrow>
     bb_step ed j net s (s\<lparr>node := b, starting := xs @ ys, outbox := outbox s @ out\<rparr>)"
| vote: "is_order ov \<Longrightarrow> is_order o1 \<Longrightarrow> is_order o2 \<Longrightarrow>
     handle_vote ed j net ov o1 o2 msg (node s) = (b, r, out) \<Longrightarrow> \<not> is_panic r \<Longrightarrow>
     bb_step ed j net s (s\<lparr>node := b, outbox := outbox s @ out\<rparr>)"

inductive bb_reachable ::
  "ed25519 \<Rightarrow> msg_codec \<Rightarrow> network \<Rightarrow> bb_sys \<Rightarrow> bb_sys \<Rightarrow> bool" for ed j net s0 where
  init: "bb_reachable ed j net s0 s0"
| step: "bb_reachable ed j net s0 s \<Longrightarrow> bb_step ed j net s s' \<Longrightarrow> bb_reachable ed j net s0 s'"

inductive_cases bb_stepE: "bb_step ed j net s s'"

section \<open>The operations, branch by branch\<close>

definition current_ts :: "bigbft \<Rightarrow> signed_timestamp list" where
  "current_ts b = (case bb_current b of None \<Rightarrow> [] | Some batch \<Rightarrow> tb_timestamps batch)"

definition current_ids :: "bigbft \<Rightarrow> u64 list" where
  "current_ids b = (case bb_current b of None \<Rightarrow> [] | Some batch \<Rightarrow> [tb_batch_id batch])"

definition ordered_ts :: "bigbft \<Rightarrow> signed_timestamp list" where
  "ordered_ts b = concat (map (\<lambda>e. tb_timestamps (snd e)) (bb_batches b))"

text \<open>What does not change: a proposal and a timer leave everything but the current batch.\<close>

definition same_log :: "bigbft \<Rightarrow> bigbft \<Rightarrow> bool" where
  "same_log b b' \<longleftrightarrow>
     bb_state b' = bb_state b \<and> bb_threshold b' = bb_threshold b
     \<and> bb_batches b' = bb_batches b \<and> bb_votes b' = bb_votes b"

lemma propose_timestamp_OkD:
  assumes "propose_timestamp fast now ts b = (b', Ok (), ids)"
  shows "same_log b b'"
    and "mset (current_ts b') = mset (current_ts b) + mset (if is_ok fast then [] else [ts])"
    and "is_ok fast \<Longrightarrow> b' = b \<and> ids = []"
    and "\<not> is_ok fast \<Longrightarrow> current_ids b' = ids"
    and "current_ids b' = current_ids b \<or> current_ids b = [] \<and> current_ids b' = [unix_nano now]"
  using assms
  by (auto simp: propose_timestamp_def batch_for_def same_log_def current_ts_def current_ids_def
      outcome_simps get_node_id_def split: outcome.splits option.splits dest: state_read_OkD)

lemma process_batch_cases:
  assumes "process_batch_after_window i b = (b', taken)"
  shows "same_log b b'"
    and "mset (current_ts b') + mset (concat (map tb_timestamps
           (case taken of None \<Rightarrow> [] | Some batch \<Rightarrow> [batch]))) = mset (current_ts b)"
    and "mset (current_ids b') + mset (map tb_batch_id
           (case taken of None \<Rightarrow> [] | Some batch \<Rightarrow> [batch])) = mset (current_ids b)"
    and "i \<notin> set (current_ids b')"
  using assms
  by (cases "bb_current b"; cases taken;
      simp add: process_batch_after_window_def same_log_def current_ts_def current_ids_def
        split: if_splits; fastforce)+

lemma start_consensus_state:
  "start_consensus j net batch b = (b', r, out) \<Longrightarrow> b' = register_batch batch b"
  by (auto simp: start_consensus_def Let_def split: outcome.splits)

lemma handle_vote_state:
  "handle_vote ed j net ov o1 o2 msg b = (b', r, out) \<Longrightarrow>
   b' = b \<and> map_of (bb_votes b) (cm_view msg) = None \<and> r = Ok () \<and> out = []
   \<or> (\<exists>vs. map_of (bb_votes b) (cm_view msg) = Some vs \<and> b' = add_vote msg vs b)"
  by (auto simp: handle_vote_def Let_def split: option.splits outcome.splits if_splits)

lemma register_batch_fields [simp]:
  "bb_state (register_batch batch b) = bb_state b"
  "bb_threshold (register_batch batch b) = bb_threshold b"
  "bb_current (register_batch batch b) = bb_current b"
  "bb_batches (register_batch batch b) = map_put (tb_batch_id batch) batch (bb_batches b)"
  "bb_votes (register_batch batch b) = map_put (tb_batch_id batch) [] (bb_votes b)"
  "current_ts (register_batch batch b) = current_ts b"
  "current_ids (register_batch batch b) = current_ids b"
  by (simp_all add: register_batch_def current_ts_def current_ids_def)

lemma add_vote_fields [simp]:
  "bb_state (add_vote msg vs b) = bb_state b"
  "bb_threshold (add_vote msg vs b) = bb_threshold b"
  "bb_current (add_vote msg vs b) = bb_current b"
  "bb_batches (add_vote msg vs b) = bb_batches b"
  "current_ts (add_vote msg vs b) = current_ts b"
  "current_ids (add_vote msg vs b) = current_ids b"
  "ordered_ts (add_vote msg vs b) = ordered_ts b"
  by (simp_all add: add_vote_def current_ts_def current_ids_def ordered_ts_def)

lemma ordered_ts_register:
  "\<not> has_key (bb_batches b) (tb_batch_id batch) \<Longrightarrow>
   ordered_ts (register_batch batch b) = ordered_ts b @ tb_timestamps batch"
  by (simp add: ordered_ts_def map_put_new)

lemma same_log_ordered: "same_log b b' \<Longrightarrow> ordered_ts b' = ordered_ts b"
  by (simp add: same_log_def ordered_ts_def)

lemma get_quorum_size_eq:
  assumes "mu (bb_state b) = Unlocked" and "wf_map (validators (bb_state b))" and "is_order ov"
  shows "get_quorum_size ov b = Ok (bft_quorum (length (validators (bb_state b))))"
  using get_validators_copy [OF assms] by (auto simp: get_quorum_size_def)

section \<open>The invariant of the system\<close>

definition batch_ids :: "bb_sys \<Rightarrow> u64 list" where
  "batch_ids s =
     current_ids (node s) @ map tb_batch_id (starting s) @ keys (bb_batches (node s))"

definition stamped :: "gotime \<Rightarrow> u64 \<Rightarrow> bool" where
  "stamped now i \<longleftrightarrow> (\<exists>t. i = unix_nano t \<and> in_unix_range t \<and> t \<le> now)"

definition flushed :: "bb_sys \<Rightarrow> signed_timestamp list" where
  "flushed s = concat (map tb_timestamps (starting s)) @ ordered_ts (node s)"

definition bb_inv :: "cons_state \<Rightarrow> bb_sys \<Rightarrow> bool" where
  "bb_inv st s \<longleftrightarrow>
     distinct (batch_ids s)
     \<and> (\<forall>i \<in> set (batch_ids s). stamped (clock s) i)
     \<and> mset (current_ts (node s)) + mset (flushed s) = mset (proposed s)
     \<and> set (current_ids (node s)) \<subseteq> set (timers s)
     \<and> bb_state (node s) = st \<and> bb_threshold (node s) = None"

lemma stamped_mono: "stamped t i \<Longrightarrow> t \<le> u \<Longrightarrow> stamped u i"
  by (force simp: stamped_def le_time_iff)

lemma stamped_fresh:
  assumes "stamped t i" and "t < now" and "in_unix_range now"
  shows "i \<noteq> unix_nano now"
proof
  assume eq: "i = unix_nano now"
  obtain u where u: "i = unix_nano u" "in_unix_range u" "u \<le> t"
    using assms(1) by (auto simp: stamped_def)
  then have "u = now" using eq assms(3) by (intro unix_nano_inj) simp_all
  with u(3) assms(2) show False by simp
qed

lemma new_big_bft_fields [simp]:
  "bb_state (new_big_bft ord st) = st" "bb_threshold (new_big_bft ord st) = None"
  "bb_current (new_big_bft ord st) = None" "bb_batches (new_big_bft ord st) = []"
  "bb_votes (new_big_bft ord st) = []" "current_ts (new_big_bft ord st) = []"
  "current_ids (new_big_bft ord st) = []" "ordered_ts (new_big_bft ord st) = []"
  by (simp_all add: new_big_bft_def Let_def current_ts_def current_ids_def ordered_ts_def)

lemma bb_inv_init: "bb_inv st (bb_init ord st t)"
  by (simp add: bb_inv_def bb_init_def batch_ids_def flushed_def keys_def)

lemma bb_inv_propose:
  assumes "bb_inv st s" and step: "propose_timestamp fast now ts (node s) = (b, Ok (), ids)"
    and "clock s < now" and "in_unix_range now"
  shows "bb_inv st (s\<lparr>node := b, timers := timers s @ ids, clock := now,
    proposed := proposed s @ (if is_ok fast then [] else [ts]),
    dropped := dropped s @ note_fast fast\<rparr>)"
proof -
  note p = propose_timestamp_OkD [OF step]
  let ?s = "s\<lparr>node := b, timers := timers s @ ids, clock := now,
    proposed := proposed s @ (if is_ok fast then [] else [ts]),
    dropped := dropped s @ note_fast fast\<rparr>"
  have keys: "bb_batches b = bb_batches (node s)" using p(1) by (simp add: same_log_def)
  have old: "\<forall>i \<in> set (batch_ids s). stamped (clock s) i" using assms(1) by (simp add: bb_inv_def)
  have fresh: "unix_nano now \<notin> set (batch_ids s)"
    using old stamped_fresh [OF _ assms(3,4)] by blast
  have "stamped now (unix_nano now)" using assms(4) by (auto simp: stamped_def)
  moreover have "stamped now i" if "i \<in> set (batch_ids s)" for i
    using that old assms(3) by (metis less_imp_le stamped_mono)
  ultimately have st: "\<forall>i \<in> set (batch_ids ?s). stamped now i"
    using p(5) by (auto simp: batch_ids_def keys)
  have "distinct (batch_ids ?s)"
    using p(5)
  proof
    assume "current_ids b = current_ids (node s)"
    then show ?thesis using assms(1) by (simp add: bb_inv_def batch_ids_def keys)
  next
    assume "current_ids (node s) = [] \<and> current_ids b = [unix_nano now]"
    then show ?thesis using assms(1) fresh by (simp add: bb_inv_def batch_ids_def keys)
  qed
  moreover have "set (current_ids b) \<subseteq> set (timers s @ ids)"
    using p(3,4) assms(1) by (cases "is_ok fast") (auto simp: bb_inv_def)
  moreover have "mset (current_ts b) + mset (flushed ?s) = mset (proposed ?s)"
    using p(2) assms(1) same_log_ordered [OF p(1)] by (simp add: bb_inv_def flushed_def)
  ultimately show ?thesis
    using st assms(1) p(1) by (simp add: bb_inv_def same_log_def)
qed

lemma bb_inv_fire:
  assumes "bb_inv st s" and t: "timers s = xs @ i # ys"
    and step: "process_batch_after_window i (node s) = (b, taken)"
  shows "bb_inv st (s\<lparr>node := b, timers := xs @ ys,
    starting := starting s @ (case taken of None \<Rightarrow> [] | Some batch \<Rightarrow> [batch])\<rparr>)"
proof -
  note p = process_batch_cases [OF step]
  let ?s = "s\<lparr>node := b, timers := xs @ ys,
    starting := starting s @ (case taken of None \<Rightarrow> [] | Some batch \<Rightarrow> [batch])\<rparr>"
  have keys: "bb_batches b = bb_batches (node s)" using p(1) by (simp add: same_log_def)
  have "mset (batch_ids ?s) = mset (batch_ids s)"
    using p(3) by (simp add: batch_ids_def keys)
  then have "distinct (batch_ids ?s) = distinct (batch_ids s)"
    and "set (batch_ids ?s) = set (batch_ids s)"
    by (rule mset_eq_imp_distinct_iff, rule mset_eq_setD)
  moreover have "set (current_ids b) \<subseteq> set (xs @ ys)"
  proof -
    have "set (current_ids b) \<subseteq> set (current_ids (node s))"
      using p(3) by (metis mset_subset_eq_add_left set_mset_mono set_mset_mset)
    then show ?thesis using p(4) assms(1) t by (auto simp: bb_inv_def)
  qed
  moreover have "mset (current_ts b) + mset (flushed ?s) = mset (proposed ?s)"
  proof -
    have "mset (proposed s) = mset (current_ts (node s)) + mset (flushed s)"
      using assms(1) by (simp add: bb_inv_def)
    then show ?thesis
      using same_log_ordered [OF p(1)] by (simp add: flushed_def p(2) [symmetric] ac_simps)
  qed
  ultimately show ?thesis
    using assms(1) p(1) by (simp add: bb_inv_def same_log_def)
qed

lemma bb_inv_start:
  assumes "bb_inv st s" and "starting s = xs @ batch # ys"
  shows "bb_inv st (s\<lparr>node := register_batch batch (node s), starting := xs @ ys,
    outbox := out\<rparr>)"
proof -
  have fresh: "\<not> has_key (bb_batches (node s)) (tb_batch_id batch)"
    using assms by (auto simp: bb_inv_def batch_ids_def has_key_def)
  then show ?thesis
    using assms
    by (auto simp: bb_inv_def batch_ids_def keys_put flushed_def ordered_ts_register ac_simps)
qed

lemma bb_inv_vote:
  assumes "bb_inv st s" and "handle_vote ed j net ov o1 o2 msg (node s) = (b, r, out)"
  shows "bb_inv st (s\<lparr>node := b, outbox := out'\<rparr>)"
  using assms(1) handle_vote_state [OF assms(2)]
  by (auto simp: bb_inv_def batch_ids_def flushed_def)

lemma bb_step_inv:
  assumes "bb_step ed j net s s'" and "bb_inv st s"
  shows "bb_inv st s'"
  using assms(1)
proof cases
  case (propose fast now ts b ids)
  then show ?thesis using bb_inv_propose [OF assms(2)] by simp
next
  case (fire xs i ys b taken)
  then show ?thesis using bb_inv_fire [OF assms(2)] by simp
next
  case (start xs batch ys b r out)
  then show ?thesis using bb_inv_start [OF assms(2)] start_consensus_state by metis
next
  case (vote ov o1 o2 msg b r out)
  then show ?thesis using bb_inv_vote [OF assms(2)] by simp
qed

lemma bb_reachable_inv: "bb_reachable ed j net (bb_init ord st t) s \<Longrightarrow> bb_inv st s"
  by (induction rule: bb_reachable.induct) (auto intro: bb_inv_init bb_step_inv)

section \<open>Votes\<close>

text \<open>With a nil \<open>ThresholdSignature\<close> a vote is counted, and the one that makes the quorum panics.\<close>

lemma handle_vote_no_threshold:
  assumes "bb_threshold b = None" and "mu (bb_state b) = Unlocked"
    and "wf_map (validators (bb_state b))" and "is_order ov"
  shows "handle_vote ed j net ov o1 o2 msg b =
    (case map_of (bb_votes b) (cm_view msg) of
       None \<Rightarrow> (b, Ok (), [])
     | Some vs \<Rightarrow>
         (add_vote msg vs b,
          if length (map_put (cm_from msg) (cm_data msg) vs)
               < bft_quorum (length (validators (bb_state b)))
          then Ok () else Panic NilDereference, []))"
  using assms
  by (simp add: handle_vote_def get_quorum_size_eq commit_message_def aggregate_votes_def Let_def
      split: option.split)

definition votes_of :: "bigbft \<Rightarrow> u64 \<Rightarrow> (string, bytes) gomap" where
  "votes_of b i = (case map_of (bb_votes b) i of None \<Rightarrow> [] | Some vs \<Rightarrow> vs)"





section \<open>Announcements\<close>

text \<open>The broadcast \<open>startConsensus\<close> makes for a batch, if it can be encoded.\<close>

definition announcement ::
  "msg_codec \<Rightarrow> string \<Rightarrow> u64 \<times> timestamp_batch \<Rightarrow> (string \<times> bytes) list" where
  "announcement j n e =
     (case marshal_batch j (snd e) of
        Ok d \<Rightarrow> (case marshal_msg j (batch_message ''propose'' (fst e) n d) of
                  Ok m \<Rightarrow> [(consensus_protocol_id, m)] | _ \<Rightarrow> [])
      | _ \<Rightarrow> [])"

lemma start_consensus_out:
  assumes "start_consensus j net batch b = (b', r, out)" and "mu (bb_state b) = Unlocked"
  shows "out = announcement j (node_id (bb_state b)) (tb_batch_id batch, batch)"
  using assms
  by (auto simp: start_consensus_def announcement_def broadcast_def get_node_id_def Let_def
      split: outcome.splits)

lemma bb_step_outbox:
  assumes "bb_step ed j net s s'" and "bb_inv st s" and "mu st = Unlocked"
    and "wf_map (validators st)"
    and "outbox s = concat (map (announcement j (node_id st)) (bb_batches (node s)))"
  shows "outbox s' = concat (map (announcement j (node_id st)) (bb_batches (node s')))"
  using assms(1)
proof cases
  case (propose fast now ts b ids)
  then show ?thesis
    using propose_timestamp_OkD(1) [OF propose(2)] assms(5) by (simp add: same_log_def)
next
  case (fire xs i ys b taken)
  then show ?thesis
    using process_batch_cases(1) [OF fire(3)] assms(5) by (simp add: same_log_def)
next
  case (start xs batch ys b r out)
  have st: "bb_state (node s) = st" using assms(2) by (simp add: bb_inv_def)
  have "\<not> has_key (bb_batches (node s)) (tb_batch_id batch)"
    using start(2) assms(2) by (auto simp: bb_inv_def batch_ids_def has_key_def)
  moreover have "out = announcement j (node_id st) (tb_batch_id batch, batch)"
    using start_consensus_out [OF start(3)] st assms(3) by simp
  ultimately show ?thesis
    using start(1) start_consensus_state [OF start(3)] assms(5) by (simp add: map_put_new)
next
  case (vote ov o1 o2 msg b r out)
  have st: "bb_state (node s) = st" "bb_threshold (node s) = None"
    using assms(2) by (simp_all add: bb_inv_def)
  have "out = []" and "bb_batches b = bb_batches (node s)"
    using vote(5) handle_vote_no_threshold [of "node s" ov ed j net o1 o2 msg] st assms(3,4) vote(2)
    by (auto split: option.splits)
  then show ?thesis using vote(1) assms(5) by simp
qed

lemma bb_reachable_outbox:
  assumes "bb_reachable ed j net (bb_init ord st t) s" and "mu st = Unlocked"
    and "wf_map (validators st)"
  shows "outbox s = concat (map (announcement j (node_id st)) (bb_batches (node s)))"
  using assms(1)
proof (induction rule: bb_reachable.induct)
  case init
  show ?case by (simp add: bb_init_def)
next
  case (step s s')
  show ?case
    by (rule bb_step_outbox [OF step.hyps(2) bb_reachable_inv [OF step.hyps(1)] assms(2,3) step.IH])
qed

text \<open>Where the timestamps are.\<close>

lemma bb_inv_accounts:
  assumes "bb_inv st s"
  shows "mset (current_ts (node s)) + mset (concat (map tb_timestamps (starting s)))
       + mset (ordered_ts (node s)) = mset (proposed s)
    \<and> set (current_ids (node s)) \<subseteq> set (timers s)
    \<and> (timers s = [] \<and> starting s = [] \<longrightarrow> mset (ordered_ts (node s)) = mset (proposed s))"
proof -
  have "current_ts (node s) = []" if "timers s = []"
    using assms that by (auto simp: bb_inv_def current_ids_def current_ts_def split: option.splits)
  then show ?thesis using assms by (auto simp: bb_inv_def flushed_def ac_simps)
qed

section \<open>Properties\<close>

text \<open>
  C13. No timestamp is lost or duplicated on the normal path: in every reachable state of a node
  made by \<open>NewBigBFTConsensus\<close>, under every interleaving of proposals, timers and votes, the
  timestamps whose proposal was accepted after the fast path failed are, with multiplicity, those
  in the current batch, in a batch about to be started, or in a started batch; the current batch
  has a timer that will take it; and once no timer and no start is outstanding all of them are
  in started batches.
\<close>

theorem no_timestamp_lost:
  assumes "bb_reachable ed j net (bb_init ord st t) s"
  shows "mset (current_ts (node s)) + mset (concat (map tb_timestamps (starting s)))
       + mset (ordered_ts (node s)) = mset (proposed s)
    \<and> set (current_ids (node s)) \<subseteq> set (timers s)
    \<and> (timers s = [] \<and> starting s = [] \<longrightarrow> mset (ordered_ts (node s)) = mset (proposed s))"
  by (rule bb_inv_accounts [OF bb_reachable_inv [OF assms]])

text \<open>
  What the network gets from such a node is exactly one proposal per started batch, in the
  order the batches were started, and nothing else; the batches have different ids.
\<close>

lemma batches_announced_once:
  assumes "bb_reachable ed j net (bb_init ord st t) s" and "mu st = Unlocked"
    and "wf_map (validators st)"
  shows "outbox s = concat (map (announcement j (node_id st)) (bb_batches (node s)))
    \<and> wf_map (bb_batches (node s))"
  using bb_reachable_outbox [OF assms] bb_reachable_inv [OF assms(1)]
  by (simp add: bb_inv_def batch_ids_def wf_map_def)

text \<open>
  C37. A node made by \<open>NewBigBFTConsensus\<close> never commits: whatever it has done before, a vote is
  counted silently, and the vote that completes a quorum makes \<open>handleVote\<close> dereference the
  nil \<open>thresholdSigs\<close> and panic.
\<close>

theorem constructor_never_commits:
  assumes "bb_reachable ed j net (bb_init ord st t) s" and "mu st = Unlocked"
    and "wf_map (validators st)" and "is_order ov"
    and "handle_vote ed j net ov o1 o2 msg (node s) = (b', r, out)"
  shows "out = []
    \<and> r = (if has_key (bb_votes (node s)) (cm_view msg)
            \<and> bft_quorum (length (validators st)) \<le> length (votes_of b' (cm_view msg))
           then Panic NilDereference else Ok ())"
proof -
  have st: "bb_state (node s) = st" "bb_threshold (node s) = None"
    using bb_reachable_inv [OF assms(1)] by (simp_all add: bb_inv_def)
  show ?thesis
    using handle_vote_no_threshold [of "node s" ov ed j net o1 o2 msg] st assms(2-5)
    by (auto simp: has_key_iff votes_of_def add_vote_def split: option.splits)
qed


section \<open>Witnesses\<close>

definition demo_net :: network where
  "demo_net p d = Ok ()"

definition demo_json :: msg_codec where
  "demo_json = \<lparr>marshal_msg = (\<lambda>m. Ok [1]), unmarshal_msg = (\<lambda>d. Err (ErrForeign ''json'')),
     marshal_batch = (\<lambda>b. Ok [2])\<rparr>"

definition demo_members :: "(string, bool) gomap" where
  "demo_members = [(''d'', True), (''b'', True), (''a'', True), (''c'', True)]"

definition demo_node_state :: cons_state where
  "demo_node_state = new_state ''a'' demo_members"

definition demo_stamp :: signed_timestamp where
  "demo_stamp = \<lparr>st_time = Instant 3, st_server = ''a'', st_region = [], st_sig = []\<rparr>"

definition demo_batch :: timestamp_batch where
  "demo_batch = \<lparr>tb_timestamps = [demo_stamp], tb_batch_id = 5, tb_leader = ''a'',
     tb_fast_path = False\<rparr>"

text \<open>A proposal at time 5, its timer, and the start of its batch.\<close>

definition demo_proposed :: bb_sys where
  "demo_proposed =
     (bb_init rev demo_node_state (Instant 0))
       \<lparr>node := (new_big_bft rev demo_node_state)\<lparr>bb_current := Some demo_batch\<rparr>,
        timers := [5], clock := Instant 5, proposed := [demo_stamp]\<rparr>"

definition demo_started :: bb_sys where
  "demo_started =
     demo_proposed\<lparr>node := register_batch demo_batch (new_big_bft rev demo_node_state),
       timers := [], starting := [], outbox := [(consensus_protocol_id, [1])]\<rparr>"

lemma demo_state_free: "mu demo_node_state = Unlocked" "wf_map (validators demo_node_state)"
  by (simp_all add: demo_node_state_def new_state_def demo_members_def wf_map_def keys_def)

lemma demo_propose_run:
  "propose_timestamp (Err e) (Instant 5) demo_stamp (new_big_bft rev demo_node_state)
   = ((new_big_bft rev demo_node_state)\<lparr>bb_current := Some demo_batch\<rparr>, Ok (), [5])"
  by (simp add: propose_timestamp_def batch_for_def get_node_id_def demo_state_free
      demo_batch_def unix_nano_def) (simp add: demo_node_state_def new_state_def)

lemma demo_clock: "Instant 0 < Instant 5" "in_unix_range (Instant 5)"
  by (simp_all add: less_time_iff in_unix_range_def min_int64_def max_int64_def)

lemma demo_propose:
  "bb_reachable toy_ed25519 demo_json demo_net (bb_init rev demo_node_state (Instant 0)) demo_proposed"
proof -
  let ?s = "bb_init rev demo_node_state (Instant 0)"
  have "bb_step toy_ed25519 demo_json demo_net ?s demo_proposed"
    using bb_step.propose [of "Err (ErrForeign ''slow'')" "Instant 5" demo_stamp ?s]
      demo_propose_run demo_clock
    by (simp add: demo_proposed_def bb_init_def note_fast_def)
  then show ?thesis by (blast intro: bb_reachable.intros)
qed

text \<open>The timer takes the batch and its goroutine starts consensus.\<close>

definition demo_fired :: bb_sys where
  "demo_fired =
     demo_proposed\<lparr>node := new_big_bft rev demo_node_state, timers := [], starting := [demo_batch]\<rparr>"

lemma demo_fire: "bb_step toy_ed25519 demo_json demo_net demo_proposed demo_fired"
proof -
  let ?b = "new_big_bft rev demo_node_state"
  have "?b\<lparr>bb_current := None\<rparr> = ?b" by (simp add: new_big_bft_def Let_def)
  then have "process_batch_after_window 5 (node demo_proposed) = (?b, Some demo_batch)"
    by (simp add: process_batch_after_window_def demo_proposed_def demo_batch_def)
  from bb_step.fire [OF _ this, of "[]" "[]"] show ?thesis
    by (simp add: demo_fired_def demo_proposed_def bb_init_def)
qed

lemma demo_begin: "bb_step toy_ed25519 demo_json demo_net demo_fired demo_started"
proof -
  let ?b = "new_big_bft rev demo_node_state"
  have "start_consensus demo_json demo_net demo_batch (node demo_fired)
      = (register_batch demo_batch ?b, Ok (), [(consensus_protocol_id, [1])])"
    by (simp add: start_consensus_def demo_fired_def demo_json_def get_node_id_def demo_state_free
        broadcast_def demo_net_def)
  from bb_step.start [OF _ this, of "[]" "[]" toy_ed25519] show ?thesis
    by (simp add: demo_started_def demo_fired_def demo_proposed_def bb_init_def)
qed

lemma demo_start:
  "bb_reachable toy_ed25519 demo_json demo_net (bb_init rev demo_node_state (Instant 0)) demo_started"
  using demo_propose demo_fire demo_begin by (blast intro: bb_reachable.intros)

theorem no_timestamp_lost_witness:
  "mset (ordered_ts (node demo_started)) = {#demo_stamp#}"
  using no_timestamp_lost [OF demo_start]
  by (simp add: demo_started_def demo_proposed_def bb_init_def)

lemma batches_announced_once_witness:
  "outbox demo_started
     = concat (map (announcement demo_json ''a'') (bb_batches (node demo_started)))"
  using batches_announced_once [OF demo_start demo_state_free]
  by (simp add: demo_node_state_def new_state_def)

definition demo_ballot :: "string \<Rightarrow> byte \<Rightarrow> consensus_message" where
  "demo_ballot k v = (batch_message ''vote'' 5 k (demo_vote v))"

theorem constructor_never_commits_witness:
  "snd (snd (handle_vote toy_ed25519 demo_json demo_net rev rev rev (demo_ballot ''z'' 0)
     (node demo_started))) = []"
proof -
  obtain b r out where run: "handle_vote toy_ed25519 demo_json demo_net rev rev rev
      (demo_ballot ''z'' 0) (node demo_started) = (b, r, out)"
    by (rule prod_cases3)
  then show ?thesis
    using constructor_never_commits [OF demo_start demo_state_free is_order_rev run] by simp
qed








end
