(* ===== verification/Consensus.thy ===== *)
theory Consensus
  imports ConsState
begin

text \<open>
  \<open>core/consensus/consensus.go\<close> with the interface of \<open>core/consensus/network.go\<close>: the
  consensus engine the server starts. What an operation asks of its network is appended to
  \<open>en_calls\<close>, and the network's answers are arguments. Every operation holds the engine's own
  mutex for its whole body. The handler of incoming messages only parses them: its rest is a
  TODO in the source.
\<close>

section \<open>Model\<close>

datatype net_call =
  NetRegister string | NetStart | NetStop | NetBroadcast string bytes

record engine =
  en_state :: cons_state
  en_calls :: "net_call list"

definition new_engine :: "cons_state \<Rightarrow> engine" where
  "new_engine s = \<lparr>en_state = s, en_calls = []\<rparr>"

definition net_calls :: "net_call list \<Rightarrow> engine \<Rightarrow> engine" where
  "net_calls cs e = e\<lparr>en_calls := en_calls e @ cs\<rparr>"

definition engine_start :: "unit outcome \<Rightarrow> engine \<Rightarrow> engine \<times> unit outcome" where
  "engine_start answer e = (net_calls [NetRegister consensus_protocol_id, NetStart] e, answer)"

definition engine_stop :: "unit outcome \<Rightarrow> engine \<Rightarrow> engine \<times> unit outcome" where
  "engine_stop answer e = (net_calls [NetStop] e, answer)"

definition parse_message :: "msg_codec \<Rightarrow> bytes \<Rightarrow> consensus_message outcome" where
  "parse_message j data =
     (case unmarshal_msg j data of
        Err e \<Rightarrow> Err (Errorf ''failed to unmarshal consensus message: %w'' [FErr e])
      | r \<Rightarrow> r)"

definition handle_message :: "msg_codec \<Rightarrow> string \<Rightarrow> bytes \<Rightarrow> unit outcome" where
  "handle_message j from data = bind_outcome (parse_message j data) (\<lambda>_. Ok ())"

definition handle_network_message :: "msg_codec \<Rightarrow> string \<Rightarrow> bytes \<Rightarrow> unit outcome" where
  "handle_network_message j from data =
     bind_outcome (parse_message j data) (\<lambda>msg. handle_message j (cm_from msg) data)"

definition proposal :: "u64 \<Rightarrow> string \<Rightarrow> signed_timestamp option \<Rightarrow> consensus_message" where
  "proposal v from ts =
     \<lparr>cm_type = ''propose'', cm_view = v, cm_from = from, cm_to = [], cm_timestamp = ts,
      cm_data = [], cm_signature = []\<rparr>"

definition engine_propose ::
  "msg_codec \<Rightarrow> (string \<Rightarrow> bytes \<Rightarrow> unit outcome) \<Rightarrow> signed_timestamp option \<Rightarrow> engine
   \<Rightarrow> engine \<times> unit outcome" where
  "engine_propose j net ts e =
     (case bind_outcome (get_view (en_state e)) (\<lambda>v.
           bind_outcome (get_node_id (en_state e)) (\<lambda>n.
             case marshal_msg j (proposal v n ts) of
               Err x \<Rightarrow> Err (Errorf ''failed to marshal proposal message: %w'' [FErr x])
             | r \<Rightarrow> r)) of
        Ok data \<Rightarrow> (net_calls [NetBroadcast consensus_protocol_id data] e,
                     net consensus_protocol_id data)
      | Err x \<Rightarrow> (e, Err x)
      | Panic p \<Rightarrow> (e, Panic p)
      | Blocked \<Rightarrow> (e, Blocked))"

definition engine_get_state :: "engine \<Rightarrow> cons_state" where
  "engine_get_state e = en_state e"

section \<open>Properties\<close>

lemma handle_network_message_eq:
  "handle_network_message j from data = bind_outcome (parse_message j data) (\<lambda>_. Ok ())"
  by (cases "parse_message j data") (simp_all add: handle_network_message_def handle_message_def)

text \<open>
  A proposal is one broadcast under the consensus protocol, whose bytes every receiving
  engine accepts and reads as the proposer's view, id and timestamp; the answer is the
  network's, and the proposer's state is unchanged.
\<close>

lemma proposal_reaches_peers:
  assumes "codec_spec j" and "mu (en_state e) = Unlocked"
  shows "\<exists>d. engine_propose j net ts e
       = (e\<lparr>en_calls := en_calls e @ [NetBroadcast consensus_protocol_id d]\<rparr>,
          net consensus_protocol_id d)
    \<and> parse_message j d = Ok (proposal (view (en_state e)) (node_id (en_state e)) ts)
    \<and> handle_network_message j from d = Ok ()"
proof -
  obtain d where d: "marshal_msg j (proposal (view (en_state e)) (node_id (en_state e)) ts) = Ok d"
    "unmarshal_msg j d = Ok (proposal (view (en_state e)) (node_id (en_state e)) ts)"
    using assms(1) unfolding codec_spec_def by meson
  show ?thesis
    by (rule exI [of _ d])
      (simp add: engine_propose_def state_getters assms(2) d net_calls_def parse_message_def
        handle_network_message_eq)
qed

section \<open>Witness\<close>

theorem proposal_reaches_peers_witness:
  "\<exists>d. parse_message unary_codec d = Ok (proposal 0 ''n1'' None)
     \<and> handle_network_message unary_codec ''n1'' d = Ok ()"
proof -
  let ?e = "new_engine (new_state ''n1'' [(''n1'', True)])"
  have "mu (en_state ?e) = Unlocked" by (simp add: new_engine_def new_state_def)
  from proposal_reaches_peers [OF unary_codec_spec this, of "\<lambda>_ _. Ok ()" None "''n1''"]
  show ?thesis by (auto simp: new_engine_def new_state_def)
qed

end
