(* ===== verification/Regions.thy ===== *)
theory Regions
  imports Prelude
begin

text \<open>
  \<open>core/regions/region_manager.go\<close>: the regions and the assignment of servers to them. Each
  operation holds the manager's mutex for its whole body, so a history is a sequence of
  operations (\<open>region_run\<close>). \<open>region_spec\<close> is the abstract machine the manager implements: two
  partial functions. A \<open>*Region\<close> is never changed after it was stored, so it is a value here.
\<close>

section \<open>Model\<close>

record region =
  rg_id :: string
  rg_name :: string
  rg_description :: string

record region_manager =
  rm_regions :: "(string, region) gomap"
  rm_servers :: "(string, string) gomap"

definition new_region_manager :: region_manager where
  "new_region_manager = \<lparr>rm_regions = [], rm_servers = []\<rparr>"

definition region_not_found :: "string \<Rightarrow> goerr" where
  "region_not_found rid = Errorf ''region %s not found'' [FStr rid]"

definition add_region ::
  "string \<Rightarrow> string \<Rightarrow> string \<Rightarrow> region_manager \<Rightarrow> region_manager \<times> unit outcome" where
  "add_region rid name description rm =
     (if has_key (rm_regions rm) rid
      then (rm, Err (Errorf ''region %s already exists'' [FStr rid]))
      else (rm\<lparr>rm_regions := map_put rid
                 \<lparr>rg_id = rid, rg_name = name, rg_description = description\<rparr> (rm_regions rm)\<rparr>,
            Ok ()))"

text \<open>The loop deletes from the map it ranges over.\<close>

definition remove_region ::
  "(string list \<Rightarrow> string list) \<Rightarrow> string \<Rightarrow> region_manager \<Rightarrow> region_manager \<times> unit outcome" where
  "remove_region ord rid rm =
     (if \<not> has_key (rm_regions rm) rid then (rm, Err (region_not_found rid))
      else (rm\<lparr>rm_servers :=
                 fold (\<lambda>(sid, r) m. if r = rid then map_del sid m else m)
                   (go_range ord (rm_servers rm)) (rm_servers rm),
               rm_regions := map_del rid (rm_regions rm)\<rparr>, Ok ()))"

definition region_get :: "string \<Rightarrow> region_manager \<Rightarrow> region outcome" where
  "region_get rid rm =
     (case map_of (rm_regions rm) rid of None \<Rightarrow> Err (region_not_found rid) | Some r \<Rightarrow> Ok r)"

definition assign_server ::
  "string \<Rightarrow> string \<Rightarrow> region_manager \<Rightarrow> region_manager \<times> unit outcome" where
  "assign_server sid rid rm =
     (if \<not> has_key (rm_regions rm) rid then (rm, Err (region_not_found rid))
      else (rm\<lparr>rm_servers := map_put sid rid (rm_servers rm)\<rparr>, Ok ()))"

definition get_server_region :: "string \<Rightarrow> region_manager \<Rightarrow> string outcome" where
  "get_server_region sid rm =
     (case map_of (rm_servers rm) sid of
        None \<Rightarrow> Err (Errorf ''server %s not assigned to any region'' [FStr sid])
      | Some rid \<Rightarrow> Ok rid)"

definition get_region_servers ::
  "(string list \<Rightarrow> string list) \<Rightarrow> string \<Rightarrow> region_manager \<Rightarrow> string list outcome" where
  "get_region_servers ord rid rm =
     (if \<not> has_key (rm_regions rm) rid then Err (region_not_found rid)
      else Ok (map fst (filter (\<lambda>e. snd e = rid) (go_range ord (rm_servers rm)))))"

definition list_regions :: "(string list \<Rightarrow> string list) \<Rightarrow> region_manager \<Rightarrow> region list" where
  "list_regions ord rm = map snd (go_range ord (rm_regions rm))"

definition list_servers_in_region ::
  "(string list \<Rightarrow> string list) \<Rightarrow> string \<Rightarrow> region_manager \<Rightarrow> string list outcome" where
  "list_servers_in_region ord rid rm =
     (if \<not> has_key (rm_regions rm) rid then Err (region_not_found rid)
      else Ok (map fst (filter (\<lambda>e. snd e = rid) (go_range ord (rm_servers rm)))))"

section \<open>Histories and their specification\<close>

datatype region_op = AddRegion string string string | RemoveRegion string | AssignServer string string

definition region_exec ::
  "(string list \<Rightarrow> string list) \<Rightarrow> region_op \<Rightarrow> region_manager \<Rightarrow> region_manager \<times> unit outcome" where
  "region_exec ord c rm =
     (case c of AddRegion rid name d \<Rightarrow> add_region rid name d rm
      | RemoveRegion rid \<Rightarrow> remove_region ord rid rm
      | AssignServer sid rid \<Rightarrow> assign_server sid rid rm)"

fun region_run ::
  "(string list \<Rightarrow> string list) \<Rightarrow> region_op list \<Rightarrow> region_manager
   \<Rightarrow> region_manager \<times> unit outcome list" where
  "region_run ord [] rm = (rm, [])"
| "region_run ord (c # cs) rm =
     (let (rm1, r) = region_exec ord c rm; (rm2, rs) = region_run ord cs rm1 in (rm2, r # rs))"

text \<open>The abstract machine: which regions there are, and where each server is.\<close>

record region_spec =
  sp_regions :: "string \<Rightarrow> region option"
  sp_place :: "string \<Rightarrow> string option"

definition spec_exec :: "region_op \<Rightarrow> region_spec \<Rightarrow> region_spec \<times> unit outcome" where
  "spec_exec c a =
     (case c of
        AddRegion rid name d \<Rightarrow>
          (case sp_regions a rid of
             Some _ \<Rightarrow> (a, Err (Errorf ''region %s already exists'' [FStr rid]))
           | None \<Rightarrow> (a\<lparr>sp_regions := (sp_regions a)
                (rid \<mapsto> \<lparr>rg_id = rid, rg_name = name, rg_description = d\<rparr>)\<rparr>, Ok ()))
      | RemoveRegion rid \<Rightarrow>
          (case sp_regions a rid of
             None \<Rightarrow> (a, Err (region_not_found rid))
           | Some _ \<Rightarrow> (a\<lparr>sp_regions := (sp_regions a)(rid := None),
                sp_place := (\<lambda>s. if sp_place a s = Some rid then None else sp_place a s)\<rparr>, Ok ()))
      | AssignServer sid rid \<Rightarrow>
          (case sp_regions a rid of
             None \<Rightarrow> (a, Err (region_not_found rid))
           | Some _ \<Rightarrow> (a\<lparr>sp_place := (sp_place a)(sid \<mapsto> rid)\<rparr>, Ok ())))"

fun spec_run :: "region_op list \<Rightarrow> region_spec \<Rightarrow> region_spec \<times> unit outcome list" where
  "spec_run [] a = (a, [])"
| "spec_run (c # cs) a = (let (a1, r) = spec_exec c a; (a2, rs) = spec_run cs a1 in (a2, r # rs))"

definition region_abs :: "region_manager \<Rightarrow> region_spec" where
  "region_abs rm = \<lparr>sp_regions = map_of (rm_regions rm), sp_place = map_of (rm_servers rm)\<rparr>"

definition region_inv :: "region_manager \<Rightarrow> bool" where
  "region_inv rm \<longleftrightarrow>
     wf_map (rm_regions rm) \<and> wf_map (rm_servers rm)
     \<and> list_all (\<lambda>e. rg_id (snd e) = fst e) (rm_regions rm)
     \<and> list_all (\<lambda>e. has_key (rm_regions rm) (snd e)) (rm_servers rm)"

section \<open>The operations keep the invariant and refine the specification\<close>

lemma remove_loop_lookup:
  assumes "is_order ord" and "wf_map m"
  shows "map_of (fold (\<lambda>(sid, r) m. if r = rid then map_del sid m else m) (go_range ord m) m) k
     = (if map_of m k = Some rid then None else map_of m k)"
  by (subst sweep_lookup [OF assms, where P = "\<lambda>sid r. r = rid"]) (simp split: option.split)

lemma region_inv_lookup:
  "region_inv rm \<longleftrightarrow>
     wf_map (rm_regions rm) \<and> wf_map (rm_servers rm)
     \<and> (\<forall>i r. map_of (rm_regions rm) i = Some r \<longrightarrow> rg_id r = i)
     \<and> (\<forall>s i. map_of (rm_servers rm) s = Some i \<longrightarrow> map_of (rm_regions rm) i \<noteq> None)"
  by (cases "wf_map (rm_regions rm) \<and> wf_map (rm_servers rm)")
    (auto simp: region_inv_def wf_map_list_all has_key_iff)

lemma region_exec_inv:
  assumes "is_order ord" and "region_inv rm"
  shows "region_inv (fst (region_exec ord c rm))"
  using assms(2)
  by (auto simp: region_exec_def add_region_def remove_region_def assign_server_def has_key_iff
      region_inv_lookup fold_delete_wf remove_loop_lookup [OF assms(1)]
      split: region_op.split if_splits)

lemma region_exec_refines:
  assumes "is_order ord" and "region_inv rm"
  shows "spec_exec c (region_abs rm)
    = (region_abs (fst (region_exec ord c rm)), snd (region_exec ord c rm))"
  using assms(2)
  by (auto simp: region_exec_def spec_exec_def region_abs_def add_region_def remove_region_def
      assign_server_def has_key_iff fun_eq_iff region_inv_lookup remove_loop_lookup [OF assms(1)]
      split: region_op.split option.split)

lemma region_run_refines:
  assumes "is_order ord" and "region_inv rm"
  shows "region_inv (fst (region_run ord cs rm))
    \<and> spec_run cs (region_abs rm)
       = (region_abs (fst (region_run ord cs rm)), snd (region_run ord cs rm))"
  using assms(2)
proof (induction cs arbitrary: rm)
  case (Cons c cs)
  then show ?case
    using region_exec_inv [OF assms(1), of rm c] region_exec_refines [OF assms(1), of rm c]
    by (cases "region_exec ord c rm") (auto simp: split_beta)
qed simp

lemma region_inv_new: "region_inv new_region_manager"
  by (simp add: region_inv_def new_region_manager_def)

section \<open>Properties\<close>

text \<open>
  C15. The manager is the abstract machine: any history of operations, with maps visited in any
  order, gives the same answers (errors included) and the same regions and placements as the
  two partial functions; and in every state it leads to, every assigned server's region exists.
\<close>

theorem region_manager_refines:
  assumes "is_order ord" and "region_run ord cs new_region_manager = (rm, rs)"
  shows "spec_run cs \<lparr>sp_regions = (\<lambda>_. None), sp_place = (\<lambda>_. None)\<rparr> = (region_abs rm, rs)
    \<and> region_inv rm"
proof -
  have "region_abs new_region_manager = \<lparr>sp_regions = (\<lambda>_. None), sp_place = (\<lambda>_. None)\<rparr>"
    by (simp add: region_abs_def new_region_manager_def fun_eq_iff)
  then show ?thesis
    using region_run_refines [OF assms(1) region_inv_new, of cs] assms(2) by simp
qed

lemma region_servers_eq:
  assumes "is_order ord" and "region_inv rm" and "has_key (rm_regions rm) rid"
  shows "\<exists>xs. get_region_servers ord rid rm = Ok xs \<and> list_servers_in_region ord rid rm = Ok xs
    \<and> distinct xs \<and> set xs = {s. map_of (rm_servers rm) s = Some rid}"
proof -
  have wf: "wf_map (rm_servers rm)" using assms(2) by (simp add: region_inv_def)
  have "distinct (map fst (filter (\<lambda>e. snd e = rid) (go_range ord (rm_servers rm))))"
    using distinct_go_range [OF assms(1) wf] by (rule distinct_map_filter)
  moreover have "set (map fst (filter (\<lambda>e. snd e = rid) (go_range ord (rm_servers rm))))
      = {s. map_of (rm_servers rm) s = Some rid}"
    using set_go_range [OF assms(1) wf] by (force simp: wf_map_of_iff [OF wf])
  ultimately show ?thesis
    using assms(3) by (simp add: get_region_servers_def list_servers_in_region_def)
qed

text \<open>
  After any history the two listings of a region's servers agree: for an unknown region both
  are the error; for a known one both give, without repetition, exactly the servers for which
  \<open>GetServerRegion\<close> answers that region, in whatever order the maps are visited.
\<close>

lemma region_listing_exact:
  assumes "is_order ord" and "is_order ord'"
    and "region_run ord cs new_region_manager = (rm, rs)"
  shows "get_region_servers ord' rid rm = list_servers_in_region ord' rid rm
    \<and> (case get_region_servers ord' rid rm of
         Ok xs \<Rightarrow> is_ok (region_get rid rm) \<and> distinct xs
           \<and> (\<forall>s. s \<in> set xs \<longleftrightarrow> get_server_region s rm = Ok rid)
       | Err e \<Rightarrow> e = region_not_found rid \<and> \<not> is_ok (region_get rid rm)
       | _ \<Rightarrow> False)"
proof -
  have inv: "region_inv rm"
    using region_run_refines [OF assms(1) region_inv_new, of cs] assms(3) by simp
  show ?thesis
  proof (cases "has_key (rm_regions rm) rid")
    case True
    then show ?thesis
      using region_servers_eq [OF assms(2) inv True]
      by (auto simp: get_server_region_def region_get_def has_key_iff split: option.splits)
  next
    case False
    then show ?thesis
      by (simp add: get_region_servers_def list_servers_in_region_def region_get_def has_key_iff)
  qed
qed

text \<open>
  Removing a region leaves no trace of it: its servers are in no region afterwards, every
  other server stays where it was, every other region stays, and a region added again under the
  same id starts empty.
\<close>

lemma remove_region_clean:
  assumes "is_order ord" and "is_order ord'" and "region_run ord cs new_region_manager = (rm, rs)"
    and "remove_region ord rid rm = (rm', Ok ())"
  shows "get_server_region s rm' =
      (if get_server_region s rm = Ok rid
       then Err (Errorf ''server %s not assigned to any region'' [FStr s]) else get_server_region s rm)
    \<and> region_get i rm' = (if i = rid then Err (region_not_found rid) else region_get i rm)
    \<and> get_region_servers ord' rid (fst (add_region rid name d rm')) = Ok []"
proof -
  have inv: "region_inv rm"
    using region_run_refines [OF assms(1) region_inv_new, of cs] assms(3) by simp
  then have wf: "wf_map (rm_servers rm)" by (simp add: region_inv_def)
  have rm': "map_of (rm_servers rm') k
      = (if map_of (rm_servers rm) k = Some rid then None else map_of (rm_servers rm) k)"
    "map_of (rm_regions rm') k = (if k = rid then None else map_of (rm_regions rm) k)" for k
    using assms(4) remove_loop_lookup [OF assms(1) wf]
    by (auto simp: remove_region_def split: if_splits)
  let ?rm = "fst (add_region rid name d rm')"
  have "region_inv rm'"
    using region_exec_inv [OF assms(1) inv, of "RemoveRegion rid"] assms(4)
    by (simp add: region_exec_def)
  then have "region_inv ?rm"
    using region_exec_inv [OF assms(1), of rm' "AddRegion rid name d"] by (simp add: region_exec_def)
  moreover have "has_key (rm_regions ?rm) rid" and "rm_servers ?rm = rm_servers rm'"
    by (simp_all add: add_region_def has_key_iff rm'(2))
  ultimately have "get_region_servers ord' rid ?rm = Ok []"
    using region_servers_eq [OF assms(2), of ?rm rid]
    by (auto simp: rm' simp del: set_empty simp: set_empty [symmetric])
  then show ?thesis
    by (auto simp: get_server_region_def region_get_def rm' split: option.splits)
qed

section \<open>Witnesses\<close>

definition demo_history :: "region_op list" where
  "demo_history =
     [AddRegion ''eu'' ''Europe'' [], AddRegion ''us'' ''America'' [],
      AssignServer ''s1'' ''eu'', AssignServer ''s2'' ''us'', AssignServer ''s3'' ''eu'',
      AddRegion ''eu'' ''again'' [], AssignServer ''s4'' ''nowhere'']"

definition demo_answers :: "unit outcome list" where
  "demo_answers =
     [Ok (), Ok (), Ok (), Ok (), Ok (), Err (Errorf ''region %s already exists'' [FStr ''eu'']),
      Err (region_not_found ''nowhere'')]"

definition demo_regions :: region_manager where
  "demo_regions = fst (region_run rev demo_history new_region_manager)"

lemma demo_run_regions:
  "region_run rev demo_history new_region_manager = (demo_regions, demo_answers)"
  by code_simp

theorem region_manager_refines_witness:
  "region_inv demo_regions
   \<and> snd (spec_run demo_history \<lparr>sp_regions = (\<lambda>_. None), sp_place = (\<lambda>_. None)\<rparr>) = demo_answers"
  using region_manager_refines [OF is_order_rev demo_run_regions] by simp

theorem region_listing_exact_witness:
  "get_region_servers (\<lambda>x. x) ''eu'' demo_regions
     = list_servers_in_region (\<lambda>x. x) ''eu'' demo_regions
   \<and> get_region_servers (\<lambda>x. x) ''eu'' demo_regions = Ok [''s1'', ''s3'']"
proof -
  have "get_region_servers (\<lambda>x. x) ''eu'' demo_regions = Ok [''s1'', ''s3'']" by code_simp
  then show ?thesis
    using region_listing_exact [OF is_order_rev is_order_id demo_run_regions, of "''eu''"] by simp
qed

lemma remove_region_clean_witness:
  "get_region_servers rev ''eu''
     (fst (add_region ''eu'' ''new'' [] (fst (remove_region rev ''eu'' demo_regions)))) = Ok []"
proof -
  have "remove_region rev ''eu'' demo_regions = (fst (remove_region rev ''eu'' demo_regions), Ok ())"
    by code_simp
  then show ?thesis
    using remove_region_clean [OF is_order_rev is_order_rev demo_run_regions] by blast
qed

end
