(* ===== verification/Servers.thy ===== *)
theory Servers
  imports Types
begin

text \<open>
  The structs that implement the interface \<open>TimeServer\<close>: the server (\<open>core/server/server.go\<close>),
  \<open>MockTimeServer\<close> (\<open>core/network/mock_server.go\<close>) and \<open>MockServer\<close>
  (\<open>core/network/mock_test_network.go\<close>), and the \<open>NetworkAdapter\<close> struct a server holds. The
  program shares servers by pointer, and \<open>SetRegion\<close> changes them in place, so a pointer is a
  number and a store maps it to the struct. \<open>iface c x\<close> is the interface value of the struct
  \<open>x\<close>; the interpretation \<open>srv\<close> at the end discharges the contract of \<open>time_servers\<close> for it.
\<close>

section \<open>The structs\<close>

type_synonym srv_ref = nat

record adapter =
  ad_region :: string
  ad_servers :: "(string, srv_ref) gomap"

text \<open>The fast path handler of a server: its pointer to the server is left implicit.\<close>

record server_fast_path =
  sf_mu :: rwmutex

record core_server =
  sv_id :: string
  sv_region :: string
  sv_priv :: bytes
  sv_pub :: bytes
  sv_network :: adapter
  sv_fast_path :: server_fast_path

record mock_time_server =
  mt_id :: string
  mt_region :: string
  mt_pub :: bytes
  mt_priv :: bytes

record mock_server =
  ms_id :: string
  ms_region :: string
  ms_priv :: bytes
  ms_pub :: bytes
  ms_failures :: int
  ms_rtt :: duration

datatype srv = Core core_server | MockTS mock_time_server | MockSrv mock_server

type_synonym store = "srv_ref \<Rightarrow> srv"

section \<open>Constructors\<close>

definition new_adapter :: "string \<Rightarrow> adapter" where
  "new_adapter region = \<lparr>ad_region = region, ad_servers = []\<rparr>"

definition new_server_fast_path :: server_fast_path where
  "new_server_fast_path = \<lparr>sf_mu = Unlocked\<rparr>"

text \<open>\<open>keys\<close> is what \<open>ed25519.GenerateKey\<close> returns: the public and the private key.\<close>

definition new_mock_time_server :: "(bytes \<times> bytes) outcome \<Rightarrow> string \<Rightarrow> mock_time_server outcome" where
  "new_mock_time_server generated id' =
     bind_outcome generated (\<lambda>(pub, priv).
       Ok \<lparr>mt_id = id', mt_region = ''default'', mt_pub = pub, mt_priv = priv\<rparr>)"

definition new_mock_server :: "string \<Rightarrow> string \<Rightarrow> bytes \<Rightarrow> bytes \<Rightarrow> mock_server" where
  "new_mock_server id' region priv pub =
     \<lparr>ms_id = id', ms_region = region, ms_priv = priv, ms_pub = pub, ms_failures = 0,
      ms_rtt = 50 * millisecond\<rparr>"

section \<open>The methods\<close>

text \<open>Those of the server.\<close>

definition server_get_id :: "core_server \<Rightarrow> string" where
  [simp]: "server_get_id s = sv_id s"

definition server_get_region :: "core_server \<Rightarrow> string" where
  [simp]: "server_get_region s = sv_region s"

definition server_get_public_key :: "core_server \<Rightarrow> bytes" where
  [simp]: "server_get_public_key s = sv_pub s"

definition server_sign :: "ed25519 \<Rightarrow> core_server \<Rightarrow> bytes \<Rightarrow> bytes outcome" where
  "server_sign c s m = ed25519_sign c (sv_priv s) m"

text \<open>A wrong signature is a new error with the text of the sentinel error.\<close>

definition server_verify :: "ed25519 \<Rightarrow> core_server \<Rightarrow> bytes \<Rightarrow> bytes \<Rightarrow> unit outcome" where
  "server_verify c s m sig =
     bind_outcome (ed25519_verify c (sv_pub s) m sig)
       (\<lambda>b. if b then Ok () else Err (Errorf ''invalid signature'' []))"

definition server_get_fast_path :: "core_server \<Rightarrow> server_fast_path" where
  [simp]: "server_get_fast_path s = sv_fast_path s"

definition server_set_region :: "string \<Rightarrow> core_server \<Rightarrow> core_server" where
  [simp]: "server_set_region g s = s\<lparr>sv_region := g\<rparr>"

text \<open>Those of the interface, for each struct.\<close>

fun srv_id :: "srv \<Rightarrow> string" where
  "srv_id (Core s) = server_get_id s"
| "srv_id (MockTS s) = mt_id s"
| "srv_id (MockSrv s) = ms_id s"

fun srv_region :: "srv \<Rightarrow> string" where
  "srv_region (Core s) = server_get_region s"
| "srv_region (MockTS s) = mt_region s"
| "srv_region (MockSrv s) = ms_region s"

fun srv_public :: "srv \<Rightarrow> bytes" where
  "srv_public (Core s) = server_get_public_key s"
| "srv_public (MockTS s) = mt_pub s"
| "srv_public (MockSrv s) = ms_pub s"

fun srv_private :: "srv \<Rightarrow> bytes" where
  "srv_private (Core s) = sv_priv s"
| "srv_private (MockTS s) = mt_priv s"
| "srv_private (MockSrv s) = ms_priv s"

text \<open>\<open>SetRegion\<close> always returns nil.\<close>

fun srv_set_region :: "string \<Rightarrow> srv \<Rightarrow> srv" where
  "srv_set_region g (Core s) = Core (server_set_region g s)"
| "srv_set_region g (MockTS s) = MockTS (s\<lparr>mt_region := g\<rparr>)"
| "srv_set_region g (MockSrv s) = MockSrv (s\<lparr>ms_region := g\<rparr>)"

definition mock_set_latency :: "duration \<Rightarrow> mock_server \<Rightarrow> mock_server" where
  "mock_set_latency d s = s\<lparr>ms_rtt := d\<rparr>"

fun wrong_signature :: "srv \<Rightarrow> goerr" where
  "wrong_signature (Core _) = Errorf ''invalid signature'' []"
| "wrong_signature (MockTS _) = ErrInvalidSignature"
| "wrong_signature (MockSrv _) = ErrInvalidSignature"

text \<open>The mocks sign and verify in the same way, but return the sentinel error.\<close>

definition srv_sign :: "ed25519 \<Rightarrow> srv \<Rightarrow> bytes \<Rightarrow> bytes outcome" where
  "srv_sign c x m =
     (case x of Core s \<Rightarrow> server_sign c s m
      | MockTS s \<Rightarrow> ed25519_sign c (mt_priv s) m
      | MockSrv s \<Rightarrow> ed25519_sign c (ms_priv s) m)"

definition srv_verify :: "ed25519 \<Rightarrow> srv \<Rightarrow> bytes \<Rightarrow> bytes \<Rightarrow> unit outcome" where
  "srv_verify c x m sig =
     (case x of Core s \<Rightarrow> server_verify c s m sig
      | MockTS s \<Rightarrow> bind_outcome (ed25519_verify c (mt_pub s) m sig)
          (\<lambda>b. if b then Ok () else Err ErrInvalidSignature)
      | MockSrv s \<Rightarrow> bind_outcome (ed25519_verify c (ms_pub s) m sig)
          (\<lambda>b. if b then Ok () else Err ErrInvalidSignature))"

lemma srv_sign_eq: "srv_sign c x m = ed25519_sign c (srv_private x) m"
  by (cases x) (simp_all add: srv_sign_def server_sign_def)

lemma srv_verify_eq:
  "srv_verify c x m sig = bind_outcome (ed25519_verify c (srv_public x) m sig)
     (\<lambda>b. if b then Ok () else Err (wrong_signature x))"
  by (cases x) (simp_all add: srv_verify_def server_verify_def cong: if_cong)

definition iface :: "ed25519 \<Rightarrow> srv \<Rightarrow> time_server" where
  "iface c x =
     \<lparr>get_id = srv_id x, get_region = srv_region x, get_public_key = srv_public x,
      sign_op = srv_sign c x, verify_op = srv_verify c x\<rparr>"

section \<open>The contract\<close>

definition key_pair :: "srv \<Rightarrow> bool" where
  "key_pair x \<longleftrightarrow>
     length (srv_private x) = private_key_size \<and> srv_public x = take 32 (drop 32 (srv_private x))"

lemma iface_fields [simp]:
  "get_id (iface c x) = srv_id x" "get_region (iface c x) = srv_region x"
  "get_public_key (iface c x) = srv_public x" "sign_op (iface c x) = srv_sign c x"
  "verify_op (iface c x) = srv_verify c x"
  by (simp_all add: iface_def)

lemma srv_set_region_fields [simp]:
  "srv_id (srv_set_region g x) = srv_id x" "srv_region (srv_set_region g x) = g"
  "srv_public (srv_set_region g x) = srv_public x"
  "srv_private (srv_set_region g x) = srv_private x"
  by (cases x; simp)+

lemma key_pair_set_region [simp]: "key_pair (srv_set_region g x) = key_pair x"
  by (simp add: key_pair_def)

lemma key_pair_verify:
  assumes "ed25519_spec c" and "key_pair x" and "srv_sign c x m = Ok sig"
  shows "ed25519_verify c (srv_public x) m sig = Ok True"
  using assms
  by (auto simp: key_pair_def srv_sign_eq ed25519_sign_def ed25519_verify_def ed25519_spec_def
      public_key_size_def private_key_size_def)

interpretation srv: time_servers "\<lambda>(c, x). iface c x" "\<lambda>(c, x). ed25519_spec c \<and> key_pair x"
proof unfold_locales
  fix s :: "ed25519 \<times> srv" and m :: bytes
  assume "case s of (c, x) \<Rightarrow> ed25519_spec c \<and> key_pair x"
  then show "\<exists>sig. sign_op (case s of (c, x) \<Rightarrow> iface c x) m = Ok sig"
    by (auto simp: srv_sign_eq ed25519_sign_def key_pair_def)
next
  fix s :: "ed25519 \<times> srv" and m sig :: bytes
  assume "case s of (c, x) \<Rightarrow> ed25519_spec c \<and> key_pair x"
    and "sign_op (case s of (c, x) \<Rightarrow> iface c x) m = Ok sig"
  then show "verify_op (case s of (c, x) \<Rightarrow> iface c x) m sig = Ok ()"
    by (auto simp: srv_verify_eq key_pair_verify split: prod.splits)
qed

text \<open>A signature of the wrong size is rejected by every kind of server.\<close>

lemma srv_verify_wrong_length:
  "length (srv_public x) = public_key_size \<Longrightarrow> length sig \<noteq> signature_size \<Longrightarrow>
   srv_verify c x m sig = Err (wrong_signature x)"
  by (simp add: srv_verify_eq ed25519_verify_wrong_length)

end
