(* ===== verification/Network.thy ===== *)
theory Network
  imports Servers
begin

text \<open>
  The registries of servers: \<open>NetworkAdapter\<close> (\<open>core/network/adapters.go\<close>),
  \<open>MockTimeNetwork\<close> (\<open>mock_network.go\<close>) and \<open>MockNetwork\<close> (\<open>mock_test_network.go\<close>). All
  three map a server's id to its pointer; the mocks keep a list of pointers per region too.
  The locale \<open>server_registry\<close> is what their clients rely on, and each of them is an
  interpretation of it.
\<close>

section \<open>The contract of a registry\<close>

definition ident :: "store \<Rightarrow> srv_ref \<Rightarrow> string" where
  "ident h r = srv_id (h r)"

definition region_at :: "store \<Rightarrow> srv_ref \<Rightarrow> string" where
  "region_at h r = srv_region (h r)"

text \<open>
  \<open>lookup\<close> is the abstraction of a registry. Only \<open>SetRegion\<close> changes a stored server, so the
  ids never change: \<open>ident h\<close> is the same function for every store of a run.
\<close>

locale server_registry =
  fixes add :: "store \<Rightarrow> srv_ref \<Rightarrow> 'n \<Rightarrow> 'n \<times> unit outcome"
    and remove :: "store \<Rightarrow> string \<Rightarrow> 'n \<Rightarrow> 'n \<times> unit outcome"
    and listing :: "(string list \<Rightarrow> string list) \<Rightarrow> 'n \<Rightarrow> srv_ref list"
    and lookup :: "'n \<Rightarrow> string \<Rightarrow> srv_ref option"
    and ok :: "(srv_ref \<Rightarrow> string) \<Rightarrow> 'n \<Rightarrow> bool"
  assumes add_ok: "ok (ident h) n \<Longrightarrow> ok (ident h) (fst (add h r n))"
    and remove_ok: "ok (ident h) n \<Longrightarrow> ok (ident h) (fst (remove h i n))"
    and add_lookup: "ok (ident h) n \<Longrightarrow> snd (add h r n) = Ok () \<Longrightarrow>
      lookup (fst (add h r n)) = (lookup n)(ident h r \<mapsto> r)"
    and add_failed: "snd (add h r n) \<noteq> Ok () \<Longrightarrow> fst (add h r n) = n"
    and remove_lookup: "ok (ident h) n \<Longrightarrow> lookup (fst (remove h i n)) = (lookup n)(i := None)"
    and listing_exact: "is_order ord \<Longrightarrow> ok f n \<Longrightarrow>
      distinct (map f (listing ord n)) \<and> set (listing ord n) = {r. lookup n (f r) = Some r}"
    and lookup_own: "ok f n \<Longrightarrow> lookup n i = Some r \<Longrightarrow> f r = i"
begin

text \<open>Searching the listing for an id finds what the map holds, whatever the iteration order.\<close>

lemma in_listing:
  "is_order ord \<Longrightarrow> ok f n \<Longrightarrow> r \<in> set (listing ord n) \<longleftrightarrow> lookup n (f r) = Some r"
  by (simp add: listing_exact)

lemma find_listing:
  assumes "is_order ord" and "ok f n"
  shows "List.find (\<lambda>r. f r = i) (listing ord n) = lookup n i"
proof (cases "lookup n i")
  case None
  have "f r \<noteq> i" if "r \<in> set (listing ord n)" for r
  proof
    assume "f r = i"
    with that None show False by (simp add: in_listing [OF assms])
  qed
  then show ?thesis using None by (simp add: find_None_iff_all)
next
  case (Some r)
  have f: "f r = i" using lookup_own [OF assms(2) Some] .
  have uniq: "y = r" if "y \<in> set (listing ord n)" "f y = i" for y
    using that Some by (simp add: in_listing [OF assms])
  have "r \<in> set (listing ord n)" using f Some by (simp add: in_listing [OF assms])
  then show ?thesis
    unfolding Some by (rule find_unique) (rule f, rule uniq)
qed

lemma listing_length:
  assumes "is_order ord" and "is_order ord'" and "ok f n"
  shows "length (listing ord n) = length (listing ord' n)"
proof -
  have "distinct (listing o' n)" if "is_order o'" for o'
    using listing_exact [OF that assms(3)] by (auto simp: distinct_map)
  moreover have "set (listing ord n) = set (listing ord' n)"
    using listing_exact [OF assms(1,3)] listing_exact [OF assms(2,3)] by simp
  ultimately show ?thesis using assms(1,2) by (metis distinct_card)
qed

text \<open>A server that was added is found, until another one replaces it or it is removed.\<close>

lemma added_found:
  assumes "is_order ord" and "ok (ident h) n" and "snd (add h r n) = Ok ()"
  shows "List.find (\<lambda>x. ident h x = ident h r) (listing ord (fst (add h r n))) = Some r"
  using find_listing [OF assms(1) add_ok [OF assms(2)]] add_lookup [OF assms(2,3)] by simp

lemma removed_not_found:
  assumes "is_order ord" and "ok (ident h) n"
  shows "List.find (\<lambda>x. ident h x = i) (listing ord (fst (remove h i n))) = None"
  using find_listing [OF assms(1) remove_ok [OF assms(2)]] remove_lookup [OF assms(2)] by simp

end

section \<open>\<open>NetworkAdapter\<close>\<close>

definition adapter_add :: "store \<Rightarrow> srv_ref \<Rightarrow> adapter \<Rightarrow> adapter \<times> unit outcome" where
  "adapter_add h r a = (a\<lparr>ad_servers := map_put (ident h r) r (ad_servers a)\<rparr>, Ok ())"

definition adapter_remove :: "string \<Rightarrow> adapter \<Rightarrow> adapter \<times> unit outcome" where
  "adapter_remove i a = (a\<lparr>ad_servers := map_del i (ad_servers a)\<rparr>, Ok ())"

definition adapter_servers :: "(string list \<Rightarrow> string list) \<Rightarrow> adapter \<Rightarrow> srv_ref list" where
  "adapter_servers ord a = map snd (go_range ord (ad_servers a))"

definition adapter_by_region ::
  "(string list \<Rightarrow> string list) \<Rightarrow> store \<Rightarrow> string \<Rightarrow> adapter \<Rightarrow> srv_ref list" where
  "adapter_by_region ord h g a =
     filter (\<lambda>r. region_at h r = g) (map snd (go_range ord (ad_servers a)))"

definition adapter_status :: "(string list \<Rightarrow> string list) \<Rightarrow> adapter \<Rightarrow> network_status" where
  "adapter_status ord a =
     \<lparr>ns_status = ''healthy'', ns_region = ad_region a,
      ns_peer_count = int (length (adapter_servers ord a)), ns_latest_round = 0\<rparr>"

text \<open>The rest of the adapter hands its arguments to the peer-to-peer network and returns its answer.\<close>

record p2p_iface =
  p2p_start :: "unit outcome"
  p2p_stop :: "unit outcome"
  p2p_broadcast :: "string \<Rightarrow> bytes \<Rightarrow> unit outcome"
  p2p_send :: "string \<Rightarrow> string \<Rightarrow> bytes \<Rightarrow> unit outcome"

definition adapter_start :: "p2p_iface \<Rightarrow> unit outcome" where
  "adapter_start p = p2p_start p"

definition adapter_stop :: "p2p_iface \<Rightarrow> unit outcome" where
  "adapter_stop p = p2p_stop p"

definition adapter_broadcast :: "p2p_iface \<Rightarrow> string \<Rightarrow> bytes \<Rightarrow> unit outcome" where
  "adapter_broadcast p proto data = p2p_broadcast p proto data"

definition adapter_send :: "p2p_iface \<Rightarrow> string \<Rightarrow> string \<Rightarrow> bytes \<Rightarrow> unit outcome" where
  "adapter_send p peer proto data = p2p_send p peer proto data"

definition adapter_get_timestamp :: "gotime \<Rightarrow> time_server \<Rightarrow> signed_timestamp outcome" where
  "adapter_get_timestamp now srv =
     (case sign_op srv (timestamp_to_bytes now) of
        Ok sig \<Rightarrow> Ok \<lparr>st_time = now, st_server = get_id srv, st_region = get_region srv, st_sig = sig\<rparr>
      | Err e \<Rightarrow> Err (Errorf ''failed to sign timestamp: %w'' [FErr e])
      | Panic p \<Rightarrow> Panic p
      | Blocked \<Rightarrow> Blocked)"

definition adapter_verify_timestamp :: "time_server \<Rightarrow> signed_timestamp \<Rightarrow> unit outcome" where
  "adapter_verify_timestamp srv ts = st_verify ts srv"

section \<open>The mock networks\<close>

record mock_net =
  mn_servers :: "(string, srv_ref) gomap"
  mn_regions :: "(string, srv_ref list) gomap"

definition new_mock_net :: mock_net where
  "new_mock_net = \<lparr>mn_servers = [], mn_regions = []\<rparr>"

definition region_list :: "mock_net \<Rightarrow> string \<Rightarrow> srv_ref list" where
  "region_list n g = (case map_of (mn_regions n) g of None \<Rightarrow> [] | Some rs \<Rightarrow> rs)"

text \<open>The loops that cut the first server with the given id out of a region's slice.\<close>

fun cut_first :: "(srv_ref \<Rightarrow> bool) \<Rightarrow> srv_ref list \<Rightarrow> srv_ref list" where
  "cut_first P [] = []"
| "cut_first P (r # rs) = (if P r then rs else r # cut_first P rs)"

definition index_server :: "store \<Rightarrow> srv_ref \<Rightarrow> mock_net \<Rightarrow> mock_net" where
  "index_server h r n =
     n\<lparr>mn_servers := map_put (ident h r) r (mn_servers n),
       mn_regions := map_put (region_at h r) (region_list n (region_at h r) @ [r]) (mn_regions n)\<rparr>"

text \<open>\<open>MockTimeNetwork\<close>.\<close>

definition mtn_add :: "store \<Rightarrow> srv_ref \<Rightarrow> mock_net \<Rightarrow> mock_net \<times> unit outcome" where
  "mtn_add h r n =
     (if has_key (mn_servers n) (ident h r) then (n, Err ErrServerExists)
      else (index_server h r n, Ok ()))"

definition mtn_remove :: "store \<Rightarrow> string \<Rightarrow> mock_net \<Rightarrow> mock_net \<times> unit outcome" where
  "mtn_remove h i n =
     (case map_of (mn_servers n) i of
        None \<Rightarrow> (n, Ok ())
      | Some r \<Rightarrow>
          let g = region_at h r; rs = region_list n g; n' = n\<lparr>mn_servers := map_del i (mn_servers n)\<rparr>
          in (if list_ex (\<lambda>s. ident h s = i) rs
              then n'\<lparr>mn_regions := map_put g (cut_first (\<lambda>s. ident h s = i) rs) (mn_regions n)\<rparr>
              else n', Ok ()))"

definition mock_servers :: "(string list \<Rightarrow> string list) \<Rightarrow> mock_net \<Rightarrow> srv_ref list" where
  "mock_servers ord n = map snd (go_range ord (mn_servers n))"

text \<open>A missing region gives nil, which has no elements either.\<close>

definition mock_by_region :: "string \<Rightarrow> mock_net \<Rightarrow> srv_ref list" where
  "mock_by_region g n = region_list n g"

definition mtn_status :: "mock_net \<Rightarrow> network_status" where
  "mtn_status n =
     \<lparr>ns_status = ''healthy'', ns_region = ''mock-region'',
      ns_peer_count = int (length (mn_servers n)), ns_latest_round = 1\<rparr>"

text \<open>Its methods of the peer-to-peer network do nothing.\<close>

definition mtn_p2p :: p2p_iface where
  "mtn_p2p = \<lparr>p2p_start = Ok (), p2p_stop = Ok (), p2p_broadcast = (\<lambda>proto d. Ok ()),
     p2p_send = (\<lambda>p proto d. Ok ())\<rparr>"

definition mtn_get_timestamp :: "gotime \<Rightarrow> time_server \<Rightarrow> signed_timestamp outcome" where
  "mtn_get_timestamp now srv =
     bind_outcome (sign_op srv (timestamp_to_bytes now))
       (\<lambda>sig. Ok \<lparr>st_time = now, st_server = get_id srv, st_region = get_region srv, st_sig = sig\<rparr>)"

definition mtn_verify_timestamp :: "time_server \<Rightarrow> signed_timestamp \<Rightarrow> unit outcome" where
  "mtn_verify_timestamp srv ts = st_verify ts srv"

text \<open>\<open>MockNetwork\<close> takes \<open>MockServer\<close>s only.\<close>

definition mnet_add :: "store \<Rightarrow> srv_ref \<Rightarrow> mock_net \<Rightarrow> mock_net \<times> unit outcome" where
  "mnet_add h r n =
     (if has_key (mn_servers n) (ident h r) then (n, Err ErrServerExists)
      else case h r of
        MockSrv _ \<Rightarrow> (index_server h r n, Ok ())
      | _ \<Rightarrow> (n, Err (Errorf ''only MockServer instances are supported'' [])))"

definition mnet_remove :: "store \<Rightarrow> string \<Rightarrow> mock_net \<Rightarrow> mock_net \<times> unit outcome" where
  "mnet_remove h i n =
     (case map_of (mn_servers n) i of
        None \<Rightarrow> (n, Err ErrServerNotFound)
      | Some r \<Rightarrow>
          let g = region_at h r; n' = n\<lparr>mn_servers := map_del i (mn_servers n)\<rparr>
          in (case map_of (mn_regions n) g of
                None \<Rightarrow> n'
              | Some rs \<Rightarrow>
                  let rs' = (if list_ex (\<lambda>s. ident h s = i) rs
                             then cut_first (\<lambda>s. ident h s = i) rs else rs)
                  in n'\<lparr>mn_regions := (if rs' = [] then map_del g (mn_regions n)
                                       else map_put g rs' (mn_regions n))\<rparr>, Ok ()))"

definition new_mock_network :: mock_net where
  "new_mock_network = \<lparr>mn_servers = [], mn_regions = []\<rparr>"

definition mnet_servers :: "(string list \<Rightarrow> string list) \<Rightarrow> mock_net \<Rightarrow> srv_ref list" where
  "mnet_servers ord n = map snd (go_range ord (mn_servers n))"

definition mnet_by_region :: "string \<Rightarrow> mock_net \<Rightarrow> srv_ref list" where
  "mnet_by_region g n = (case map_of (mn_regions n) g of Some rs \<Rightarrow> rs | None \<Rightarrow> [])"

definition mnet_start :: "mock_net \<Rightarrow> mock_net \<times> unit outcome" where
  "mnet_start n = (n, Ok ())"

definition mnet_stop :: "mock_net \<Rightarrow> mock_net \<times> unit outcome" where
  "mnet_stop n = (n, Ok ())"

definition mnet_status :: "mock_net \<Rightarrow> network_status" where
  "mnet_status n =
     \<lparr>ns_status = ''healthy'', ns_region = ''test'',
      ns_peer_count = int (length (mn_servers n)), ns_latest_round = 0\<rparr>"

text \<open>The two mocks are built and listed alike.\<close>

lemma mock_networks_alike:
  "new_mock_network = new_mock_net" "mnet_servers ord n = mock_servers ord n"
  "mnet_by_region g n = mock_by_region g n"
  by (simp_all add: new_mock_network_def new_mock_net_def mnet_servers_def mock_servers_def
      mnet_by_region_def mock_by_region_def region_list_def split: option.split)

section \<open>The three registries meet the contract\<close>

definition registered :: "(srv_ref \<Rightarrow> string) \<Rightarrow> (string, srv_ref) gomap \<Rightarrow> bool" where
  "registered f m \<longleftrightarrow> wf_map m \<and> list_all (\<lambda>e. f (snd e) = fst e) m"

lemma registered_lookup:
  "registered f m \<longleftrightarrow> wf_map m \<and> (\<forall>i r. map_of m i = Some r \<longrightarrow> f r = i)"
  by (cases "wf_map m") (simp_all add: registered_def wf_map_list_all)

lemma registered_Nil [simp]: "registered f []"
  by (simp add: registered_def)

lemma registered_put: "registered f m \<Longrightarrow> registered f (map_put (f r) r m)"
  by (simp add: registered_lookup)

lemma registered_del: "registered f m \<Longrightarrow> registered f (map_del i m)"
  by (simp add: registered_lookup)

lemma registered_own: "registered f m \<Longrightarrow> map_of m i = Some r \<Longrightarrow> f r = i"
  by (simp add: registered_lookup)

lemma registered_listing:
  assumes "is_order ord" and "registered f m"
  shows "distinct (map f (map snd (go_range ord m)))
    \<and> set (map snd (go_range ord m)) = {r. map_of m (f r) = Some r}"
proof -
  have wf: "wf_map m" and own: "\<forall>e \<in> set m. f (snd e) = fst e"
    using assms(2) by (simp_all add: registered_def list_all_iff)
  have es: "set (go_range ord m) = set m" by (rule set_go_range [OF assms(1) wf])
  have "map f (map snd (go_range ord m)) = map fst (go_range ord m)"
    using own by (simp add: es)
  then have "distinct (map f (map snd (go_range ord m)))"
    using distinct_go_range [OF assms(1) wf] by (simp only:)
  moreover have "set (map snd (go_range ord m)) = {r. map_of m (f r) = Some r}"
    using own by (force simp: es wf_map_of_iff [OF wf])
  ultimately show ?thesis by blast
qed

lemma index_server_servers [simp]:
  "mn_servers (index_server h r n) = map_put (ident h r) r (mn_servers n)"
  by (simp add: index_server_def)

lemma mtn_remove_servers [simp]: "mn_servers (fst (mtn_remove h i n)) = map_del i (mn_servers n)"
  by (simp add: mtn_remove_def Let_def delete_id split: option.split)
    (simp add: map_of_eq_None_iff)

lemma mnet_remove_servers [simp]: "mn_servers (fst (mnet_remove h i n)) = map_del i (mn_servers n)"
  by (simp add: mnet_remove_def Let_def split: option.split)
    (simp add: map_of_eq_None_iff)

interpretation adapter: server_registry adapter_add "\<lambda>h. adapter_remove" adapter_servers
    "\<lambda>a. map_of (ad_servers a)" "\<lambda>f a. registered f (ad_servers a)"
  by unfold_locales
    (simp_all add: adapter_add_def adapter_remove_def adapter_servers_def registered_put
      registered_del registered_listing fun_eq_iff registered_own del: map_map set_map)

interpretation mtn: server_registry mtn_add mtn_remove mock_servers
    "\<lambda>n. map_of (mn_servers n)" "\<lambda>f n. registered f (mn_servers n)"
  by unfold_locales
    (simp_all add: mtn_add_def mock_servers_def registered_put registered_del registered_listing
      fun_eq_iff registered_own del: map_map set_map split: if_splits)

interpretation mnet: server_registry mnet_add mnet_remove mnet_servers
    "\<lambda>n. map_of (mn_servers n)" "\<lambda>f n. registered f (mn_servers n)"
  by unfold_locales
    (simp_all add: mnet_add_def mnet_servers_def registered_put registered_del registered_listing
      fun_eq_iff registered_own del: map_map set_map split: if_splits srv.split srv.splits)

section \<open>Histories\<close>

text \<open>
  A history adds, removes, or changes the region of a server through its pointer, which the
  registry does not see. \<open>reg_spec\<close> says which servers are registered: with \<open>replace\<close> an add
  replaces a server of the same id (the adapter), without it the add is refused (the mocks).
\<close>

datatype reg_op = RegAdd srv_ref | RegRemove string | RegMove srv_ref string

definition move_server :: "srv_ref \<Rightarrow> string \<Rightarrow> store \<Rightarrow> store" where
  "move_server r g h = h(r := srv_set_region g (h r))"

fun reg_run ::
  "(store \<Rightarrow> srv_ref \<Rightarrow> 'n \<Rightarrow> 'n \<times> unit outcome) \<Rightarrow> (store \<Rightarrow> string \<Rightarrow> 'n \<Rightarrow> 'n \<times> unit outcome)
   \<Rightarrow> reg_op list \<Rightarrow> store \<Rightarrow> 'n \<Rightarrow> store \<times> 'n" where
  "reg_run add rm [] h n = (h, n)"
| "reg_run add rm (RegAdd r # cs) h n = reg_run add rm cs h (fst (add h r n))"
| "reg_run add rm (RegRemove i # cs) h n = reg_run add rm cs h (fst (rm h i n))"
| "reg_run add rm (RegMove r g # cs) h n = reg_run add rm cs (move_server r g h) n"

fun reg_spec ::
  "bool \<Rightarrow> (srv_ref \<Rightarrow> string) \<Rightarrow> reg_op list \<Rightarrow> (string \<Rightarrow> srv_ref option) \<Rightarrow> (string \<Rightarrow> srv_ref option)"
where
  "reg_spec replace f [] m = m"
| "reg_spec replace f (RegAdd r # cs) m =
     reg_spec replace f cs (if replace \<or> m (f r) = None then m(f r \<mapsto> r) else m)"
| "reg_spec replace f (RegRemove i # cs) m = reg_spec replace f cs (m(i := None))"
| "reg_spec replace f (RegMove r g # cs) m = reg_spec replace f cs m"

lemma ident_move_server [simp]: "ident (move_server r g h) = ident h"
  by (rule ext) (simp add: ident_def move_server_def)

lemma move_server_public [simp]: "srv_public (move_server r g h x) = srv_public (h x)"
  by (simp add: move_server_def)

lemma reg_run_public:
  "reg_run add rm cs h n = (h', n') \<Longrightarrow> srv_public (h' x) = srv_public (h x)"
  by (induction add rm cs h n arbitrary: h' n' rule: reg_run.induct) simp_all

context server_registry
begin

lemma run_refines:
  assumes "ok (ident h) n" and "good h"
    and "\<And>h r n. good h \<Longrightarrow> ok (ident h) n \<Longrightarrow>
      snd (add h r n) = Ok () \<longleftrightarrow> replace \<or> lookup n (ident h r) = None"
    and "\<And>h r g. good h \<Longrightarrow> good (move_server r g h)"
  shows "ident (fst (reg_run add remove cs h n)) = ident h
    \<and> ok (ident h) (snd (reg_run add remove cs h n))
    \<and> lookup (snd (reg_run add remove cs h n)) = reg_spec replace (ident h) cs (lookup n)"
  using assms(1,2)
proof (induction cs arbitrary: h n)
  case (Cons c cs)
  show ?case
  proof (cases c)
    case (RegAdd r)
    have "lookup (fst (add h r n))
        = (if replace \<or> lookup n (ident h r) = None then (lookup n)(ident h r \<mapsto> r) else lookup n)"
      using add_lookup [OF Cons.prems(1)] add_failed assms(3) [OF Cons.prems(2,1)] by metis
    then show ?thesis using Cons.IH [OF add_ok [OF Cons.prems(1)] Cons.prems(2)] by (simp add: RegAdd)
  next
    case (RegRemove i)
    then show ?thesis
      using Cons.IH [OF remove_ok [OF Cons.prems(1)] Cons.prems(2)] remove_lookup [OF Cons.prems(1)]
      by (simp del: fun_upd_apply)
  next
    case (RegMove r g)
    then show ?thesis using Cons.IH [of "move_server r g h" n] Cons.prems assms(4) by simp
  qed
qed simp

end

text \<open>
  C16. The network adapter implements its specification: after any history of \<open>AddServer\<close>,
  \<open>RemoveServer\<close> and \<open>SetRegion\<close>, whatever the iteration order, looking for an id in
  \<open>GetServers\<close> finds exactly the server added last under it, and \<open>GetServersByRegion\<close> lists
  exactly the registered servers whose region is the given one now, each once.
\<close>

theorem adapter_history:
  assumes "is_order ord"
    and "reg_run adapter_add (\<lambda>h. adapter_remove) cs h (new_adapter g0) = (h', a)"
  shows "List.find (\<lambda>r. ident h' r = i) (adapter_servers ord a)
      = reg_spec True (ident h) cs (\<lambda>_. None) i
    \<and> distinct (adapter_by_region ord h' g a)
    \<and> (r \<in> set (adapter_by_region ord h' g a) \<longleftrightarrow>
         reg_spec True (ident h) cs (\<lambda>_. None) (ident h' r) = Some r \<and> region_at h' r = g)"
proof -
  have new: "registered (ident h) (ad_servers (new_adapter g0))"
    "(\<lambda>i. map_of (ad_servers (new_adapter g0)) i) = (\<lambda>_. None)"
    by (simp_all add: new_adapter_def)
  have inv: "ident h' = ident h" "registered (ident h') (ad_servers a)"
    "map_of (ad_servers a) = reg_spec True (ident h) cs (\<lambda>_. None)"
    using adapter.run_refines [OF new(1), of "\<lambda>_. True" True cs] assms(2) new(2)
    by (simp_all add: adapter_add_def)
  have find: "List.find (\<lambda>r. ident h' r = i) (adapter_servers ord a) = map_of (ad_servers a) i"
    by (rule adapter.find_listing [OF assms(1) inv(2)])
  have all: "distinct (map (ident h') (adapter_servers ord a))"
    "set (adapter_servers ord a) = {r. map_of (ad_servers a) (ident h' r) = Some r}"
    using adapter.listing_exact [OF assms(1) inv(2)] by blast+
  have "adapter_by_region ord h' g a = filter (\<lambda>r. region_at h' r = g) (adapter_servers ord a)"
    by (simp add: adapter_by_region_def adapter_servers_def)
  then show ?thesis
    using find all by (auto simp: inv(1,3) distinct_map)
qed

lemma move_server_mock:
  "\<forall>r. \<exists>s. h r = MockSrv s \<Longrightarrow> \<forall>r. \<exists>s. move_server k g h r = MockSrv s"
  by (metis fun_upd_apply move_server_def srv_set_region.simps(3))

lemma mnet_add_mocks:
  "\<forall>r. \<exists>s. h r = MockSrv s \<Longrightarrow>
   snd (mnet_add h r n) = Ok () \<longleftrightarrow> False \<or> map_of (mn_servers n) (ident h r) = None"
  by (auto simp: mnet_add_def has_key_iff split: srv.split dest: spec [of _ r])

text \<open>
  The two mock networks implement the same specification, except that an id in use is
  refused: after any history a search by id finds exactly what the specification says. (A
  history for \<open>MockNetwork\<close> adds \<open>MockServer\<close>s only.)
\<close>

lemma mock_network_history:
  assumes "is_order ord"
    and "reg_run mtn_add mtn_remove cs h new_mock_net = (h1, n1)"
    and "reg_run mnet_add mnet_remove cs h new_mock_network = (h2, n2)"
    and "\<forall>r. \<exists>s. h r = MockSrv s"
  shows "List.find (\<lambda>r. ident h1 r = i) (mock_servers ord n1)
      = reg_spec False (ident h) cs (\<lambda>_. None) i
    \<and> List.find (\<lambda>r. ident h2 r = i) (mnet_servers ord n2)
      = reg_spec False (ident h) cs (\<lambda>_. None) i"
proof -
  have new: "registered (ident h) (mn_servers new_mock_net)"
    "map_of (mn_servers new_mock_net) = (\<lambda>_. None)" "new_mock_network = new_mock_net"
    by (simp_all add: new_mock_net_def new_mock_network_def fun_eq_iff)
  have 1: "ident h1 = ident h" "registered (ident h1) (mn_servers n1)"
    "map_of (mn_servers n1) = reg_spec False (ident h) cs (\<lambda>_. None)"
    using mtn.run_refines [OF new(1), of "\<lambda>_. True" False cs] assms(2)
    by (simp_all add: mtn_add_def has_key_iff new(2))
  have 2: "ident h2 = ident h" "registered (ident h2) (mn_servers n2)"
    "map_of (mn_servers n2) = reg_spec False (ident h) cs (\<lambda>_. None)"
    using mnet.run_refines [OF new(1) assms(4) mnet_add_mocks move_server_mock, of cs] assms(3)
    by (simp_all add: new(2,3))
  show ?thesis
    using mtn.find_listing [OF assms(1) 1(2)] mnet.find_listing [OF assms(1) 2(2)]
    by (simp add: 1(3) 2(3))
qed

section \<open>The region index of the mocks\<close>

text \<open>A region's list holds, once each, the registered servers whose region is that one.\<close>

definition index_ok :: "store \<Rightarrow> mock_net \<Rightarrow> bool" where
  "index_ok h n \<longleftrightarrow>
     registered (ident h) (mn_servers n)
     \<and> (\<forall>g. distinct (map (ident h) (region_list n g))
          \<and> set (region_list n g)
            = {r. map_of (mn_servers n) (ident h r) = Some r \<and> region_at h r = g})"

lemma cut_first_filter:
  "distinct (map f rs) \<Longrightarrow> cut_first (\<lambda>s. f s = i) rs = filter (\<lambda>s. f s \<noteq> i) rs"
proof (induction rs)
  case (Cons a rs)
  then have "filter (\<lambda>s. f s \<noteq> f a) rs = rs" by (intro filter_True) (force simp: image_iff)
  with Cons show ?case by auto
qed simp

lemma cut_first_absent: "\<not> list_ex P rs \<Longrightarrow> cut_first P rs = rs"
  by (induction rs) auto

lemma region_list_put [simp]:
  "mn_regions n' = map_put g rs (mn_regions n) \<Longrightarrow>
   region_list n' k = (if k = g then rs else region_list n k)"
  by (simp add: region_list_def)

lemma region_list_index_server [simp]:
  "region_list (index_server h r n) k =
     (if k = region_at h r then region_list n k @ [r] else region_list n k)"
  by (simp add: region_list_def index_server_def)

lemma mtn_remove_list:
  assumes "map_of (mn_servers n) i = Some r"
  shows "region_list (fst (mtn_remove h i n)) k =
    (if k = region_at h r then cut_first (\<lambda>s. ident h s = i) (region_list n k)
     else region_list n k)"
  using assms
  by (simp add: mtn_remove_def Let_def region_list_def cut_first_absent)

lemma mnet_remove_list:
  assumes "map_of (mn_servers n) i = Some r"
  shows "region_list (fst (mnet_remove h i n)) k =
    (if k = region_at h r then cut_first (\<lambda>s. ident h s = i) (region_list n k)
     else region_list n k)"
  using assms
  by (auto simp: mnet_remove_def Let_def region_list_def cut_first_absent split: option.splits)

lemma index_ok_new: "index_ok h new_mock_net"
  by (simp add: index_ok_def new_mock_net_def region_list_def)

lemma index_ok_add:
  assumes "index_ok h n" and "\<not> has_key (mn_servers n) (ident h r)"
  shows "index_ok h (index_server h r n)"
  using assms by (auto simp: index_ok_def registered_put has_key_iff)

lemma index_ok_cut:
  assumes "index_ok h n" and "map_of (mn_servers n) i = Some r"
    and "mn_servers n' = map_del i (mn_servers n)"
    and "\<And>k. region_list n' k =
      (if k = region_at h r then cut_first (\<lambda>s. ident h s = i) (region_list n k)
       else region_list n k)"
  shows "index_ok h n'"
proof -
  have own: "ident h r = i"
    using assms(1,2) registered_own by (auto simp: index_ok_def)
  have "distinct (map (ident h) (region_list n' k))
    \<and> set (region_list n' k)
      = {x. map_of (mn_servers n') (ident h x) = Some x \<and> region_at h x = k}" for k
  proof -
    have old: "distinct (map (ident h) (region_list n k))" "set (region_list n k)
        = {x. map_of (mn_servers n) (ident h x) = Some x \<and> region_at h x = k}" for k
      using assms(1) by (simp_all add: index_ok_def)
    have "x \<in> set (region_list n' k)
        \<longleftrightarrow> map_of (mn_servers n') (ident h x) = Some x \<and> region_at h x = k" for x
    proof (cases "ident h x = i")
      case True
      then have "x \<in> set (region_list n k) \<Longrightarrow> k = region_at h r" using old(2) assms(2) by simp
      with True show ?thesis
        by (cases "k = region_at h r") (auto simp: assms(3,4) cut_first_filter [OF old(1)])
    next
      case False
      then show ?thesis by (simp add: assms(3,4) cut_first_filter [OF old(1)] old(2))
    qed
    moreover have "distinct (map (ident h) (region_list n' k))"
      using old(1) by (simp add: assms(4) cut_first_filter distinct_map_filter)
    ultimately show ?thesis by blast
  qed
  moreover have "registered (ident h) (mn_servers n')"
    using assms(1,3) by (simp add: index_ok_def registered_del)
  ultimately show ?thesis by (simp add: index_ok_def)
qed

lemma index_ok_mtn:
  assumes "index_ok h n"
  shows "index_ok h (fst (mtn_add h r n))" and "index_ok h (fst (mtn_remove h i n))"
proof -
  show "index_ok h (fst (mtn_add h r n))"
    using assms index_ok_add by (simp add: mtn_add_def)
  show "index_ok h (fst (mtn_remove h i n))"
  proof (cases "map_of (mn_servers n) i")
    case None
    then show ?thesis using assms by (simp add: mtn_remove_def)
  next
    case (Some r)
    show ?thesis
      by (rule index_ok_cut [OF assms Some mtn_remove_servers mtn_remove_list [OF Some]])
  qed
qed

lemma index_ok_mnet:
  assumes "index_ok h n"
  shows "index_ok h (fst (mnet_add h r n))" and "index_ok h (fst (mnet_remove h i n))"
proof -
  show "index_ok h (fst (mnet_add h r n))"
    using assms index_ok_add by (simp add: mnet_add_def split: srv.split)
  show "index_ok h (fst (mnet_remove h i n))"
  proof (cases "map_of (mn_servers n) i")
    case None
    then show ?thesis using assms by (simp add: mnet_remove_def)
  next
    case (Some r)
    show ?thesis
      by (rule index_ok_cut [OF assms Some mnet_remove_servers mnet_remove_list [OF Some]])
  qed
qed

definition no_moves :: "reg_op list \<Rightarrow> bool" where
  "no_moves cs \<longleftrightarrow> list_all (\<lambda>c. case c of RegMove r g \<Rightarrow> False | _ \<Rightarrow> True) cs"

lemma index_ok_run:
  assumes "\<And>r n. index_ok h n \<Longrightarrow> index_ok h (fst (add h r n))"
    and "\<And>i n. index_ok h n \<Longrightarrow> index_ok h (fst (rm h i n))"
    and "no_moves cs" and "index_ok h n"
  shows "index_ok h (snd (reg_run add rm cs h n)) \<and> fst (reg_run add rm cs h n) = h"
  using assms(3,4)
proof (induction cs arbitrary: n)
  case (Cons c cs)
  then show ?case using assms(1,2) by (cases c) (simp_all add: no_moves_def)
qed simp

text \<open>
  As long as no server changes its region, the per-region slices of both mock networks are
  exact: after any history of adds and removes \<open>GetServersByRegion\<close> lists, once each, exactly
  the registered servers of that region.
\<close>

lemma mock_region_index:
  assumes "no_moves cs" and "(add, rm) \<in> {(mtn_add, mtn_remove), (mnet_add, mnet_remove)}"
    and "reg_run add rm cs h new_mock_net = (h', n)" and "is_order ord"
  shows "distinct (mock_by_region g n)
    \<and> (r \<in> set (mock_by_region g n) \<longleftrightarrow> r \<in> set (mock_servers ord n) \<and> region_at h r = g)"
proof -
  have "index_ok h (snd (reg_run add rm cs h new_mock_net))"
    using assms(2) index_ok_run [of h add rm cs] index_ok_mtn index_ok_mnet assms(1) index_ok_new
    by auto
  then have ok: "index_ok h n" by (simp add: assms(3))
  then have "set (mock_servers ord n) = {r. map_of (mn_servers n) (ident h r) = Some r}"
    using registered_listing [OF assms(4)] by (simp add: index_ok_def mock_servers_def del: set_map)
  then show ?thesis
    using ok by (auto simp: index_ok_def mock_by_region_def distinct_map)
qed

text \<open>
  A change of region while registered breaks that index in both mocks: \<open>RemoveServer\<close> cuts
  the server out of its present region's slice, so the slice of the region it was added under
  keeps listing a server that is no longer registered.
\<close>

lemma mock_region_stale:
  assumes "(add, rm) \<in> {(mtn_add, mtn_remove), (mnet_add, mnet_remove)}"
    and "add h r n = (n1, Ok ())" and "g \<noteq> region_at h r"
    and "rm (move_server r g h) (ident h r) n1 = (n2, ans)"
  shows "r \<in> set (mock_by_region (region_at h r) n2) \<and> map_of (mn_servers n2) (ident h r) = None"
proof -
  have n1: "n1 = index_server h r n"
    using assms(1,2) by (auto simp: mtn_add_def mnet_add_def split: if_splits srv.splits)
  have g: "region_at (move_server r g h) r = g" by (simp add: region_at_def move_server_def)
  have look: "map_of (mn_servers n1) (ident h r) = Some r" by (simp add: n1)
  have "n2 = fst (rm (move_server r g h) (ident h r) n1)" by (simp add: assms(4))
  moreover have "r \<in> set (region_list n1 (region_at h r))" by (simp add: n1)
  ultimately show ?thesis
    using assms(1,3) mtn_remove_list [OF look, of "move_server r g h" "region_at h r"]
      mnet_remove_list [OF look, of "move_server r g h" "region_at h r"]
    by (auto simp: mock_by_region_def g)
qed

section \<open>Timestamps from a registered server\<close>

text \<open>
  A timestamp that the adapter or the mock takes from a server with a proper key pair bears
  that server's id, region and the time it was taken, and verifies against it.
\<close>

lemma network_timestamp_verifies:
  assumes "ed25519_spec c" and "key_pair x"
  shows "\<exists>ts. adapter_get_timestamp now (iface c x) = Ok ts
      \<and> mtn_get_timestamp now (iface c x) = Ok ts
      \<and> adapter_verify_timestamp (iface c x) ts = Ok ()
      \<and> mtn_verify_timestamp (iface c x) ts = Ok ()
      \<and> st_time ts = now \<and> st_server ts = srv_id x \<and> st_region ts = srv_region x"
proof -
  have ok: "case (c, x) of (c, x) \<Rightarrow> ed25519_spec c \<and> key_pair x" using assms by simp
  obtain sig where sig: "srv_sign c x (timestamp_to_bytes now) = Ok sig"
    using srv.sign_total [OF ok, of "timestamp_to_bytes now"] by auto
  then have "srv_verify c x (timestamp_to_bytes now) sig = Ok ()"
    using srv.sign_verifies [OF ok, of "timestamp_to_bytes now" sig] by simp
  with sig show ?thesis
    by (simp add: adapter_get_timestamp_def mtn_get_timestamp_def adapter_verify_timestamp_def
        mtn_verify_timestamp_def st_verify_def timestamp_to_bytes_def)
qed

section \<open>Witnesses\<close>

definition demo_server :: "string \<Rightarrow> string \<Rightarrow> byte \<Rightarrow> srv" where
  "demo_server i g k =
     MockSrv (new_mock_server i g (replicate 32 0 @ replicate 32 k) (replicate 32 k))"

definition demo_store :: store where
  "demo_store r = demo_server (replicate (Suc r) CHR ''s'') (if even r then ''eu'' else ''us'') 7"

definition demo_ops :: "reg_op list" where
  "demo_ops = [RegAdd 0, RegAdd 1, RegAdd 2, RegRemove ''ss'', RegAdd 3]"

lemma demo_key_pair: "key_pair (demo_server i g k)"
  by (simp add: key_pair_def demo_server_def new_mock_server_def private_key_size_def)

theorem adapter_history_witness:
  "List.find (\<lambda>r. ident demo_store r = ''sss'')
     (adapter_servers rev (snd (reg_run adapter_add (\<lambda>h. adapter_remove) demo_ops demo_store
        (new_adapter ''eu''))))
   = reg_spec True (ident demo_store) demo_ops (\<lambda>_. None) ''sss''"
proof -
  let ?run = "reg_run adapter_add (\<lambda>h. adapter_remove) demo_ops demo_store (new_adapter ''eu'')"
  have "?run = (demo_store, snd ?run)" by (simp add: demo_ops_def)
  from adapter_history [OF is_order_rev this] show ?thesis by simp
qed

theorem mock_network_history_witness:
  "List.find (\<lambda>r. ident demo_store r = ''ss'')
     (mnet_servers rev (snd (reg_run mnet_add mnet_remove demo_ops demo_store new_mock_network)))
   = reg_spec False (ident demo_store) demo_ops (\<lambda>_. None) ''ss''"
proof -
  let ?r1 = "reg_run mtn_add mtn_remove demo_ops demo_store new_mock_net"
  let ?r2 = "reg_run mnet_add mnet_remove demo_ops demo_store new_mock_network"
  have "?r1 = (demo_store, snd ?r1)" and "?r2 = (demo_store, snd ?r2)"
    by (simp_all add: demo_ops_def)
  moreover have "\<forall>r. \<exists>s. demo_store r = MockSrv s"
    by (simp add: demo_store_def demo_server_def)
  ultimately show ?thesis using mock_network_history [OF is_order_rev, of demo_ops demo_store] by blast
qed

lemma mock_region_index_witness:
  "(0 \<in> set (mock_by_region ''eu'' (snd (reg_run mtn_add mtn_remove demo_ops demo_store new_mock_net))))
   = (0 \<in> set (mock_servers rev (snd (reg_run mtn_add mtn_remove demo_ops demo_store new_mock_net))))"
proof -
  let ?r = "reg_run mtn_add mtn_remove demo_ops demo_store new_mock_net"
  have "?r = (demo_store, snd ?r)" and "no_moves demo_ops"
    by (simp_all add: demo_ops_def no_moves_def)
  moreover have "region_at demo_store 0 = ''eu''"
    by (simp add: region_at_def demo_store_def demo_server_def new_mock_server_def)
  ultimately show ?thesis
    using mock_region_index [of demo_ops mtn_add mtn_remove demo_store demo_store _ rev] by auto
qed

lemma mock_region_stale_witness:
  "0 \<in> set (mock_by_region ''eu''
     (fst (mtn_remove (move_server 0 ''us'' demo_store) ''s'' (fst (mtn_add demo_store 0 new_mock_net)))))"
proof -
  let ?n1 = "fst (mtn_add demo_store 0 new_mock_net)"
  have reg: "region_at demo_store 0 = ''eu''" "ident demo_store 0 = ''s''"
    by (simp_all add: region_at_def ident_def demo_store_def demo_server_def new_mock_server_def)
  have "mtn_add demo_store 0 new_mock_net = (?n1, Ok ())"
    by (simp add: mtn_add_def new_mock_net_def has_key_iff)
  moreover have "''us'' \<noteq> region_at demo_store 0" by (simp add: reg)
  ultimately show ?thesis
    using mock_region_stale [of mtn_add mtn_remove demo_store 0 new_mock_net ?n1 "''us''"
        "fst (mtn_remove (move_server 0 ''us'' demo_store) ''s'' ?n1)"] reg
    by (metis insertI1 surjective_pairing)
qed

theorem network_timestamp_verifies_witness:
  "\<exists>ts. adapter_get_timestamp (Instant 5) (iface toy_ed25519 (demo_server ''s'' ''eu'' 7)) = Ok ts
     \<and> adapter_verify_timestamp (iface toy_ed25519 (demo_server ''s'' ''eu'' 7)) ts = Ok ()"
  using network_timestamp_verifies [OF toy_ed25519_spec demo_key_pair] by blast

end
