(* ===== verification/Server.thy ===== *)
theory Server
  imports Network Consensus
begin

text \<open>
  \<open>core/server\<close>: the server (\<open>server.go\<close>), its fast path handler (\<open>fastpath.go\<close>) and its
  messages (\<open>messages.go\<close>). The struct is \<open>core_server\<close> of \<open>Servers\<close>; its fast path handler
  is a pointer back to it, so the handler's methods take the server. The peers of a server are
  pointers into the store \<open>h\<close>. The key conversion of libp2p and the making of the peer-to-peer
  network are arguments of the constructor.
\<close>

section \<open>The server\<close>

definition bootstrap_validators :: "string list \<Rightarrow> (string, bool) gomap" where
  "bootstrap_validators peers = fold (\<lambda>p m. map_put p True m) peers []"

text \<open>The consensus engine that the constructor makes and drops.\<close>

definition server_consensus :: "string \<Rightarrow> string list \<Rightarrow> engine" where
  "server_consensus i peers = new_engine (new_state i (bootstrap_validators peers))"

definition new_server ::
  "unit outcome \<Rightarrow> unit outcome \<Rightarrow> string \<Rightarrow> string \<Rightarrow> bytes \<Rightarrow> core_server outcome" where
  "new_server convert p2p i region priv =
     bind_outcome (ed25519_public priv) (\<lambda>pub.
     bind_outcome (wrap_err ''failed to convert private key: %w'' convert) (\<lambda>_.
     bind_outcome (wrap_err ''failed to create P2P network: %w'' p2p) (\<lambda>_.
       Ok \<lparr>sv_id = i, sv_region = region, sv_priv = priv, sv_pub = pub,
           sv_network = new_adapter region, sv_fast_path = new_server_fast_path\<rparr>)))"

definition server_add_peer :: "store \<Rightarrow> srv_ref \<Rightarrow> core_server \<Rightarrow> core_server \<times> unit outcome" where
  "server_add_peer h r s =
     (case adapter_add h r (sv_network s) of (a, res) \<Rightarrow> (s\<lparr>sv_network := a\<rparr>, res))"

definition server_peers :: "(string list \<Rightarrow> string list) \<Rightarrow> core_server \<Rightarrow> srv_ref list" where
  "server_peers ord s = adapter_servers ord (sv_network s)"

definition server_start :: "p2p_iface \<Rightarrow> unit outcome" where
  "server_start p = adapter_start p"

definition server_stop :: "p2p_iface \<Rightarrow> unit outcome" where
  "server_stop p = adapter_stop p"

section \<open>The fast path handler\<close>

text \<open>The handler holds its own mutex while it signs; the other methods do not take it.\<close>

definition sfp_get_timestamp :: "ed25519 \<Rightarrow> gotime \<Rightarrow> core_server \<Rightarrow> signed_timestamp outcome" where
  "sfp_get_timestamp c now s =
     (case mutex_lock (sf_mu (server_get_fast_path s)) of
        None \<Rightarrow> Blocked
      | Some _ \<Rightarrow>
          let ts = \<lparr>st_time = now, st_server = server_get_id s, st_region = server_get_region s, st_sig = []\<rparr>
          in case st_sign ts (iface c (Core s)) of (ts', r) \<Rightarrow>
               bind_outcome (wrap_err ''failed to sign timestamp: %w'' r) (\<lambda>_. Ok ts'))"

definition sfp_verify_timestamp ::
  "ed25519 \<Rightarrow> (string list \<Rightarrow> string list) \<Rightarrow> store \<Rightarrow> core_server \<Rightarrow> signed_timestamp
   \<Rightarrow> unit outcome" where
  "sfp_verify_timestamp c ord h s ts =
     (if st_server ts = server_get_id s then st_verify ts (iface c (Core s))
      else case List.find (\<lambda>r. ident h r = st_server ts) (server_peers ord s) of
             Some r \<Rightarrow> st_verify ts (iface c (h r))
           | None \<Rightarrow> Err (Errorf ''server %s not found'' [FStr (st_server ts)]))"

definition sfp_status :: "(string list \<Rightarrow> string list) \<Rightarrow> core_server \<Rightarrow> network_status" where
  "sfp_status ord s =
     \<lparr>ns_status = ''healthy'', ns_region = server_get_region s,
      ns_peer_count = int (length (server_peers ord s)), ns_latest_round = 0\<rparr>"

definition sfp_validators ::
  "(string list \<Rightarrow> string list) \<Rightarrow> store \<Rightarrow> core_server \<Rightarrow> validator_info list" where
  "sfp_validators ord h s =
     map (\<lambda>r. \<lparr>vi_id = ident h r, vi_region = region_at h r, vi_status = ''active''\<rparr>)
       (server_peers ord s)"

definition sfp_get_region :: "core_server \<Rightarrow> string" where
  "sfp_get_region s = server_get_region s"

definition sfp_set_region :: "string \<Rightarrow> core_server \<Rightarrow> core_server" where
  "sfp_set_region g s = server_set_region g s"

section \<open>Messages\<close>

record fast_path_request =
  fr_request :: string
  fr_timestamp :: gotime
  fr_from :: string

record fast_path_response =
  fs_request :: string
  fs_timestamp :: gotime
  fs_signature :: bytes

definition server_timestamp_to_bytes :: "gotime \<Rightarrow> bytes" where
  "server_timestamp_to_bytes t = be_put_u64 (unix_nano t)"

text \<open>\<open>Encode\<close> throws the error of \<open>json.Marshal\<close> away: its bytes are nil then.\<close>

definition encode_ignoring :: "('a \<Rightarrow> bytes outcome) \<Rightarrow> 'a \<Rightarrow> bytes outcome" where
  "encode_ignoring marshal r =
     (case marshal r of Err e \<Rightarrow> Ok [] | res \<Rightarrow> res)"

definition fast_path_protocol :: string where
  "fast_path_protocol = ''/timeserver/fastpath/1.0.0''"

definition generate_request_id :: "(gotime \<Rightarrow> string \<Rightarrow> string) \<Rightarrow> gotime \<Rightarrow> string" where
  "generate_request_id format t = format t ''20060102150405.000000000''"

lemma server_timestamp_bytes: "server_timestamp_to_bytes = timestamp_to_bytes"
  by (rule ext) (simp add: server_timestamp_to_bytes_def timestamp_to_bytes_def)

section \<open>Lemmas\<close>

lemma new_server_OkD:
  assumes "new_server convert p2p i region priv = Ok s"
  shows "sv_id s = i" and "sv_region s = region" and "sv_priv s = priv"
    and "ed25519_public priv = Ok (sv_pub s)" and "sv_network s = new_adapter region"
    and "sv_fast_path s = new_server_fast_path"
  using assms
  by (auto simp: new_server_def outcome_simps)

lemma new_server_key_pair:
  "new_server convert p2p i region priv = Ok s \<Longrightarrow> length priv = private_key_size \<Longrightarrow>
   key_pair (Core s)"
proof -
  assume "new_server convert p2p i region priv = Ok s" and len: "length priv = private_key_size"
  note s = new_server_OkD [OF this(1)]
  have tail: "take 32 (drop 32 priv) = drop 32 priv" using len by (simp add: private_key_size_def)
  have "sv_pub s = drop 32 priv"
    using s(4) len
    by (simp add: ed25519_public_def public_key_size_def private_key_size_def Let_def)
  then have "sv_pub s = take 32 (drop 32 priv)" by (simp only: tail)
  then show ?thesis using s(3) len by (simp add: key_pair_def)
qed

lemma sfp_get_timestamp_ok:
  assumes "ed25519_spec c" and "key_pair (Core s)" and "sf_mu (sv_fast_path s) = Unlocked"
  shows "\<exists>ts. sfp_get_timestamp c now s = Ok ts \<and> st_verify ts (iface c (Core s)) = Ok ()
    \<and> st_time ts = now \<and> st_server ts = sv_id s \<and> st_region ts = sv_region s"
proof -
  have ok: "case (c, Core s) of (c, x) \<Rightarrow> ed25519_spec c \<and> key_pair x" using assms by simp
  let ?st = "\<lparr>st_time = now, st_server = server_get_id s, st_region = server_get_region s, st_sig = []\<rparr>"
  obtain ts r where run: "st_sign ?st (iface c (Core s)) = (ts, r)" by (rule prod.exhaust)
  then have "r = Ok () \<and> st_verify ts (iface c (Core s)) = Ok () \<and> st_time ts = now
      \<and> st_server ts = sv_id s \<and> st_region ts = sv_region s"
    using srv.st_sign_verify [OF ok, of ?st ts r] by simp
  then show ?thesis using run by (auto simp: sfp_get_timestamp_def Let_def assms(3))
qed

text \<open>Verification needs only the public key, which no operation of a server changes.\<close>

lemma st_verify_iface_cong:
  assumes "srv_public x = srv_public y" and "st_verify ts (iface c x) = Ok ()"
  shows "st_verify ts (iface c y) = Ok ()"
  using assms by (auto simp: st_verify_def srv_verify_eq outcome_simps split: if_splits)

section \<open>Properties\<close>

text \<open>
  Verification does not depend on the iteration order of the peer map and is decided by the
  server named in the timestamp: the server itself if it bears that id, else the peer registered
  last under it after any history of its peer network, else an error.
\<close>

lemma server_verify_resolves:
  assumes "is_order ord" and "new_server convert p2p i g priv = Ok s0"
    and "reg_run adapter_add (\<lambda>h. adapter_remove) cs h (sv_network s0) = (h', a)"
  shows "sfp_verify_timestamp c ord h' (s0\<lparr>sv_network := a\<rparr>) ts =
    (if st_server ts = i then st_verify ts (iface c (Core s0))
     else case reg_spec True (ident h) cs (\<lambda>_. None) (st_server ts) of
            Some r \<Rightarrow> st_verify ts (iface c (h' r))
          | None \<Rightarrow> Err (Errorf ''server %s not found'' [FStr (st_server ts)]))"
proof -
  note s0 = new_server_OkD [OF assms(2)]
  have new: "registered (ident h) (ad_servers (sv_network s0))"
    "map_of (ad_servers (sv_network s0)) = (\<lambda>_. None)"
    by (simp_all add: s0(5) new_adapter_def fun_eq_iff)
  have inv: "registered (ident h') (ad_servers a)"
    "map_of (ad_servers a) = reg_spec True (ident h) cs (\<lambda>_. None)"
    using adapter.run_refines [OF new(1), of "\<lambda>_. True" True cs] assms(3)
    by (simp_all add: adapter_add_def new(2))
  have "st_verify ts (iface c (Core (s0\<lparr>sv_network := a\<rparr>))) = st_verify ts (iface c (Core s0))"
    by (simp add: st_verify_def srv_verify_eq cong: if_cong)
  then show ?thesis
    using adapter.find_listing [OF assms(1) inv(1)]
    by (simp add: sfp_verify_timestamp_def server_peers_def s0(1) inv(2))
qed

text \<open>
  C30. A fresh server's timestamps are good: \<open>GetTimestamp\<close> of a server made from a private key of
  the right size returns a timestamp with its id, its region and the time of the call; the server
  itself accepts it, and so does every other server that has it as a peer, even after either of
  them has changed region, whatever the iteration order of the peer map.
\<close>

theorem server_timestamp_accepted:
  assumes "ed25519_spec c" and "length priv = private_key_size"
    and "new_server convert p2p i g priv = Ok s" and "is_order ord"
    and "h r = srv_set_region g' (Core s)"
    and "sv_id other \<noteq> i" and "registered (ident h) (ad_servers (sv_network other))"
  shows "\<exists>ts. sfp_get_timestamp c now s = Ok ts
    \<and> st_time ts = now \<and> st_server ts = i \<and> st_region ts = g
    \<and> sfp_verify_timestamp c ord h s ts = Ok ()
    \<and> sfp_verify_timestamp c ord h (fst (server_add_peer h r (sfp_set_region g'' other))) ts = Ok ()"
proof -
  note s = new_server_OkD [OF assms(3)]
  obtain ts where ts: "sfp_get_timestamp c now s = Ok ts" "st_verify ts (iface c (Core s)) = Ok ()"
    "st_time ts = now" "st_server ts = i" "st_region ts = g"
    using sfp_get_timestamp_ok [OF assms(1) new_server_key_pair [OF assms(3,2)], of now] s by (auto simp: new_server_fast_path_def)
  have own: "ident h r = i" by (simp add: ident_def assms(5) s(1))
  let ?o = "fst (server_add_peer h r (sfp_set_region g'' other))"
  have o: "sv_id ?o = sv_id other" "sv_network ?o = fst (adapter_add h r (sv_network other))"
    by (simp_all add: server_add_peer_def adapter_add_def sfp_set_region_def)
  have "List.find (\<lambda>x. ident h x = i) (server_peers ord ?o) = Some r"
    using adapter.added_found [OF assms(4,7), of r]
    by (simp add: server_peers_def o(2) own adapter_add_def)
  moreover have "st_verify ts (iface c (h r)) = Ok ()"
    by (rule st_verify_iface_cong [OF _ ts(2)]) (simp add: assms(5))
  ultimately show ?thesis
    using ts assms(6) s(1) by (simp add: sfp_verify_timestamp_def o(1))
qed

section \<open>Witnesses\<close>

definition demo_priv :: "byte \<Rightarrow> bytes" where
  "demo_priv k = replicate 32 0 @ replicate 32 k"

definition demo_core :: "string \<Rightarrow> byte \<Rightarrow> core_server" where
  "demo_core i k =
     \<lparr>sv_id = i, sv_region = ''eu'', sv_priv = demo_priv k, sv_pub = replicate 32 k,
      sv_network = new_adapter ''eu'', sv_fast_path = new_server_fast_path\<rparr>"

lemma demo_new_server: "new_server (Ok ()) (Ok ()) i ''eu'' (demo_priv k) = Ok (demo_core i k)"
  by (simp add: new_server_def ed25519_public_def demo_priv_def demo_core_def public_key_size_def)

lemma server_verify_resolves_witness:
  "sfp_verify_timestamp toy_ed25519 rev demo_store
     ((demo_core ''me'' 3)\<lparr>sv_network := snd (reg_run adapter_add (\<lambda>h. adapter_remove)
        [RegAdd 1, RegAdd 2, RegRemove ''sss''] demo_store (new_adapter ''eu''))\<rparr>)
     \<lparr>st_time = Instant 0, st_server = ''sss'', st_region = [], st_sig = []\<rparr>
   = Err (Errorf ''server %s not found'' [FStr ''sss''])"
proof -
  let ?cs = "[RegAdd 1, RegAdd 2, RegRemove ''sss'']"
  let ?run = "reg_run adapter_add (\<lambda>h. adapter_remove) ?cs demo_store
    (sv_network (demo_core ''me'' 3))"
  have "?run = (demo_store, snd ?run)" by simp
  from server_verify_resolves [OF is_order_rev demo_new_server this, of toy_ed25519
      "\<lparr>st_time = Instant 0, st_server = ''sss'', st_region = [], st_sig = []\<rparr>"]
  show ?thesis by (simp add: demo_core_def)
qed

theorem server_timestamp_accepted_witness:
  "\<exists>ts. sfp_get_timestamp toy_ed25519 (Instant 9) (demo_core ''a'' 1) = Ok ts
    \<and> sfp_verify_timestamp toy_ed25519 rev (\<lambda>_. Core (demo_core ''a'' 1))
        (fst (server_add_peer (\<lambda>_. Core (demo_core ''a'' 1)) 0
          (sfp_set_region ''us'' (demo_core ''b'' 2)))) ts = Ok ()"
proof -
  have "Core (demo_core ''a'' 1) = srv_set_region ''eu'' (Core (demo_core ''a'' 1))"
    and "sv_id (demo_core ''b'' 2) \<noteq> ''a''"
    and "registered f (ad_servers (sv_network (demo_core ''b'' 2)))" for f
    by (simp_all add: demo_core_def new_adapter_def)
  moreover have "length (demo_priv 1) = private_key_size"
    by (simp add: demo_priv_def private_key_size_def)
  ultimately show ?thesis
    using server_timestamp_accepted [OF toy_ed25519_spec _ demo_new_server is_order_rev] by metis
qed

end
