(* ===== verification/Service.thy ===== *)
theory Service
  imports Server
begin

text \<open>
  \<open>core/service/timestamp_service.go\<close> and \<open>grpc_adapter.go\<close>: the timestamp service and the
  gRPC adapter in front of it. A value of the interface \<open>TimeNetwork\<close> is the record of the
  answers its query methods give (\<open>mock_view\<close> makes it for the networks of \<open>Network\<close>, which
  visit their map in any order), and the answer of the fast path handler is an argument.
\<close>

section \<open>The service\<close>

record time_network =
  tn_servers :: "time_server list"
  tn_by_region :: "string \<Rightarrow> time_server list"
  tn_status :: "network_status outcome"

record timestamp_service =
  svc_region :: string

definition new_timestamp_service :: "string \<Rightarrow> timestamp_service" where
  "new_timestamp_service g = \<lparr>svc_region = g\<rparr>"

definition svc_get_timestamp :: "signed_timestamp outcome \<Rightarrow> signed_timestamp outcome" where
  "svc_get_timestamp fast = fast"

definition svc_verify_timestamp :: "time_network \<Rightarrow> signed_timestamp \<Rightarrow> unit outcome" where
  "svc_verify_timestamp net ts =
     (case List.find (\<lambda>s. get_id s = st_server ts) (tn_servers net) of
        Some s \<Rightarrow> st_verify ts s
      | None \<Rightarrow> Err ErrServerNotFound)"

definition svc_get_validators ::
  "time_network \<Rightarrow> timestamp_service \<Rightarrow> validator_info list outcome" where
  "svc_get_validators net svc =
     Ok (map (\<lambda>s. \<lparr>vi_id = get_id s, vi_region = get_region s, vi_status = ''healthy''\<rparr>)
          (tn_by_region net (svc_region svc)))"

definition svc_get_status :: "time_network \<Rightarrow> network_status outcome" where
  "svc_get_status net = tn_status net"

definition svc_get_region :: "timestamp_service \<Rightarrow> string" where
  "svc_get_region svc = svc_region svc"

definition svc_set_region :: "string \<Rightarrow> timestamp_service \<Rightarrow> timestamp_service" where
  "svc_set_region g svc = svc\<lparr>svc_region := g\<rparr>"

definition mock_view ::
  "ed25519 \<Rightarrow> (string list \<Rightarrow> string list) \<Rightarrow> store \<Rightarrow> (mock_net \<Rightarrow> network_status) \<Rightarrow> mock_net
   \<Rightarrow> time_network" where
  "mock_view c ord h status n =
     \<lparr>tn_servers = map (\<lambda>r. iface c (h r)) (mock_servers ord n),
      tn_by_region = (\<lambda>g. map (\<lambda>r. iface c (h r)) (mock_by_region g n)),
      tn_status = Ok (status n)\<rparr>"

section \<open>The gRPC adapter\<close>

text \<open>The messages of the generated protocol buffer code; an \<open>int64\<close> is the \<open>int\<close> it holds.\<close>

record pb_signature =
  pb_validator :: string
  pb_bytes :: bytes
  pb_region :: string


record pb_verify_request =
  pv_timestamp :: int
  pv_signatures :: "pb_signature list"

record pb_validator_info =
  pi_id :: string
  pi_region :: string
  pi_status :: string

record pb_status_response =
  ps_status :: string
  ps_region :: string
  ps_peer_count :: int
  ps_latest_round :: int

text \<open>
  The interface \<open>TimestampServiceInterface\<close> as the adapter sees it during a call: what its methods
  answer. The adapter never calls \<open>SetRegion\<close>.
\<close>

record service_iface =
  ti_get :: "signed_timestamp outcome"
  ti_verify :: "signed_timestamp \<Rightarrow> unit outcome"
  ti_validators :: "validator_info list outcome"
  ti_status :: "network_status outcome"
  ti_region :: string

definition service_view ::
  "signed_timestamp outcome \<Rightarrow> time_network \<Rightarrow> timestamp_service \<Rightarrow> service_iface" where
  "service_view fast net svc =
     \<lparr>ti_get = svc_get_timestamp fast, ti_verify = svc_verify_timestamp net,
      ti_validators = svc_get_validators net svc, ti_status = svc_get_status net,
      ti_region = svc_get_region svc\<rparr>"

record grpc_adapter =
  ga_service :: service_iface

definition new_grpc_adapter :: "service_iface \<Rightarrow> grpc_adapter" where
  "new_grpc_adapter svc = \<lparr>ga_service = svc\<rparr>"


definition timestamp_of_request :: "pb_verify_request \<Rightarrow> signed_timestamp outcome" where
  "timestamp_of_request req =
     (case pv_signatures req of
        [] \<Rightarrow> Panic IndexOutOfRange
      | s # _ \<Rightarrow> Ok \<lparr>st_time = time_unix (word_of_int (pv_timestamp req)),
                     st_server = pb_validator s, st_region = pb_region s, st_sig = pb_bytes s\<rparr>)"

definition grpc_verify_timestamp ::
  "grpc_adapter \<Rightarrow> pb_verify_request \<Rightarrow> bool outcome" where
  "grpc_verify_timestamp a req =
     bind_outcome (timestamp_of_request req) (\<lambda>ts.
       let r = ti_verify (ga_service a) ts
       in if r = Err ErrInvalidSignature then Ok False
          else bind_outcome (wrap_err ''failed to verify timestamp: %w'' r) (\<lambda>_. Ok True))"

definition grpc_get_validators ::
  "grpc_adapter \<Rightarrow> pb_validator_info list outcome" where
  "grpc_get_validators a =
     bind_outcome (wrap_err ''failed to get validators: %w'' (ti_validators (ga_service a))) (\<lambda>vs.
       Ok (map (\<lambda>v. \<lparr>pi_id = vi_id v, pi_region = vi_region v, pi_status = vi_status v\<rparr>) vs))"

definition grpc_get_status :: "grpc_adapter \<Rightarrow> pb_status_response outcome" where
  "grpc_get_status a =
     bind_outcome (wrap_err ''failed to get status: %w'' (ti_status (ga_service a))) (\<lambda>st.
       Ok \<lparr>ps_status = ns_status st, ps_region = ns_region st,
           ps_peer_count = sint (word_of_int (ns_peer_count st) :: 32 word),
           ps_latest_round = sint (ns_latest_round st)\<rparr>)"

section \<open>Lemmas\<close>

lemma adapter_calls [simp]:
  "ti_get (ga_service (new_grpc_adapter (service_view fast net svc))) = fast"
  "ti_verify (ga_service (new_grpc_adapter (service_view fast net svc))) = svc_verify_timestamp net"
  by (simp_all add: new_grpc_adapter_def service_view_def svc_get_timestamp_def)

lemma find_map_iface:
  "List.find (\<lambda>s. get_id s = i) (map (\<lambda>r. iface c (h r)) rs)
     = map_option (\<lambda>r. iface c (h r)) (List.find (\<lambda>r. ident h r = i) rs)"
  by (induction rs) (simp_all add: ident_def)

lemma svc_verify_mock:
  assumes "is_order ord" and "registered (ident h) (mn_servers n)"
  shows "svc_verify_timestamp (mock_view c ord h status n) ts =
    (case map_of (mn_servers n) (st_server ts) of
       Some r \<Rightarrow> st_verify ts (iface c (h r)) | None \<Rightarrow> Err ErrServerNotFound)"
  using mtn.find_listing [OF assms]
  by (simp add: svc_verify_timestamp_def mock_view_def find_map_iface split: option.split)


section \<open>Properties\<close>

text \<open>
  What \<open>VerifyTimestamp\<close> of the gRPC adapter answers, over the service and either mock network
  after any history: without a signature it panics; for a validator that is not registered it is
  an error; else only the first signature counts, and with keys of the right size the answer is
  \<open>Valid: true\<close> exactly when that signature has 64 bytes and verifies under the registered
  server's key; a wrong signature gives \<open>Valid: false\<close> for a mock server, but an error for a
  server of \<open>core/server\<close>, whose \<open>Verify\<close> does not return the sentinel error.
\<close>

lemma grpc_verify_cases:
  assumes "is_order ord"
    and "reg_run mtn_add mtn_remove cs h new_mock_net = (h', n)"
    and "\<forall>r. length (srv_public (h r)) = public_key_size"
  shows "grpc_verify_timestamp (new_grpc_adapter (service_view fast (mock_view c ord h' status n) svc)) req =
    (case pv_signatures req of
       [] \<Rightarrow> Panic IndexOutOfRange
     | s # _ \<Rightarrow>
         (case reg_spec False (ident h) cs (\<lambda>_. None) (pb_validator s) of
            None \<Rightarrow> Err (Errorf ''failed to verify timestamp: %w'' [FErr ErrServerNotFound])
          | Some r \<Rightarrow>
              if length (pb_bytes s) = signature_size
                 \<and> verify_prim c (srv_public (h' r))
                     (be_put_u64 (word_of_int (pv_timestamp req))) (pb_bytes s)
              then Ok True
              else (case h' r of
                      Core _ \<Rightarrow> Err (Errorf ''failed to verify timestamp: %w''
                                 [FErr (Errorf ''invalid signature'' [])])
                    | _ \<Rightarrow> Ok False)))"
proof -
  have new: "registered (ident h) (mn_servers new_mock_net)"
    "map_of (mn_servers new_mock_net) = (\<lambda>_. None)"
    by (simp_all add: new_mock_net_def fun_eq_iff)
  have inv: "registered (ident h') (mn_servers n)"
    "map_of (mn_servers n) = reg_spec False (ident h) cs (\<lambda>_. None)"
    using mtn.run_refines [OF new(1), of "\<lambda>_. True" False cs] assms(2)
    by (simp_all add: mtn_add_def has_key_iff new(2))
  show ?thesis
  proof (cases "pv_signatures req")
    case Nil
    then show ?thesis by (simp add: grpc_verify_timestamp_def Let_def timestamp_of_request_def)
  next
    case (Cons s ss)
    show ?thesis
    proof (cases "reg_spec False (ident h) cs (\<lambda>_. None) (pb_validator s)")
      case None
      then show ?thesis
        using Cons
        by (simp add: grpc_verify_timestamp_def Let_def timestamp_of_request_def svc_verify_mock
            assms(1) inv)
    next
      case (Some r)
      have "srv_verify c (h' r) (be_put_u64 (word_of_int (pv_timestamp req))) (pb_bytes s) =
        (if length (pb_bytes s) = signature_size
            \<and> verify_prim c (srv_public (h' r)) (be_put_u64 (word_of_int (pv_timestamp req)))
                (pb_bytes s)
         then Ok () else Err (wrong_signature (h' r)))"
        using assms(3)
        by (simp add: srv_verify_eq ed25519_verify_def reg_run_public [OF assms(2)])
      then show ?thesis
        using Cons Some
        by (cases "h' r") (simp_all add: grpc_verify_timestamp_def Let_def timestamp_of_request_def
            svc_verify_mock assms(1) inv st_verify_def unix_nano_time_unix)
    qed
  qed
qed


section \<open>Witnesses\<close>

definition demo_request :: "string \<Rightarrow> pb_verify_request" where
  "demo_request i =
     \<lparr>pv_timestamp = 5,
      pv_signatures = [\<lparr>pb_validator = i, pb_bytes = replicate 64 0, pb_region = ''eu''\<rparr>]\<rparr>"

text \<open>A wrong signature: the mock \<open>''s''\<close> says invalid, the server \<open>''a''\<close> makes it an error.\<close>

definition demo_mixed :: store where
  "demo_mixed r = (if r = 0 then demo_store 0 else Core (demo_core ''a'' 7))"

lemma grpc_verify_cases_witness:
  "grpc_verify_timestamp (new_grpc_adapter (service_view Blocked (mock_view toy_ed25519 rev demo_mixed mtn_status
     (snd (reg_run mtn_add mtn_remove [RegAdd 0, RegAdd 1] demo_mixed new_mock_net))) (new_timestamp_service [])))
     (demo_request ''s'') = Ok False
   \<and> grpc_verify_timestamp (new_grpc_adapter (service_view Blocked (mock_view toy_ed25519 rev demo_mixed mtn_status
     (snd (reg_run mtn_add mtn_remove [RegAdd 0, RegAdd 1] demo_mixed new_mock_net))) (new_timestamp_service [])))
     (demo_request ''a'')
     = Err (Errorf ''failed to verify timestamp: %w'' [FErr (Errorf ''invalid signature'' [])])"
proof -
  let ?run = "reg_run mtn_add mtn_remove [RegAdd 0, RegAdd 1] demo_mixed new_mock_net"
  have run: "?run = (demo_mixed, snd ?run)" by simp
  have id: "ident demo_mixed 0 = ''s''" "ident demo_mixed 1 = ''a''" "ident demo_mixed (Suc 0) = ''a''"
    by (simp_all add: ident_def demo_mixed_def demo_store_def demo_server_def new_mock_server_def
        demo_core_def)
  have keys: "\<forall>r. length (srv_public (demo_mixed r)) = public_key_size"
    by (simp add: demo_mixed_def demo_store_def demo_server_def new_mock_server_def demo_core_def
        public_key_size_def)
  have pub: "srv_public (demo_mixed r) = replicate 32 7" for r
    by (simp add: demo_mixed_def demo_store_def demo_server_def new_mock_server_def demo_core_def)
  have bad: "\<not> verify_prim toy_ed25519 (replicate 32 7) m (replicate 64 0)" for m
  proof
    assume "verify_prim toy_ed25519 (replicate 32 7) m (replicate 64 0)"
    then have "(replicate 64 0 :: bytes) = take 64 (replicate 32 7 @ m @ replicate 64 0)"
      by (simp only: toy_ed25519_def ed25519.simps)
    from arg_cong [OF this, of "\<lambda>xs. xs ! 0"] show False by (simp add: nth_append)
  qed
  have "demo_mixed 0 = MockSrv (new_mock_server ''s'' ''eu'' (replicate 32 0 @ replicate 32 7)
      (replicate 32 7))" "demo_mixed 1 = Core (demo_core ''a'' 7)"
    by (simp_all add: demo_mixed_def demo_store_def demo_server_def)
  then show ?thesis
    using grpc_verify_cases [OF is_order_rev run keys, where c = toy_ed25519 and status = mtn_status
        and req = "demo_request ''s''" and fast = Blocked and svc = "new_timestamp_service []"]
      grpc_verify_cases [OF is_order_rev run keys, where c = toy_ed25519 and status = mtn_status
        and req = "demo_request ''a''" and fast = Blocked and svc = "new_timestamp_service []"]
    by (simp only: demo_request_def reg_spec.simps id pub pb_verify_request.simps pb_signature.simps
        list.case bad simp_thms if_False srv.case) (simp add: id)
qed



end
