(* ===== verification/Caches.thy ===== *)
theory Caches
  imports Types
begin

text \<open>
  The two expiring caches of \<open>core/client/hft_client.go\<close>: \<open>verificationCache\<close> and
  \<open>timestampBatchCache\<close>. Each keeps its values and their expiry instants in two maps, under
  one mutex; \<open>now\<close> is the reading of the clock an operation makes. \<open>expiring_cache\<close> is the
  contract the client relies on, stated over an abstraction to one map; both caches are
  interpretations of it.
\<close>

section \<open>The contract\<close>

text \<open>A clean-up ranges over a map, in an order of its own. An entry is gone once its expiry is in the past.\<close>

fun live :: "gotime \<Rightarrow> ('v \<times> gotime) option \<Rightarrow> ('v \<times> gotime) option" where
  "live now None = None"
| "live now (Some (v, e)) = (if e < now then None else Some (v, e))"

datatype 'v cache_event =
  CacheSet gotime string 'v | CacheClean "string list \<Rightarrow> string list" gotime

fun event_time :: "'v cache_event \<Rightarrow> gotime" where
  "event_time (CacheSet t k v) = t"
| "event_time (CacheClean ord t) = t"

text \<open>The value last set for a key, with the instant it was set.\<close>

fun last_set :: "string \<Rightarrow> 'v cache_event list \<Rightarrow> ('v \<times> gotime) option" where
  "last_set k [] = None"
| "last_set k (CacheSet t k' v # es) =
     (case last_set k es of Some r \<Rightarrow> Some r | None \<Rightarrow> if k = k' then Some (v, t) else None)"
| "last_set k (CacheClean ord t # es) = last_set k es"

fun event_ok :: "'v cache_event \<Rightarrow> bool" where
  "event_ok (CacheSet t k v) = True"
| "event_ok (CacheClean ord t) = is_order ord"

definition cache_exec ::
  "(gotime \<Rightarrow> string \<Rightarrow> 'v \<Rightarrow> 'c \<Rightarrow> 'c) \<Rightarrow> ((string list \<Rightarrow> string list) \<Rightarrow> gotime \<Rightarrow> 'c \<Rightarrow> 'c)
   \<Rightarrow> 'v cache_event \<Rightarrow> 'c \<Rightarrow> 'c" where
  "cache_exec put clean e c =
     (case e of CacheSet t k v \<Rightarrow> put t k v c | CacheClean ord t \<Rightarrow> clean ord t c)"

lemma live_live: "t \<le> now \<Longrightarrow> live now (live t r) = live now r"
  by (cases "(t, r)" rule: live.cases) (auto simp: le_time_iff less_time_iff)

locale expiring_cache =
  fixes lookup :: "gotime \<Rightarrow> string \<Rightarrow> 'c \<Rightarrow> 'v option"
    and put :: "gotime \<Rightarrow> string \<Rightarrow> 'v \<Rightarrow> 'c \<Rightarrow> 'c"
    and clean :: "(string list \<Rightarrow> string list) \<Rightarrow> gotime \<Rightarrow> 'c \<Rightarrow> 'c"
    and entry :: "'c \<Rightarrow> string \<Rightarrow> ('v \<times> gotime) option"
    and ok :: "duration \<Rightarrow> 'c \<Rightarrow> bool"
  assumes lookup_entry: "ok d c \<Longrightarrow> lookup now k c = map_option fst (live now (entry c k))"
    and put_ok: "ok d c \<Longrightarrow> ok d (put now k v c)"
    and put_entry: "ok d c \<Longrightarrow> entry (put now k v c) = (entry c)(k \<mapsto> (v, time_add now d))"
    and clean_ok: "ok d c \<Longrightarrow> ok d (clean ord now c)"
    and clean_entry: "is_order ord \<Longrightarrow> ok d c \<Longrightarrow> entry (clean ord now c) k = live now (entry c k)"
begin

lemma lookup_put:
  assumes "ok d c"
  shows "lookup now k' (put t k v c) =
    (if k' = k then (if time_add t d < now then None else Some v) else lookup now k' c)"
  using assms by (simp add: lookup_entry [OF put_ok] lookup_entry put_entry)

text \<open>Cleaning up is invisible to every later lookup.\<close>

lemma lookup_clean:
  assumes "is_order ord" and "ok d c" and "t \<le> now"
  shows "lookup now k (clean ord t c) = lookup now k c"
  using assms by (simp add: lookup_entry [OF clean_ok] lookup_entry clean_entry live_live)

lemma run_lookup:
  assumes "ok d c" and "\<forall>e \<in> set es. event_ok e \<and> event_time e \<le> now"
  shows "ok d (fold (cache_exec put clean) es c)
    \<and> lookup now k (fold (cache_exec put clean) es c) =
      (case last_set k es of
         Some (v, t) \<Rightarrow> if time_add t d < now then None else Some v
       | None \<Rightarrow> lookup now k c)"
  using assms
proof (induction es arbitrary: c)
  case (Cons e es)
  then show ?case
    by (cases e) (auto simp: cache_exec_def put_ok clean_ok lookup_put lookup_clean
        split: option.split)
qed simp

end

section \<open>The verification cache\<close>

record 'v ttl_cache =
  tc_values :: "(string, 'v) gomap"
  tc_expiry :: "(string, gotime) gomap"
  tc_ttl :: duration
  tc_stopped :: bool

definition new_verification_cache :: "duration \<Rightarrow> bool ttl_cache" where
  "new_verification_cache ttl = \<lparr>tc_values = [], tc_expiry = [], tc_ttl = ttl, tc_stopped = False\<rparr>"

text \<open>The pair \<open>(result, found)\<close> is \<open>Some result\<close> where \<open>found\<close>.\<close>

definition vcache_get :: "gotime \<Rightarrow> string \<Rightarrow> bool ttl_cache \<Rightarrow> bool option" where
  "vcache_get now key vc =
     (case map_of (tc_values vc) key of
        None \<Rightarrow> None
      | Some result \<Rightarrow>
          (case map_of (tc_expiry vc) key of
             None \<Rightarrow> None
           | Some expiry \<Rightarrow> if expiry < now then None else Some result))"

definition vcache_set :: "gotime \<Rightarrow> string \<Rightarrow> bool \<Rightarrow> bool ttl_cache \<Rightarrow> bool ttl_cache" where
  "vcache_set now key result vc =
     vc\<lparr>tc_values := map_put key result (tc_values vc),
        tc_expiry := map_put key (time_add now (tc_ttl vc)) (tc_expiry vc)\<rparr>"

text \<open>The clean-up loop deletes from the map it ranges over.\<close>

definition evict :: "gotime \<Rightarrow> string \<times> gotime \<Rightarrow> 'v ttl_cache \<Rightarrow> 'v ttl_cache" where
  "evict now e vc =
     (if snd e < now
      then vc\<lparr>tc_values := map_del (fst e) (tc_values vc), tc_expiry := map_del (fst e) (tc_expiry vc)\<rparr>
      else vc)"

definition vcache_cleanup ::
  "(string list \<Rightarrow> string list) \<Rightarrow> gotime \<Rightarrow> bool ttl_cache \<Rightarrow> bool ttl_cache" where
  "vcache_cleanup ord now vc = fold (evict now) (go_range ord (tc_expiry vc)) vc"

text \<open>One tick of the clean-up goroutine, which ends when \<open>stopCh\<close> is closed.\<close>

definition vcache_tick ::
  "(string list \<Rightarrow> string list) \<Rightarrow> gotime \<Rightarrow> bool ttl_cache \<Rightarrow> bool ttl_cache" where
  "vcache_tick ord now vc = (if tc_stopped vc then vc else vcache_cleanup ord now vc)"

definition vcache_stop :: "bool ttl_cache \<Rightarrow> bool ttl_cache outcome" where
  "vcache_stop vc =
     (if tc_stopped vc then Panic CloseOfClosedChannel else Ok (vc\<lparr>tc_stopped := True\<rparr>))"

section \<open>The batch cache\<close>

text \<open>Its values are pointers: \<open>None\<close> is nil, and a missing or expired entry is nil too.\<close>

type_synonym batch_cache = "signed_timestamp option ttl_cache"

definition new_timestamp_batch_cache :: "duration \<Rightarrow> batch_cache" where
  "new_timestamp_batch_cache ttl =
     \<lparr>tc_values = [], tc_expiry = [], tc_ttl = ttl, tc_stopped = False\<rparr>"

definition bcache_entry :: "gotime \<Rightarrow> string \<Rightarrow> batch_cache \<Rightarrow> signed_timestamp option option" where
  "bcache_entry now key tc =
     (case map_of (tc_values tc) key of
        None \<Rightarrow> None
      | Some ts \<Rightarrow>
          (case map_of (tc_expiry tc) key of
             None \<Rightarrow> None
           | Some expiry \<Rightarrow> if expiry < now then None else Some ts))"

definition bcache_get :: "gotime \<Rightarrow> string \<Rightarrow> batch_cache \<Rightarrow> signed_timestamp option" where
  "bcache_get now key tc = (case bcache_entry now key tc of None \<Rightarrow> None | Some ts \<Rightarrow> ts)"

definition bcache_set :: "gotime \<Rightarrow> string \<Rightarrow> signed_timestamp option \<Rightarrow> batch_cache \<Rightarrow> batch_cache" where
  "bcache_set now key ts tc =
     tc\<lparr>tc_values := map_put key ts (tc_values tc),
        tc_expiry := map_put key (time_add now (tc_ttl tc)) (tc_expiry tc)\<rparr>"

definition bcache_cleanup ::
  "(string list \<Rightarrow> string list) \<Rightarrow> gotime \<Rightarrow> batch_cache \<Rightarrow> batch_cache" where
  "bcache_cleanup ord now tc = fold (evict now) (go_range ord (tc_expiry tc)) tc"

definition bcache_tick ::
  "(string list \<Rightarrow> string list) \<Rightarrow> gotime \<Rightarrow> batch_cache \<Rightarrow> batch_cache" where
  "bcache_tick ord now tc = (if tc_stopped tc then tc else bcache_cleanup ord now tc)"

definition bcache_stop :: "batch_cache \<Rightarrow> batch_cache outcome" where
  "bcache_stop tc =
     (if tc_stopped tc then Panic CloseOfClosedChannel else Ok (tc\<lparr>tc_stopped := True\<rparr>))"

section \<open>Both caches meet the contract\<close>

text \<open>The two maps have the same keys.\<close>

definition cache_ok :: "duration \<Rightarrow> 'v ttl_cache \<Rightarrow> bool" where
  "cache_ok d c \<longleftrightarrow>
     tc_ttl c = d \<and> wf_map (tc_values c) \<and> wf_map (tc_expiry c)
     \<and> set (keys (tc_values c)) = set (keys (tc_expiry c))"

definition cache_entry :: "'v ttl_cache \<Rightarrow> string \<Rightarrow> ('v \<times> gotime) option" where
  "cache_entry c k =
     (case (map_of (tc_values c) k, map_of (tc_expiry c) k) of
        (Some v, Some e) \<Rightarrow> Some (v, e) | _ \<Rightarrow> None)"

lemma evict_fields [simp]:
  "tc_ttl (evict now e c) = tc_ttl c" "tc_stopped (evict now e c) = tc_stopped c"
  by (simp_all add: evict_def)

lemma evict_ok: "cache_ok d c \<Longrightarrow> cache_ok d (evict now e c)"
  by (simp add: cache_ok_def evict_def set_keys_del)

lemma evict_all_ok: "cache_ok d c \<Longrightarrow> cache_ok d (fold (evict now) es c)"
  by (induction es arbitrary: c) (simp_all add: evict_ok)

lemma evict_entry:
  "cache_entry (evict now (k', e) c) k = (if k = k' \<and> e < now then None else cache_entry c k)"
  by (simp add: cache_entry_def evict_def split: option.split)

lemma evict_all_entry:
  "cache_entry (fold (evict now) es c) k
     = (if \<exists>e. (k, e) \<in> set es \<and> e < now then None else cache_entry c k)"
  by (induction es arbitrary: c) (auto simp: evict_entry)

lemma cleanup_entry:
  assumes "is_order ord" and "cache_ok d c"
  shows "cache_entry (fold (evict now) (go_range ord (tc_expiry c)) c) k
    = live now (cache_entry c k)"
proof -
  have wf: "wf_map (tc_expiry c)" using assms(2) by (simp add: cache_ok_def)
  show ?thesis
    unfolding evict_all_entry set_go_range [OF assms(1) wf]
    by (auto simp: wf_map_of_iff [OF wf, symmetric] cache_entry_def split: option.splits)
qed

lemma cache_ok_put:
  "cache_ok d c \<Longrightarrow>
   cache_ok d (c\<lparr>tc_values := map_put k v (tc_values c), tc_expiry := map_put k e (tc_expiry c)\<rparr>)"
  by (simp add: cache_ok_def set_keys_put)

lemma cache_entry_put:
  "cache_entry (c\<lparr>tc_values := map_put k v (tc_values c), tc_expiry := map_put k e (tc_expiry c)\<rparr>)
     = (cache_entry c)(k \<mapsto> (v, e))"
  by (simp add: cache_entry_def fun_eq_iff)

interpretation vcache: expiring_cache vcache_get vcache_set vcache_cleanup cache_entry cache_ok
  by unfold_locales
    (simp_all add: vcache_set_def vcache_cleanup_def cache_ok_put cache_entry_put evict_all_ok
      cleanup_entry, auto simp: vcache_get_def cache_entry_def cache_ok_def split: option.split)

interpretation bcache: expiring_cache bcache_entry bcache_set bcache_cleanup cache_entry cache_ok
  by unfold_locales
    (simp_all add: bcache_set_def bcache_cleanup_def cache_ok_put cache_entry_put evict_all_ok
      cleanup_entry, auto simp: bcache_entry_def cache_entry_def cache_ok_def split: option.split)

lemma new_cache_ok:
  "cache_ok d (new_verification_cache d)" "cache_ok d (new_timestamp_batch_cache d)"
  by (simp_all add: cache_ok_def new_verification_cache_def new_timestamp_batch_cache_def keys_def)

section \<open>Properties\<close>

text \<open>
  C20. Both caches behave as one map with expiry: after any history of stores and clean-ups (with
  any iteration orders) that lies in the past, a lookup gives the value stored last under the
  key if it was stored no longer than the time-to-live ago, and nothing otherwise. When the
  clean-ups ran makes no difference.
\<close>

theorem caches_keep_last_set:
  assumes "\<forall>e \<in> set es. event_ok e \<and> event_time e \<le> now"
    and "\<forall>e \<in> set fs. event_ok e \<and> event_time e \<le> now"
  shows "vcache_get now k (fold (cache_exec vcache_set vcache_cleanup) es (new_verification_cache ttl))
      = (case last_set k es of
           Some (v, t) \<Rightarrow> if time_add t ttl < now then None else Some v | None \<Rightarrow> None)
    \<and> bcache_get now k (fold (cache_exec bcache_set bcache_cleanup) fs (new_timestamp_batch_cache ttl))
      = (case last_set k fs of
           Some (v, t) \<Rightarrow> if time_add t ttl < now then None else v | None \<Rightarrow> None)"
  using vcache.run_lookup [OF new_cache_ok(1) assms(1), where k = k]
    bcache.run_lookup [OF new_cache_ok(2) assms(2), where k = k]
  by (auto simp: vcache_get_def bcache_get_def bcache_entry_def new_verification_cache_def
      new_timestamp_batch_cache_def split: option.split)

section \<open>Witnesses\<close>

definition demo_events :: "bool cache_event list" where
  "demo_events =
     [CacheSet (Instant 0) ''a'' True, CacheSet (Instant 4) ''b'' True,
      CacheClean rev (Instant 12), CacheSet (Instant 13) ''a'' False]"

theorem caches_keep_last_set_witness:
  "vcache_get (Instant 14) ''a''
     (fold (cache_exec vcache_set vcache_cleanup) demo_events (new_verification_cache 10)) = Some False
   \<and> vcache_get (Instant 15) ''b''
     (fold (cache_exec vcache_set vcache_cleanup) demo_events (new_verification_cache 10)) = None"
proof -
  have "\<forall>e \<in> set demo_events. event_ok e \<and> event_time e \<le> Instant 14"
    and "\<forall>e \<in> set demo_events. event_ok e \<and> event_time e \<le> Instant 15"
    by (simp_all add: demo_events_def le_time_iff)
  then show ?thesis
    using caches_keep_last_set [of demo_events "Instant 14" "[]" "''a''" 10]
      caches_keep_last_set [of demo_events "Instant 15" "[]" "''b''" 10]
    by (simp add: demo_events_def less_time_iff)
qed

end
