(* ===== verification/DualFormat.thy ===== *)
theory DualFormat
  imports GoTime
begin

text \<open>
  \<open>parseWithDualFormatSupport\<close> of \<open>core/client/hft_client.go\<close>: a parameter is either preceded by
  its length as a little-endian 32-bit number or given directly. The arithmetic on the length
  is that of \<open>uint32\<close>.
\<close>

section \<open>Model\<close>

definition max_length_prefix_value :: u32 where
  "max_length_prefix_value = 102400"

definition parse_dual :: "bytes \<Rightarrow> bytes outcome" where
  "parse_dual data =
     (if data = [] then Err (Errorf ''empty data provided'' [])
      else if length data < 4 then Ok data
      else bind_outcome (le_u32 (take 4 data)) (\<lambda>prefix.
        if 0 < prefix \<and> prefix \<le> max_length_prefix_value then
          (if (of_nat (length data) :: u32) < 4 + prefix
           then Err (Errorf ''data too short for length prefix: expected %d bytes, got %d''
                  [FInt (uint (4 + prefix)), FInt (int (length data))])
           else if length data < unat (4 + prefix) then Panic SliceOutOfRange
           else Ok (take (unat prefix) (drop 4 data)))
        else Ok data))"

text \<open>The writer's side, which the source describes but does not contain: length, then data.\<close>

definition length_prefixed :: "bytes \<Rightarrow> bytes" where
  "length_prefixed d = le_put_u32 (of_nat (length d)) @ d"

section \<open>Lemmas\<close>

lemma prefix_end:
  "prefix \<le> max_length_prefix_value \<Longrightarrow> unat (4 + prefix) = 4 + unat (prefix :: u32)"
  by (simp add: max_length_prefix_value_def word_le_nat_alt unat_word_ariths)

lemma length_u32_le: "unat (of_nat n :: u32) \<le> n"
  by (simp add: unat_of_nat)

lemma short_check:
  assumes "prefix \<le> max_length_prefix_value"
  shows "(of_nat n :: u32) < 4 + prefix \<longleftrightarrow> n mod 2 ^ 32 < 4 + unat prefix"
  using prefix_end [OF assms] by (simp add: word_less_nat_alt unat_of_nat)

lemma parse_dual_long:
  assumes "4 \<le> length data" and "le_u32 data = Ok prefix"
  shows "parse_dual data =
    (if 0 < prefix \<and> prefix \<le> max_length_prefix_value then
       (if length data mod 2 ^ 32 < 4 + unat prefix
        then Err (Errorf ''data too short for length prefix: expected %d bytes, got %d''
               [FInt (4 + uint prefix), FInt (int (length data))])
        else Ok (take (unat prefix) (drop 4 data)))
     else Ok data)"
proof -
  have fits: "\<not> length data < unat (4 + prefix)"
    if "prefix \<le> max_length_prefix_value" "\<not> length data mod 2 ^ 32 < 4 + unat prefix"
    using that prefix_end [OF that(1)] mod_less_eq_dividend [of "length data" "2 ^ 32"] by linarith
  have "uint (4 + prefix) = 4 + uint prefix" if "prefix \<le> max_length_prefix_value"
    using arg_cong [OF prefix_end [OF that], of int] by simp
  then show ?thesis
    using assms fits short_check [of prefix "length data"]
    by (auto simp: parse_dual_def le_u32_take)
qed

section \<open>Properties\<close>

text \<open>
  C25. Round trip: data of 1 to 102400 bytes that a writer has preceded by its length is parsed
  back exactly, whatever bytes follow it, as long as the whole is shorter than 4 GiB.
\<close>

theorem dual_format_round_trip:
  assumes "0 < length d" and "length d \<le> 102400" and "length d + length rest + 4 < 2 ^ 32"
  shows "parse_dual (length_prefixed d @ rest) = Ok d"
proof -
  let ?p = "of_nat (length d) :: u32" and ?data = "length_prefixed d @ rest"
  have p: "unat ?p = length d" using assms(2) by (simp add: unat_of_nat)
  have "le_u32 ?data = Ok ?p" by (simp add: length_prefixed_def)
  moreover have "4 \<le> length ?data" by (simp add: length_prefixed_def)
  moreover have "0 < ?p" "?p \<le> max_length_prefix_value"
    using assms(1,2) p by (simp_all add: word_less_nat_alt word_le_nat_alt max_length_prefix_value_def)
  moreover have "length ?data mod 2 ^ 32 = 4 + length d + length rest"
    using assms(3) by (simp add: length_prefixed_def)
  ultimately show ?thesis
    using parse_dual_long [of ?data ?p] p by (simp add: length_prefixed_def)
qed

text \<open>
  C24. The parser is safe on every input, of any length: it never panics (no slice goes out of
  range even where \<open>uint32(len(data))\<close> wraps around), and it returns the whole input, or the
  \<open>n\<close> bytes after the prefix for the \<open>n\<close> the prefix gives, with \<open>1 \<le> n \<le> 102400\<close>, or an error,
  which on inputs below 4 GiB means that the input is empty or shorter than its prefix says.
\<close>

theorem dual_format_safe:
  "case parse_dual data of
     Ok r \<Rightarrow> r = data \<or>
       (\<exists>n. 1 \<le> n \<and> n \<le> 102400 \<and> length r = n \<and> 4 + n \<le> length data \<and> r = take n (drop 4 data)
          \<and> le_u32 data = Ok (of_nat n))
   | Err e \<Rightarrow> data = [] \<or>
       (\<exists>p. le_u32 data = Ok p \<and> length data mod 2 ^ 32 < 4 + unat p \<and> p \<le> max_length_prefix_value)
   | _ \<Rightarrow> False"
proof (cases "4 \<le> length data")
  case False
  then show ?thesis by (auto simp: parse_dual_def)
next
  case True
  obtain p where p: "le_u32 data = Ok p" using le_u32_long [OF True] by blast
  have "\<exists>n. 1 \<le> n \<and> n \<le> 102400 \<and> length (take (unat p) (drop 4 data)) = n \<and> 4 + n \<le> length data
      \<and> take (unat p) (drop 4 data) = take n (drop 4 data) \<and> le_u32 data = Ok (of_nat n)"
    if "0 < p" "p \<le> max_length_prefix_value" "\<not> length data mod 2 ^ 32 < 4 + unat p"
  proof (intro exI [of _ "unat p"] conjI)
    show "1 \<le> unat p" using that(1) by (simp add: word_less_nat_alt)
    show "unat p \<le> 102400" using that(2) by (simp add: word_le_nat_alt max_length_prefix_value_def)
    show "4 + unat p \<le> length data"
      using that(3) mod_less_eq_dividend [of "length data" "2 ^ 32"] by linarith
    then show "length (take (unat p) (drop 4 data)) = unat p" by simp
    show "le_u32 data = Ok (of_nat (unat p))" by (simp add: p)
  qed simp
  then show ?thesis
    unfolding parse_dual_long [OF True p] using p by auto
qed

text \<open>
  The two formats are not disjoint: direct data whose first four bytes happen to read as a
  number from 1 to 102400 is not returned as it is (below 4 GiB); it is cut to the bytes after
  them or refused.
\<close>

lemma direct_format_ambiguous:
  assumes "length rest + 4 < 2 ^ 32" and "1 \<le> n" and "n \<le> 102400"
  shows "parse_dual (le_put_u32 (of_nat n) @ rest) \<noteq> Ok (le_put_u32 (of_nat n) @ rest)"
proof -
  let ?p = "of_nat n :: u32" and ?data = "le_put_u32 (of_nat n) @ rest"
  have p: "unat ?p = n" using assms(3) by (simp add: unat_of_nat)
  then have "0 < ?p" "?p \<le> max_length_prefix_value"
    using assms by (simp_all add: word_less_nat_alt word_le_nat_alt max_length_prefix_value_def)
  moreover have "take n rest \<noteq> ?data"
  proof
    assume "take n rest = ?data"
    from arg_cong [OF this, of length] show False by simp
  qed
  ultimately show ?thesis using parse_dual_long [of ?data ?p] p by simp
qed

section \<open>Witnesses\<close>

theorem dual_format_round_trip_witness: "parse_dual (length_prefixed [7, 8, 9] @ [1]) = Ok [7, 8, 9]"
  by (rule dual_format_round_trip) simp_all

theorem dual_format_safe_witness: "\<exists>r. parse_dual [3, 0, 0, 0, 7, 8, 9] = Ok r \<and> length r \<le> 7"
proof -
  have ok: "parse_dual [3, 0, 0, 0, 7, 8, 9] = Ok [7, 8, 9]" by code_simp
  show ?thesis using dual_format_safe [of "[3, 0, 0, 0, 7, 8, 9]"] by (simp add: ok)
qed

theorem direct_format_ambiguous_witness:
  "parse_dual (le_put_u32 (of_nat 2) @ [5, 6, 7]) \<noteq> Ok (le_put_u32 (of_nat 2) @ [5, 6, 7])"
  by (rule direct_format_ambiguous) simp_all

end
