(* ===== verification/Rtt.thy ===== *)
theory Rtt
  imports GoTime
begin

text \<open>
  \<open>rttTracker\<close> of \<open>core/client/hft_client.go\<close>: the last round-trip times of a server in a ring
  buffer, and their weighted average. The average is computed with \<open>float64\<close>, whose rounding
  is not modelled: the operations are the fields of \<open>floats\<close>, and what is proved of the
  average is which samples it sees, with which weights, in which order.
\<close>

section \<open>Model\<close>

record 'f floats =
  f_zero :: 'f
  f_of_int :: "int \<Rightarrow> 'f"
  f_add :: "'f \<Rightarrow> 'f \<Rightarrow> 'f"
  f_mul :: "'f \<Rightarrow> 'f \<Rightarrow> 'f"
  f_div :: "'f \<Rightarrow> 'f \<Rightarrow> 'f"
  f_pow :: "'f \<Rightarrow> 'f \<Rightarrow> 'f"
  f_to_int :: "'f \<Rightarrow> int"

record 'f rtt_tracker =
  rt_samples :: "duration list"
  rt_index :: int
  rt_count :: int
  rt_max :: int
  rt_decay :: 'f

definition new_rtt_tracker :: "int \<Rightarrow> 'f \<Rightarrow> 'f rtt_tracker outcome" where
  "new_rtt_tracker m decay =
     (if m < 0 then Panic MakeSliceNegative
      else Ok \<lparr>rt_samples = replicate (nat m) 0, rt_index = 0, rt_count = 0, rt_max = m,
               rt_decay = decay\<rparr>)"

definition rtt_add_sample :: "duration \<Rightarrow> 'f rtt_tracker \<Rightarrow> 'f rtt_tracker outcome" where
  "rtt_add_sample rtt r =
     (if rt_index r < 0 \<or> int (length (rt_samples r)) \<le> rt_index r then Panic IndexOutOfRange
      else if rt_max r = 0 then Panic IntegerDivideByZero
      else Ok (r\<lparr>rt_samples := (rt_samples r)[nat (rt_index r) := rtt],
                 rt_index := go_rem (rt_index r + 1) (rt_max r),
                 rt_count := (if rt_count r < rt_max r then rt_count r + 1 else rt_count r)\<rparr>))"

text \<open>The loop of \<open>getAverageRTT\<close>, over the values of its counter.\<close>

fun rtt_loop :: "'f floats \<Rightarrow> 'f rtt_tracker \<Rightarrow> int list \<Rightarrow> 'f \<Rightarrow> 'f \<Rightarrow> ('f \<times> 'f) outcome" where
  "rtt_loop F r [] tot weights = Ok (tot, weights)"
| "rtt_loop F r (i # is) tot weights =
     (let idx0 = rt_index r - i - 1; idx = (if idx0 < 0 then idx0 + rt_max r else idx0)
      in if idx < 0 \<or> int (length (rt_samples r)) \<le> idx then Panic IndexOutOfRange
         else let w = f_pow F (rt_decay r) (f_of_int F i)
              in rtt_loop F r is
                   (f_add F tot (f_mul F (f_of_int F (rt_samples r ! nat idx)) w))
                   (f_add F weights w))"

definition rtt_average :: "'f floats \<Rightarrow> 'f rtt_tracker \<Rightarrow> duration outcome" where
  "rtt_average F r =
     (if rt_count r = 0 then Ok max_int64
      else bind_outcome (rtt_loop F r [0..rt_count r - 1] (f_zero F) (f_zero F))
        (\<lambda>(tot, weights). Ok (f_to_int F (f_div F tot weights))))"

fun rtt_add_all :: "duration list \<Rightarrow> 'f rtt_tracker \<Rightarrow> 'f rtt_tracker outcome" where
  "rtt_add_all [] r = Ok r"
| "rtt_add_all (x # xs) r = bind_outcome (rtt_add_sample x r) (rtt_add_all xs)"

section \<open>Reference\<close>

text \<open>The weighted average of a list of samples, newest first; weights are powers of the decay.\<close>

fun weigh :: "'f floats \<Rightarrow> 'f \<Rightarrow> nat \<Rightarrow> duration list \<Rightarrow> 'f \<times> 'f \<Rightarrow> 'f \<times> 'f" where
  "weigh F decay k [] acc = acc"
| "weigh F decay k (x # xs) (t, ws) =
     (let w = f_pow F decay (f_of_int F (int k))
      in weigh F decay (Suc k) xs (f_add F t (f_mul F (f_of_int F x) w), f_add F ws w))"

definition weighted_average :: "'f floats \<Rightarrow> 'f \<Rightarrow> duration list \<Rightarrow> duration" where
  "weighted_average F decay xs =
     (if xs = [] then max_int64
      else case weigh F decay 0 xs (f_zero F, f_zero F) of
             (t, ws) \<Rightarrow> f_to_int F (f_div F t ws))"

section \<open>The ring buffer\<close>

text \<open>
  After the samples \<open>xs\<close> (oldest first) the buffer of size \<open>n\<close> holds sample number \<open>k\<close> of the
  last \<open>n\<close> at position \<open>k mod n\<close>.
\<close>

definition ring_ok :: "nat \<Rightarrow> 'f \<Rightarrow> duration list \<Rightarrow> 'f rtt_tracker \<Rightarrow> bool" where
  "ring_ok n decay xs r \<longleftrightarrow>
     0 < n \<and> rt_max r = int n \<and> rt_decay r = decay \<and> length (rt_samples r) = n
     \<and> rt_index r = int (length xs mod n) \<and> rt_count r = int (min (length xs) n)
     \<and> (\<forall>k. k < length xs \<and> length xs \<le> k + n \<longrightarrow> rt_samples r ! (k mod n) = xs ! k)"

lemma ring_ok_new:
  "new_rtt_tracker m decay = Ok r \<Longrightarrow> 0 < m \<Longrightarrow> ring_ok (nat m) decay [] r"
  by (auto simp: new_rtt_tracker_def ring_ok_def split: if_splits)

lemma mod_window_neq:
  fixes k l n :: nat
  assumes "k < l" and "l < k + n"
  shows "k mod n \<noteq> l mod n"
proof
  assume "k mod n = l mod n"
  then have "n dvd l - k" using assms(1) by (metis less_imp_le mod_eq_dvd_iff_nat)
  then have "n \<le> l - k" using assms(1) by (intro dvd_imp_le) auto
  with assms show False by linarith
qed

lemma ring_ok_add:
  assumes "ring_ok n decay xs r"
  shows "\<exists>r'. rtt_add_sample x r = Ok r' \<and> ring_ok n decay (xs @ [x]) r'"
proof -
  have n: "0 < n" "length (rt_samples r) = n" "rt_max r = int n"
    and idx: "rt_index r = int (length xs mod n)"
    using assms by (auto simp: ring_ok_def)
  have lt: "length xs mod n < n" using n(1) by simp
  let ?r = "r\<lparr>rt_samples := (rt_samples r)[length xs mod n := x],
              rt_index := go_rem (rt_index r + 1) (rt_max r),
              rt_count := (if rt_count r < rt_max r then rt_count r + 1 else rt_count r)\<rparr>"
  have "rtt_add_sample x r = Ok ?r"
    using n lt by (simp add: rtt_add_sample_def idx)
  moreover have "go_rem (rt_index r + 1) (rt_max r) = int (Suc (length xs) mod n)"
    using n(1) by (simp add: idx n(3) go_rem_nonneg) (metis mod_Suc_eq of_nat_Suc zmod_int add.commute)
  moreover have "(rt_samples r)[length xs mod n := x] ! (k mod n) = (xs @ [x]) ! k"
    if "k < Suc (length xs)" "Suc (length xs) \<le> k + n" for k
  proof (cases "k = length xs")
    case True
    then show ?thesis using lt n(2) by simp
  next
    case False
    then have "k < length xs" using that(1) by simp
    moreover have "k mod n \<noteq> length xs mod n"
      using \<open>k < length xs\<close> that(2) by (intro mod_window_neq) simp_all
    ultimately show ?thesis
      using assms that(2) by (simp add: ring_ok_def nth_append)
  qed
  ultimately show ?thesis
    using assms by (auto simp: ring_ok_def)
qed

lemma ring_ok_add_all:
  assumes "ring_ok n decay xs r"
  shows "\<exists>r'. rtt_add_all ys r = Ok r' \<and> ring_ok n decay (xs @ ys) r'"
  using assms
proof (induction ys arbitrary: xs r)
  case (Cons y ys)
  obtain r1 where "rtt_add_sample y r = Ok r1" "ring_ok n decay (xs @ [y]) r1"
    using ring_ok_add [OF Cons.prems] by blast
  with Cons.IH [of "xs @ [y]" r1] show ?case by simp
qed simp

text \<open>The index the loop computes for counter value \<open>i\<close> is where sample \<open>i\<close> from the end is.\<close>

lemma ring_index:
  fixes l n i :: nat
  assumes "0 < n" and "i < l" and "i < n"
  shows "(let idx0 = int (l mod n) - int i - 1 in if idx0 < 0 then idx0 + int n else idx0)
    = int ((l - 1 - i) mod n)"
proof -
  let ?x = "int (l mod n) - int i - 1"
  let ?y = "if ?x < 0 then ?x + int n else ?x"
  have window: "0 \<le> (if q - int i - 1 < 0 then q - int i - 1 + int n else q - int i - 1)
      \<and> (if q - int i - 1 < 0 then q - int i - 1 + int n else q - int i - 1) < int n"
    if "0 \<le> q" "q < int n" for q
    using that assms(3) by auto
  have range: "0 \<le> ?y" "?y < int n"
    using window [of "int (l mod n)"] assms(1) by auto
  have "?y mod int n = ?x mod int n" by simp
  also have "\<dots> = (int l - int i - 1) mod int n"
    by (simp add: zmod_int mod_diff_left_eq [of "int l mod int n" ] diff_diff_eq) (metis mod_diff_left_eq)
  also have "int l - int i - 1 = int (l - 1 - i)" using assms(2) by simp
  finally have "?y mod int n = int ((l - 1 - i) mod n)" by (simp add: zmod_int)
  then show ?thesis using range by (simp add: Let_def)
qed

lemma upto_from: "int k \<le> int m \<Longrightarrow> [int k..int m - 1] = map int [k..<m]"
  by (induction m) (auto simp: upto_rec2 le_Suc_eq)

lemma rtt_loop_weigh:
  assumes "ring_ok n decay xs r" and "m \<le> length xs" and "m \<le> n"
  shows "rtt_loop F r (map int [k..<m]) t ws
    = Ok (weigh F decay k (map (\<lambda>i. rev xs ! i) [k..<m]) (t, ws))"
proof (cases "k < m")
  case False
  then show ?thesis by simp
next
  case True
  then show ?thesis
  proof (induction "m - k" arbitrary: k t ws)
    case (Suc d)
    have n: "0 < n" "rt_max r = int n" "length (rt_samples r) = n" "rt_decay r = decay"
      "rt_index r = int (length xs mod n)"
      using assms(1) by (simp_all add: ring_ok_def)
    have k: "k < length xs" "k < n" using Suc.prems assms(2,3) by simp_all
    let ?j = "length xs - 1 - k"
    have idx: "(let idx0 = rt_index r - int k - 1 in if idx0 < 0 then idx0 + rt_max r else idx0)
        = int (?j mod n)"
      unfolding n(2) n(5) by (rule ring_index [OF n(1) k])
    have "rt_samples r ! (?j mod n) = xs ! ?j"
    proof -
      have "\<forall>k. k < length xs \<and> length xs \<le> k + n \<longrightarrow> rt_samples r ! (k mod n) = xs ! k"
        using assms(1) by (simp add: ring_ok_def)
      then show ?thesis using k by (auto dest!: spec [of _ ?j])
    qed
    also have "\<dots> = rev xs ! k" using k(1) by (simp add: rev_nth)
    finally have at: "rt_samples r ! (?j mod n) = rev xs ! k" .
    have step: "rtt_loop F r (int k # is) t ws =
      rtt_loop F r is
        (f_add F t (f_mul F (f_of_int F (rev xs ! k)) (f_pow F decay (f_of_int F (int k)))))
        (f_add F ws (f_pow F decay (f_of_int F (int k))))" for "is"
      using idx mod_less_divisor [OF n(1), of ?j] at by (simp add: Let_def n(3,4) not_le)
    have upt: "[k..<m] = k # [Suc k..<m]" using Suc.prems by (simp add: upt_conv_Cons)
    show ?case
    proof (cases "Suc k < m")
      case True
      then show ?thesis
        using Suc.hyps(1) [of "Suc k"] Suc.hyps(2) by (simp add: upt step Let_def del: rtt_loop.simps(2))
    next
      case False
      then have "[k..<m] = [k]" by (simp add: upt)
      then show ?thesis by (simp add: step Let_def del: rtt_loop.simps(2))
    qed
  qed simp
qed

lemma map_nth_take: "map (\<lambda>i. ys ! i) [0..<min (length ys) n] = take n ys"
  by (rule nth_equalityI) simp_all

lemma rtt_average_ring:
  assumes "ring_ok n decay xs r"
  shows "rtt_average F r = Ok (weighted_average F decay (take n (rev xs)))"
proof (cases "xs = []")
  case True
  then show ?thesis using assms by (simp add: rtt_average_def weighted_average_def ring_ok_def)
next
  case False
  let ?m = "min (length xs) n"
  have n: "0 < n" "rt_count r = int ?m" using assms by (simp_all add: ring_ok_def)
  have ne: "rt_count r \<noteq> 0" "take n (rev xs) \<noteq> []" using False n by auto
  have "rtt_loop F r [0..rt_count r - 1] (f_zero F) (f_zero F)
      = Ok (weigh F decay 0 (map (\<lambda>i. rev xs ! i) [0..<?m]) (f_zero F, f_zero F))"
    using rtt_loop_weigh [OF assms, of ?m F 0] upto_from [of 0 ?m] by (simp only: n(2)) simp
  also have "map (\<lambda>i. rev xs ! i) [0..<?m] = take n (rev xs)"
    using map_nth_take [of "rev xs" n] by simp
  finally show ?thesis
    using ne by (simp add: rtt_average_def weighted_average_def split: prod.split)
qed

section \<open>Properties\<close>

text \<open>
  C31. The ring buffer is the list of the last \<open>maxSamples\<close> samples: for a positive size, adding
  any samples to a new tracker never fails, and \<open>getAverageRTT\<close> is the weighted average of the
  last \<open>maxSamples\<close> of them, newest first with the weights \<open>decay\<^sup>0, decay\<^sup>1, \<dots>\<close>, whatever the
  floating-point operations do; without samples it is the largest duration.
\<close>

theorem rtt_average_of_last_samples:
  assumes "0 < m" and "new_rtt_tracker m decay = Ok r0"
  shows "\<exists>r. rtt_add_all xs r0 = Ok r \<and> rt_count r = min (int (length xs)) m
    \<and> rtt_average F r = Ok (weighted_average F decay (take (nat m) (rev xs)))"
proof -
  obtain r where r: "rtt_add_all xs r0 = Ok r" "ring_ok (nat m) decay ([] @ xs) r"
    using ring_ok_add_all [OF ring_ok_new [OF assms(2,1)]] by blast
  then show ?thesis
    using rtt_average_ring [of "nat m" decay xs r F] assms(1) by (auto simp: ring_ok_def)
qed

text \<open>The options are checked against neither size: 0 panics at the first sample.\<close>

lemma rtt_bad_sizes:
  "m < 0 \<Longrightarrow> new_rtt_tracker m decay = Panic MakeSliceNegative"
  "new_rtt_tracker 0 decay = Ok r \<Longrightarrow> rtt_add_sample x r = Panic IndexOutOfRange"
  by (auto simp: new_rtt_tracker_def rtt_add_sample_def)

section \<open>Witnesses\<close>

definition int_floats :: "int floats" where
  "int_floats = \<lparr>f_zero = 0, f_of_int = (\<lambda>x. x), f_add = (+), f_mul = (*), f_div = (div),
     f_pow = (\<lambda>a b. a ^ nat b), f_to_int = (\<lambda>x. x)\<rparr>"

theorem rtt_average_of_last_samples_witness:
  "\<exists>r. rtt_add_all [10, 20, 30, 40, 50] \<lparr>rt_samples = [0, 0, 0], rt_index = 0, rt_count = 0, rt_max = 3,
          rt_decay = 2\<rparr> = Ok r
     \<and> rtt_average int_floats r = Ok (weighted_average int_floats 2 [50, 40, 30])"
proof -
  have "new_rtt_tracker 3 (2 :: int) = Ok \<lparr>rt_samples = [0, 0, 0], rt_index = 0, rt_count = 0,
      rt_max = 3, rt_decay = 2\<rparr>"
    by (simp add: new_rtt_tracker_def numeral_3_eq_3)
  from rtt_average_of_last_samples [OF _ this, of "[10, 20, 30, 40, 50]" int_floats]
  show ?thesis by auto
qed

end
