(* ===== verification/Client.thy ===== *)
theory Client
  imports Service Caches Rtt
begin

text \<open>
  \<open>core/client/hft_client.go\<close>: the client. \<open>GetVerifiedTimestamp\<close> is a function of the events
  its \<open>select\<close> statements see, one per receive: the arrival of a server's response, or the end
  of the context. Each arrival carries the clock readings of its verification. Where the events
  run out the call is still waiting, which is \<open>Blocked\<close>. The HTTP client is not used by the
  source and not modelled; \<open>'f\<close> is the type of \<open>float64\<close>, see \<open>Rtt\<close>.
\<close>

section \<open>The client's state\<close>

record 'f hft_options =
  ho_request_timeout :: duration
  ho_quorum :: int
  ho_progressive :: bool
  ho_caching :: bool
  ho_batching :: bool
  ho_cache_ttl :: duration
  ho_max_conns :: int
  ho_max_idle :: int
  ho_idle_timeout :: duration
  ho_rtt_size :: int
  ho_rtt_decay :: 'f

record client_stats =
  sx_requests :: int
  sx_cache_hits :: int
  sx_cache_misses :: int
  sx_verification_failures :: int
  sx_quorum_failures :: int
  sx_request_timeouts :: int

record 'f hft_client =
  hc_options :: "'f hft_options"
  hc_rtt :: "(string, 'f rtt_tracker) gomap"
  hc_verify :: "bool ttl_cache option"
  hc_batch :: "batch_cache option"
  hc_stats :: client_stats

definition default_request_timeout :: duration where
  "default_request_timeout = 250 * millisecond"

definition default_max_conns_per_host :: int where
  "default_max_conns_per_host = 10"

definition default_max_idle_conns :: int where
  "default_max_idle_conns = 100"

definition default_idle_conn_timeout :: duration where
  "default_idle_conn_timeout = 90 * second"

definition default_cache_ttl :: duration where
  "default_cache_ttl = 5 * second"

definition default_rtt_sample_size :: int where
  "default_rtt_sample_size = 20"

text \<open>\<open>decay\<close> is the \<open>float64\<close> constant 0.8.\<close>

definition default_hft_options :: "'f \<Rightarrow> 'f hft_options" where
  "default_hft_options decay =
     \<lparr>ho_request_timeout = default_request_timeout, ho_quorum = 3, ho_progressive = True,
      ho_caching = True, ho_batching = True, ho_cache_ttl = default_cache_ttl,
      ho_max_conns = default_max_conns_per_host, ho_max_idle = default_max_idle_conns,
      ho_idle_timeout = default_idle_conn_timeout, ho_rtt_size = default_rtt_sample_size,
      ho_rtt_decay = decay\<rparr>"

definition new_hft_client :: "'f \<Rightarrow> 'f hft_options option \<Rightarrow> 'f hft_client" where
  "new_hft_client decay opts =
     (let opt = (case opts of None \<Rightarrow> default_hft_options decay | Some given \<Rightarrow> given)
      in \<lparr>hc_options = opt, hc_rtt = [],
          hc_verify = (if ho_caching opt then Some (new_verification_cache (ho_cache_ttl opt)) else None),
          hc_batch = (if ho_caching opt then Some (new_timestamp_batch_cache (ho_cache_ttl opt)) else None),
          hc_stats = \<lparr>sx_requests = 0, sx_cache_hits = 0, sx_cache_misses = 0,
                      sx_verification_failures = 0, sx_quorum_failures = 0, sx_request_timeouts = 0\<rparr>\<rparr>)"

definition count_stat :: "(client_stats \<Rightarrow> client_stats) \<Rightarrow> 'f hft_client \<Rightarrow> 'f hft_client" where
  "count_stat f c = c\<lparr>hc_stats := f (hc_stats c)\<rparr>"

definition get_stats :: "'f hft_client \<Rightarrow> (string, int) gomap" where
  "get_stats c =
     [(''requests'', sx_requests (hc_stats c)), (''cache_hits'', sx_cache_hits (hc_stats c)),
      (''cache_misses'', sx_cache_misses (hc_stats c)),
      (''verification_failures'', sx_verification_failures (hc_stats c)),
      (''quorum_failures'', sx_quorum_failures (hc_stats c)),
      (''request_timeouts'', sx_request_timeouts (hc_stats c))]"

section \<open>Choosing servers\<close>

text \<open>A tracker's average does not panic (lemma \<open>tracker_average_ok\<close>).\<close>

definition tracker_average :: "'f floats \<Rightarrow> 'f rtt_tracker \<Rightarrow> duration" where
  "tracker_average F t = (case rtt_average F t of Ok d \<Rightarrow> d | _ \<Rightarrow> max_int64)"

definition rtt_less :: "'f floats \<Rightarrow> 'f hft_client \<Rightarrow> time_server \<Rightarrow> time_server \<Rightarrow> bool" where
  "rtt_less F c a b =
     (case (map_of (hc_rtt c) (get_id a), map_of (hc_rtt c) (get_id b)) of
        (Some ta, None) \<Rightarrow> True
      | (None, Some tb) \<Rightarrow> False
      | (None, None) \<Rightarrow> get_id a < get_id b
      | (Some ta, Some tb) \<Rightarrow> tracker_average F ta < tracker_average F tb)"

text \<open>\<open>srt\<close> is \<open>sort.Slice\<close>.\<close>

definition get_servers_by_rtt ::
  "'f floats \<Rightarrow> ((time_server \<Rightarrow> time_server \<Rightarrow> bool) \<Rightarrow> time_server list \<Rightarrow> time_server list)
   \<Rightarrow> time_network \<Rightarrow> string \<Rightarrow> 'f hft_client \<Rightarrow> time_server list" where
  "get_servers_by_rtt F srt net region c =
     (let regional = (if region \<noteq> [] then tn_by_region net region else []);
          servers = (if regional = [] then tn_servers net else regional)
      in srt (rtt_less F c) servers)"

definition update_server_rtt :: "string \<Rightarrow> duration \<Rightarrow> 'f hft_client \<Rightarrow> 'f hft_client outcome" where
  "update_server_rtt i rtt c =
     bind_outcome
       (case map_of (hc_rtt c) i of
          Some t \<Rightarrow> Ok t
        | None \<Rightarrow> new_rtt_tracker (ho_rtt_size (hc_options c)) (ho_rtt_decay (hc_options c)))
       (\<lambda>t. bind_outcome (rtt_add_sample rtt t)
         (\<lambda>t'. Ok (c\<lparr>hc_rtt := map_put i t' (hc_rtt c)\<rparr>)))"

section \<open>Requests and verification\<close>

text \<open>
  \<open>fast\<close> is the answer of the server's fast path where the server has the method the type
  assertion asks for, and nothing else.
\<close>

definition request_timestamp ::
  "signed_timestamp option outcome option \<Rightarrow> gotime \<Rightarrow> time_server
   \<Rightarrow> signed_timestamp option outcome" where
  "request_timestamp fast now srv =
     (case fast of
        Some r \<Rightarrow> r
      | None \<Rightarrow>
          (case st_sign \<lparr>st_time = now, st_server = get_id srv, st_region = get_region srv,
                         st_sig = []\<rparr> srv of
             (ts, r) \<Rightarrow> bind_outcome r (\<lambda>_. Ok (Some ts))))"

record hft_response =
  hr_ts :: "signed_timestamp option"
  hr_err :: "goerr option"
  hr_server :: time_server
  hr_rtt :: duration

text \<open>The goroutine that asks one server.\<close>

definition ask_server ::
  "signed_timestamp option outcome option \<Rightarrow> gotime \<Rightarrow> duration \<Rightarrow> time_server \<Rightarrow> 'f hft_client
   \<Rightarrow> ('f hft_client \<times> hft_response) outcome" where
  "ask_server fast now rtt srv c =
     (case request_timestamp fast now srv of
        Panic p \<Rightarrow> Panic p
      | Blocked \<Rightarrow> Blocked
      | Ok ts \<Rightarrow> bind_outcome (update_server_rtt (get_id srv) rtt c)
          (\<lambda>c'. Ok (c', \<lparr>hr_ts = ts, hr_err = None, hr_server = srv, hr_rtt = rtt\<rparr>))
      | Err e \<Rightarrow> bind_outcome (update_server_rtt (get_id srv) rtt c)
          (\<lambda>c'. Ok (c', \<lparr>hr_ts = None, hr_err = Some e, hr_server = srv, hr_rtt = rtt\<rparr>)))"

definition string_of_bytes :: "bytes \<Rightarrow> string" where
  "string_of_bytes b = map (\<lambda>w. char_of (unat w)) b"

definition cache_key :: "signed_timestamp \<Rightarrow> string" where
  "cache_key ts = st_server ts @ '':'' @ st_region ts @ '':'' @ string_of_bytes (st_sig ts)"

text \<open>\<open>t1\<close> and \<open>t2\<close> are the clock readings of the cache's \<open>get\<close> and \<open>set\<close>.\<close>

definition verify_response ::
  "gotime \<Rightarrow> gotime \<Rightarrow> signed_timestamp option \<Rightarrow> time_server \<Rightarrow> 'f hft_client
   \<Rightarrow> 'f hft_client \<times> unit outcome" where
  "verify_response t1 t2 ots srv c =
     (case ots of
        None \<Rightarrow> (c, Err ErrTimestampVerification)
      | Some ts \<Rightarrow>
          (case (if ho_caching (hc_options c) then hc_verify c else None) of
             None \<Rightarrow> (c, st_verify ts srv)
           | Some vc \<Rightarrow>
               (case vcache_get t1 (cache_key ts) vc of
                  Some b \<Rightarrow> (c, if b then Ok () else Err ErrTimestampVerification)
                | None \<Rightarrow>
                    (case st_verify ts srv of
                       Panic p \<Rightarrow> (c, Panic p)
                     | Blocked \<Rightarrow> (c, Blocked)
                     | r \<Rightarrow> (c\<lparr>hc_verify := Some (vcache_set t2 (cache_key ts) (r = Ok ()) vc)\<rparr>, r)))))"

section \<open>\<open>GetVerifiedTimestamp\<close>\<close>

record tally =
  tl_valid :: int
  tl_best :: "signed_timestamp option"

definition no_tally :: tally where
  "no_tally = \<lparr>tl_valid = 0, tl_best = None\<rparr>"

text \<open>A verified timestamp replaces the best one if it is earlier.\<close>

definition tally_add :: "signed_timestamp option \<Rightarrow> tally \<Rightarrow> tally" where
  "tally_add ots ty =
     \<lparr>tl_valid = tl_valid ty + 1,
      tl_best =
        (case (ots, tl_best ty) of
           (Some ts, Some best) \<Rightarrow> if st_time ts < st_time best then Some ts else Some best
         | (_, None) \<Rightarrow> ots
         | (None, Some best) \<Rightarrow> Some best)\<rparr>"

type_synonym arrival = "hft_response \<times> gotime \<times> gotime"

datatype select_event = Arrive arrival | Expire

fun absorb :: "arrival \<Rightarrow> 'f hft_client \<Rightarrow> tally \<Rightarrow> 'f hft_client \<times> tally outcome" where
  "absorb (resp, t1, t2) c ty =
     (if hr_err resp \<noteq> None then (c, Ok ty)
      else case verify_response t1 t2 (hr_ts resp) (hr_server resp) c of
             (c', Ok _) \<Rightarrow> (c', Ok (tally_add (hr_ts resp) ty))
           | (c', Err _) \<Rightarrow>
               (count_stat (\<lambda>s. s\<lparr>sx_verification_failures := sx_verification_failures s + 1\<rparr>) c', Ok ty)
           | (c', Panic p) \<Rightarrow> (c', Panic p)
           | (c', Blocked) \<Rightarrow> (c', Blocked))"

fun absorb_all :: "arrival list \<Rightarrow> 'f hft_client \<Rightarrow> tally \<Rightarrow> 'f hft_client \<times> tally outcome" where
  "absorb_all [] c ty = (c, Ok ty)"
| "absorb_all (a # as) c ty =
     (case absorb a c ty of (c', Ok ty') \<Rightarrow> absorb_all as c' ty' | (c', r) \<Rightarrow> (c', r))"

datatype gathered = Gathered "arrival list" "select_event list" | TimedOut | Waiting

fun gather :: "nat \<Rightarrow> select_event list \<Rightarrow> gathered" where
  "gather 0 es = Gathered [] es"
| "gather (Suc n) [] = Waiting"
| "gather (Suc n) (Expire # es) = TimedOut"
| "gather (Suc n) (Arrive a # es) =
     (case gather n es of Gathered as rest \<Rightarrow> Gathered (a # as) rest | r \<Rightarrow> r)"

definition request_timed_out :: goerr where
  "request_timed_out = Errorf ''timeout waiting for quorum: %w'' [FErr ErrRequestTimeout]"

definition note_timeout :: "'f hft_client \<Rightarrow> 'f hft_client" where
  "note_timeout = count_stat (\<lambda>s. s\<lparr>sx_request_timeouts := sx_request_timeouts s + 1\<rparr>)"

definition note_quorum_failure :: "'f hft_client \<Rightarrow> 'f hft_client" where
  "note_quorum_failure = count_stat (\<lambda>s. s\<lparr>sx_quorum_failures := sx_quorum_failures s + 1\<rparr>)"

text \<open>The second loop, which waits for the other responses.\<close>

fun drain ::
  "nat \<Rightarrow> int \<Rightarrow> select_event list \<Rightarrow> 'f hft_client \<Rightarrow> tally
   \<Rightarrow> 'f hft_client \<times> signed_timestamp option outcome" where
  "drain 0 q es c ty =
     (if tl_valid ty < q then (note_quorum_failure c, Err ErrQuorumNotReached)
      else (c, Ok (tl_best ty)))"
| "drain (Suc n) q [] c ty = (c, Blocked)"
| "drain (Suc n) q (Expire # es) c ty =
     (if q \<le> tl_valid ty then (c, Ok (tl_best ty)) else (note_timeout c, Err request_timed_out))"
| "drain (Suc n) q (Arrive a # es) c ty =
     (case absorb a c ty of
        (c', Ok ty') \<Rightarrow> drain n q es c' ty'
      | (c', Err e) \<Rightarrow> (c', Err e)
      | (c', Panic p) \<Rightarrow> (c', Panic p)
      | (c', Blocked) \<Rightarrow> (c', Blocked))"

definition effective_quorum :: "nat \<Rightarrow> 'f hft_client \<Rightarrow> int" where
  "effective_quorum n c =
     (if int n < ho_quorum (hc_options c) then int n else ho_quorum (hc_options c))"

definition collect_quorum ::
  "time_server list \<Rightarrow> select_event list \<Rightarrow> 'f hft_client
   \<Rightarrow> 'f hft_client \<times> signed_timestamp option outcome" where
  "collect_quorum servers es c0 =
     (let c = count_stat (\<lambda>s. s\<lparr>sx_requests := sx_requests s + 1\<rparr>) c0;
          n = length servers; q = effective_quorum n c
      in if servers = [] then (note_quorum_failure c, Err ErrNoServersAvailable)
         else case gather (nat q) es of
                TimedOut \<Rightarrow> (note_timeout c, Err request_timed_out)
              | Waiting \<Rightarrow> (c, Blocked)
              | Gathered as rest \<Rightarrow>
                  (case absorb_all as c no_tally of
                     (c', Ok ty) \<Rightarrow>
                       if ho_progressive (hc_options c) \<and> q \<le> tl_valid ty then (c', Ok (tl_best ty))
                       else drain (nat (int n - q)) q rest c' ty
                   | (c', Err e) \<Rightarrow> (c', Err e)
                   | (c', Panic p) \<Rightarrow> (c', Panic p)
                   | (c', Blocked) \<Rightarrow> (c', Blocked)))"

text \<open>The goroutine that goes on receiving after a progressive return; it only fills the cache.\<close>

fun background :: "nat \<Rightarrow> select_event list \<Rightarrow> 'f hft_client \<Rightarrow> 'f hft_client" where
  "background 0 es c = c"
| "background (Suc n) [] c = c"
| "background (Suc n) (Expire # es) c = c"
| "background (Suc n) (Arrive (resp, t1, t2) # es) c =
     background n es
       (if hr_err resp = None then fst (verify_response t1 t2 (hr_ts resp) (hr_server resp) c) else c)"

text \<open>
  A call in its surroundings. The world gives the floating-point operations, \<open>sort.Slice\<close> and the
  registry. An answer is one goroutine of the call that has come to its end: the server it asked
  (by its place in the order), what that server's fast path answered, the clock, the measured
  round trip, and the clock readings of the verification cache when the response is looked at.
  The goroutines share the buffered channel, so the responses arrive in the order of the answers;
  the deadline, if it passes, passes after a number of them. The measured times of all answers
  are recorded, also of those that come too late: the call itself does not read them again.
\<close>

record 'f hft_world =
  hw_floats :: "'f floats"
  hw_sort :: "(time_server \<Rightarrow> time_server \<Rightarrow> bool) \<Rightarrow> time_server list \<Rightarrow> time_server list"
  hw_net :: time_network

record answer =
  an_server :: nat
  an_fast :: "signed_timestamp option outcome option"
  an_now :: gotime
  an_rtt :: duration
  an_read :: "gotime \<times> gotime"

fun ask_all ::
  "time_server list \<Rightarrow> answer list \<Rightarrow> 'f hft_client \<Rightarrow> ('f hft_client \<times> arrival list) outcome" where
  "ask_all servers [] c = Ok (c, [])"
| "ask_all servers (a # as) c =
     bind_outcome (ask_server (an_fast a) (an_now a) (an_rtt a) (servers ! an_server a) c)
       (\<lambda>(c', resp). bind_outcome (ask_all servers as c')
         (\<lambda>(c'', arrivals). Ok (c'', (resp, an_read a) # arrivals)))"

definition events_of :: "nat option \<Rightarrow> arrival list \<Rightarrow> select_event list" where
  "events_of deadline as =
     (case deadline of
        None \<Rightarrow> map Arrive as
      | Some k \<Rightarrow> map Arrive (take k as) @ Expire # map Arrive (drop k as))"

definition asked_servers :: "'f hft_world \<Rightarrow> string \<Rightarrow> 'f hft_client \<Rightarrow> time_server list" where
  "asked_servers w region c = get_servers_by_rtt (hw_floats w) (hw_sort w) (hw_net w) region c"

definition get_verified_timestamp ::
  "'f hft_world \<Rightarrow> string \<Rightarrow> answer list \<Rightarrow> nat option \<Rightarrow> 'f hft_client
   \<Rightarrow> 'f hft_client \<times> signed_timestamp option outcome" where
  "get_verified_timestamp w region answers deadline c =
     (let servers = asked_servers w region c
      in case ask_all servers answers c of
           Ok (c', as) \<Rightarrow> collect_quorum servers (events_of deadline as) c'
         | Err e \<Rightarrow> (c, Err e)
         | Panic p \<Rightarrow> (c, Panic p)
         | Blocked \<Rightarrow> (c, Blocked))"

text \<open>
  \<open>t1\<close>, \<open>t2\<close> and \<open>t3\<close> are the clock readings of the batch cache's \<open>get\<close>, of \<open>time.Since\<close> and of
  the cache's \<open>set\<close>; \<open>fetch\<close> is the call of \<open>GetVerifiedTimestamp\<close>.
\<close>

definition batch_with ::
  "('f hft_client \<Rightarrow> 'f hft_client \<times> signed_timestamp option outcome)
   \<Rightarrow> gotime \<Rightarrow> gotime \<Rightarrow> gotime \<Rightarrow> string \<Rightarrow> duration
   \<Rightarrow> 'f hft_client \<Rightarrow> 'f hft_client \<times> signed_timestamp option outcome" where
  "batch_with fetch t1 t2 t3 key max_age c =
     (case (if ho_batching (hc_options c) then hc_batch c else None) of
        None \<Rightarrow> fetch c
      | Some bc \<Rightarrow>
          let hit = (case bcache_get t1 key bc of
                       None \<Rightarrow> None
                     | Some ts \<Rightarrow> if time_sub t2 (st_time ts) \<le> max_age then Some ts else None)
          in case hit of
               Some ts \<Rightarrow>
                 (count_stat (\<lambda>s. s\<lparr>sx_cache_hits := sx_cache_hits s + 1\<rparr>) c, Ok (Some ts))
             | None \<Rightarrow>
                 (case fetch (count_stat (\<lambda>s. s\<lparr>sx_cache_misses := sx_cache_misses s + 1\<rparr>) c) of
                    (c', Ok ts) \<Rightarrow>
                      (c'\<lparr>hc_batch := map_option (bcache_set t3 key ts) (hc_batch c')\<rparr>, Ok ts)
                  | (c', r) \<Rightarrow> (c', r)))"

definition get_verified_for_batch ::
  "'f hft_world \<Rightarrow> gotime \<Rightarrow> gotime \<Rightarrow> gotime \<Rightarrow> string \<Rightarrow> string \<Rightarrow> duration \<Rightarrow> answer list
   \<Rightarrow> nat option \<Rightarrow> 'f hft_client \<Rightarrow> 'f hft_client \<times> signed_timestamp option outcome" where
  "get_verified_for_batch w t1 t2 t3 key region max_age answers deadline =
     batch_with (get_verified_timestamp w region answers deadline) t1 t2 t3 key max_age"

section \<open>Tallies\<close>

text \<open>An arrival counts if it bears no error and its timestamp verifies against its server.\<close>

definition accepted_arrival :: "arrival \<Rightarrow> bool" where
  "accepted_arrival a =
     (case a of (resp, t1, t2) \<Rightarrow> hr_err resp = None \<and>
       (case hr_ts resp of None \<Rightarrow> False | Some ts \<Rightarrow> st_verify ts (hr_server resp) = Ok ()))"

text \<open>Its verification does not panic: the server's public key has the right size.\<close>

definition sane_arrival :: "arrival \<Rightarrow> bool" where
  "sane_arrival a =
     (case a of (resp, t1, t2) \<Rightarrow>
       (case hr_ts resp of None \<Rightarrow> True
        | Some ts \<Rightarrow> (case st_verify ts (hr_server resp) of Panic p \<Rightarrow> False | Blocked \<Rightarrow> False | _ \<Rightarrow> True)))"

definition arrival_ts :: "arrival \<Rightarrow> signed_timestamp option" where
  "arrival_ts a = hr_ts (fst a)"

definition tally_step :: "arrival \<Rightarrow> tally \<Rightarrow> tally" where
  "tally_step a ty = (if accepted_arrival a then tally_add (arrival_ts a) ty else ty)"

definition tally_of :: "arrival list \<Rightarrow> tally" where
  "tally_of as = fold tally_step as no_tally"

lemma tally_of_Nil: "tally_of [] = no_tally"
  by (simp add: tally_of_def)

lemma tally_of_snoc [simp]: "tally_of (as @ [a]) = tally_step a (tally_of as)"
  by (simp add: tally_of_def)

lemma accepted_ts: "accepted_arrival a \<Longrightarrow> \<exists>ts. arrival_ts a = Some ts"
  by (cases a) (auto simp: accepted_arrival_def arrival_ts_def split: option.splits)

lemma tally_of_valid: "tl_valid (tally_of as) = int (length (filter accepted_arrival as))"
proof (induction as rule: rev_induct)
  case (snoc a as)
  then show ?case by (simp add: tally_step_def tally_add_def)
qed (simp add: tally_of_def no_tally_def)

lemma tally_of_None:
  "tl_best (tally_of as) = None \<longleftrightarrow> filter accepted_arrival as = []"
proof (induction as rule: rev_induct)
  case (snoc a as)
  then show ?case
    using accepted_ts [of a] by (auto simp: tally_step_def tally_add_def split: option.splits)
qed (simp add: tally_of_def no_tally_def)

lemma tally_of_earliest:
  assumes "tl_best (tally_of as) = Some ts"
  shows "(\<exists>a \<in> set as. accepted_arrival a \<and> arrival_ts a = Some ts)
    \<and> (\<forall>a \<in> set as. \<forall>u. accepted_arrival a \<and> arrival_ts a = Some u \<longrightarrow> st_time ts \<le> st_time u)"
  using assms
proof (induction as arbitrary: ts rule: rev_induct)
  case (snoc a as)
  show ?case
  proof (cases "accepted_arrival a")
    case False
    then show ?thesis using snoc by (auto simp: tally_step_def)
  next
    case True
    then obtain u where u: "arrival_ts a = Some u" using accepted_ts by blast
    show ?thesis
    proof (cases "tl_best (tally_of as)")
      case None
      then have "ts = u" and "\<forall>b \<in> set as. \<not> accepted_arrival b"
        using snoc.prems True u tally_of_None [of as]
        by (simp_all add: tally_step_def tally_add_def filter_empty_conv)
      then show ?thesis using True u by auto
    next
      case (Some best)
      then have "ts = (if st_time u < st_time best then u else best)"
        using snoc.prems True u by (simp add: tally_step_def tally_add_def split: if_splits)
      then show ?thesis using snoc.IH [OF Some] True u
        by (auto split: if_splits)
    qed
  qed
qed (simp add: tally_of_def no_tally_def)

section \<open>Without the verification cache\<close>

definition cache_off :: "'f hft_client \<Rightarrow> bool" where
  "cache_off c \<longleftrightarrow> \<not> ho_caching (hc_options c) \<or> hc_verify c = None"

lemma verify_response_off:
  "cache_off c \<Longrightarrow> verify_response t1 t2 ots srv c =
     (c, case ots of None \<Rightarrow> Err ErrTimestampVerification | Some ts \<Rightarrow> st_verify ts srv)"
  by (auto simp: verify_response_def cache_off_def split: option.split)

lemma count_stat_fields [simp]:
  "hc_options (count_stat f c) = hc_options c" "hc_verify (count_stat f c) = hc_verify c"
  "hc_batch (count_stat f c) = hc_batch c" "hc_rtt (count_stat f c) = hc_rtt c"
  "cache_off (count_stat f c) = cache_off c"
  by (simp_all add: count_stat_def cache_off_def)

lemma absorb_off:
  assumes "cache_off c" and "absorb a c ty = (c', Ok ty')"
  shows "ty' = tally_step a ty \<and> cache_off c'"
  using assms
  by (cases a) (auto simp: verify_response_off tally_step_def accepted_arrival_def arrival_ts_def
      split: if_splits outcome.splits option.splits)

lemma absorb_sane:
  assumes "cache_off c" and "sane_arrival a"
  shows "\<exists>c'. absorb a c ty = (c', Ok (tally_step a ty)) \<and> cache_off c'"
  using assms
  by (cases a) (auto simp: verify_response_off tally_step_def accepted_arrival_def arrival_ts_def
      sane_arrival_def split: outcome.splits option.splits)

lemma absorb_all_off:
  assumes "cache_off c" and "absorb_all as c (tally_of xs) = (c', Ok ty)"
  shows "ty = tally_of (xs @ as) \<and> cache_off c'"
  using assms
proof (induction as arbitrary: c xs)
  case (Cons a as)
  obtain c1 ty1 where a: "absorb a c (tally_of xs) = (c1, Ok ty1)"
    "absorb_all as c1 ty1 = (c', Ok ty)"
    using Cons.prems(2) by (auto split: prod.splits outcome.splits)
  have "ty1 = tally_of (xs @ [a])" "cache_off c1"
    using absorb_off [OF Cons.prems(1) a(1)] by simp_all
  then show ?case using Cons.IH [of c1 "xs @ [a]"] a(2) by simp
qed simp

lemma absorb_all_sane:
  assumes "cache_off c" and "list_all sane_arrival as"
  shows "\<exists>c'. absorb_all as c (tally_of xs) = (c', Ok (tally_of (xs @ as))) \<and> cache_off c'"
  using assms
proof (induction as arbitrary: c xs)
  case (Cons a as)
  obtain c1 where "absorb a c (tally_of xs) = (c1, Ok (tally_of (xs @ [a])))" "cache_off c1"
    using absorb_sane [of c a] Cons.prems by auto
  then show ?case using Cons.IH [of c1 "xs @ [a]"] Cons.prems(2) by auto
qed auto

lemma gather_Gathered:
  "gather n es = Gathered as rest \<Longrightarrow> es = map Arrive as @ rest \<and> length as = n"
  by (induction n es arbitrary: as rule: gather.induct) (auto split: gathered.splits)

lemma gather_arrivals:
  "n \<le> length as \<Longrightarrow> gather n (map Arrive as) = Gathered (take n as) (map Arrive (drop n as))"
proof (induction n arbitrary: as)
  case (Suc n)
  then show ?case by (cases as) auto
qed simp

lemma drain_off:
  assumes "cache_off c" and "drain m q es c (tally_of as) = (c', Ok r)"
  shows "\<exists>bs rest. es = map Arrive bs @ rest \<and> length bs \<le> m
    \<and> r = tl_best (tally_of (as @ bs)) \<and> q \<le> tl_valid (tally_of (as @ bs))"
  using assms
proof (induction m arbitrary: es c as)
  case 0
  then show ?case by (intro exI [of _ "[]"] exI [of _ es]) (auto split: if_splits)
next
  case (Suc m)
  show ?case
  proof (cases es)
    case Nil
    then show ?thesis using Suc.prems by simp
  next
    case (Cons e es')
    show ?thesis
    proof (cases e)
      case Expire
      then show ?thesis
        using Suc.prems Cons
        by (intro exI [of _ "[]"] exI [of _ es]) (auto split: if_splits)
    next
      case (Arrive a)
      obtain c1 ty1 where a: "absorb a c (tally_of as) = (c1, Ok ty1)"
        "drain m q es' c1 ty1 = (c', Ok r)"
        using Suc.prems(2) Cons Arrive by (auto split: prod.splits outcome.splits)
      have "ty1 = tally_of (as @ [a])" "cache_off c1"
        using absorb_off [OF Suc.prems(1) a(1)] by simp_all
      then obtain bs rest where "es' = map Arrive bs @ rest" "length bs \<le> m"
        "r = tl_best (tally_of (as @ a # bs))" "q \<le> tl_valid (tally_of (as @ a # bs))"
        using Suc.IH [of c1 es' "as @ [a]"] a(2) by auto
      then show ?thesis
        using Cons Arrive by (intro exI [of _ "a # bs"] exI [of _ rest]) simp
    qed
  qed
qed

lemma drain_all:
  assumes "cache_off c" and "list_all sane_arrival bs"
  shows "snd (drain (length bs) q (map Arrive bs) c (tally_of as)) =
    (if tl_valid (tally_of (as @ bs)) < q then Err ErrQuorumNotReached
     else Ok (tl_best (tally_of (as @ bs))))"
  using assms
proof (induction bs arbitrary: c as)
  case (Cons b bs)
  obtain c1 where "absorb b c (tally_of as) = (c1, Ok (tally_of (as @ [b])))" "cache_off c1"
    using absorb_sane [of c b] Cons.prems by auto
  then show ?case using Cons.IH [of c1 "as @ [b]"] Cons.prems(2) by simp
qed simp

fun sane_event :: "select_event \<Rightarrow> bool" where
  "sane_event (Arrive a) = sane_arrival a"
| "sane_event Expire = True"

lemma drain_returns:
  assumes "cache_off c" and "list_all sane_event es" and "Expire \<in> set es \<or> m \<le> length es"
  shows "returns (snd (drain m q es c ty))"
  using assms
proof (induction m q es c ty rule: drain.induct)
  case (4 n q a es c ty)
  obtain c1 where "absorb a c ty = (c1, Ok (tally_step a ty))" "cache_off c1"
    using absorb_sane [of c a] 4(2,3) by auto
  then show ?case using 4 by simp
qed simp_all

lemma gather_waiting:
  "gather n es = Waiting \<Longrightarrow> Expire \<notin> set es \<and> length es < n"
  by (induction n es rule: gather.induct) (auto split: gathered.splits)

section \<open>What a call leaves alone\<close>

text \<open>The options, the round-trip times and the batch cache.\<close>

definition keeps :: "'f hft_client \<Rightarrow> 'f hft_client \<Rightarrow> bool" where
  "keeps c c' \<longleftrightarrow>
     hc_options c' = hc_options c \<and> hc_batch c' = hc_batch c \<and> hc_rtt c' = hc_rtt c"

lemma keeps_refl [simp]: "keeps c c"
  by (simp add: keeps_def)

lemma keeps_trans: "keeps a b \<Longrightarrow> keeps b c \<Longrightarrow> keeps a c"
  by (simp add: keeps_def)

lemma keeps_count_stat [simp]: "keeps c (count_stat f c') = keeps c c'"
  by (simp add: keeps_def)

lemma verify_response_keeps: "keeps c (fst (verify_response t1 t2 ots srv c))"
  by (simp add: verify_response_def keeps_def split: option.split outcome.split)

lemma absorb_keeps: "keeps c (fst (absorb a c ty))"
proof (cases a)
  case (fields resp t1 t2)
  then show ?thesis
    using verify_response_keeps [of c t1 t2 "hr_ts resp" "hr_server resp"]
    by (auto split: prod.split outcome.split)
qed

lemma absorb_all_keeps: "keeps c (fst (absorb_all as c ty))"
proof (induction as arbitrary: c ty)
  case (Cons a as)
  then show ?case
    using absorb_keeps [of c a ty] by (auto split: prod.split outcome.split intro: keeps_trans)
qed simp

lemma drain_keeps: "keeps c (fst (drain n q es c ty))"
proof (induction n q es c ty rule: drain.induct)
  case (4 n q a es c ty)
  then show ?case
    using absorb_keeps [of c a ty] by (auto split: prod.split outcome.split intro: keeps_trans)
qed (simp_all add: note_timeout_def note_quorum_failure_def)

lemma collect_quorum_keeps:
  "hc_options (fst (collect_quorum servers es c)) = hc_options c"
  "hc_batch (fst (collect_quorum servers es c)) = hc_batch c"
proof -
  have drained: "keeps c (fst (drain n q rest c1 ty))" if "keeps c c1" for n q rest c1 ty
    using keeps_trans [OF that drain_keeps] .
  have absorbed: "keeps c c1" if "absorb_all as (count_stat f c) ty = (c1, r)" for as f ty c1 r
    using absorb_all_keeps [of "count_stat f c" as ty] that by (simp add: keeps_def)
  have "keeps c (fst (collect_quorum servers es c))"
    by (auto simp: collect_quorum_def Let_def note_timeout_def note_quorum_failure_def
        split: gathered.split prod.split outcome.split intro: drained dest!: absorbed)
  then show "hc_options (fst (collect_quorum servers es c)) = hc_options c"
    "hc_batch (fst (collect_quorum servers es c)) = hc_batch c"
    by (simp_all add: keeps_def)
qed

lemma effective_quorum_count_stat [simp]:
  "effective_quorum n (count_stat f c) = effective_quorum n c"
  by (simp add: effective_quorum_def)

text \<open>The call for a non-empty list of servers.\<close>

lemma collect_quorum_eq:
  assumes "servers \<noteq> []" and "q = effective_quorum (length servers) c"
  shows "collect_quorum servers es c =
    (let c1 = count_stat (\<lambda>s. s\<lparr>sx_requests := sx_requests s + 1\<rparr>) c
     in case gather (nat q) es of
          TimedOut \<Rightarrow> (note_timeout c1, Err request_timed_out)
        | Waiting \<Rightarrow> (c1, Blocked)
        | Gathered as rest \<Rightarrow>
            (case absorb_all as c1 (tally_of []) of
               (c', Ok ty) \<Rightarrow>
                 if ho_progressive (hc_options c) \<and> q \<le> tl_valid ty then (c', Ok (tl_best ty))
                 else drain (nat (int (length servers) - q)) q rest c' ty
             | (c', Err e) \<Rightarrow> (c', Err e)
             | (c', Panic p) \<Rightarrow> (c', Panic p)
             | (c', Blocked) \<Rightarrow> (c', Blocked)))"
  unfolding collect_quorum_def Let_def effective_quorum_count_stat count_stat_fields
    tally_of_Nil assms(2)
  using assms(1) by (simp only: if_False)

text \<open>The answer of a call that every asked server responds to.\<close>

lemma collect_quorum_all:
  assumes "cache_off c" and "1 \<le> ho_quorum (hc_options c)" and "servers \<noteq> []"
    and "length as = length servers" and "list_all sane_arrival as"
    and "q = effective_quorum (length servers) c"
  shows "snd (collect_quorum servers (map Arrive as) c)
    = (if ho_progressive (hc_options c) \<and> q \<le> tl_valid (tally_of (take (nat q) as))
       then Ok (tl_best (tally_of (take (nat q) as)))
       else if tl_valid (tally_of as) < q then Err ErrQuorumNotReached
       else Ok (tl_best (tally_of as)))"
proof -
  let ?c = "count_stat (\<lambda>s. s\<lparr>sx_requests := sx_requests s + 1\<rparr>) c"
  let ?n = "length servers"
  let ?xs = "take (nat q) as" and ?ys = "drop (nat q) as"
  have q1: "1 \<le> q" "q \<le> int ?n"
    using assms(2,3,6) by (auto simp: effective_quorum_def Suc_le_eq)
  have g: "gather (nat q) (map Arrive as) = Gathered ?xs (map Arrive ?ys)"
    using q1 assms(4) by (intro gather_arrivals) simp
  have sane: "list_all sane_arrival ?xs" "list_all sane_arrival ?ys"
    using assms(5) by (metis append_take_drop_id list_all_append)+
  obtain c1 where a: "absorb_all ?xs ?c (tally_of []) = (c1, Ok (tally_of ?xs))" "cache_off c1"
    using absorb_all_sane [OF _ sane(1), of ?c "[]"] assms(1) by auto
  have len: "nat (int ?n - q) = length ?ys" using q1 assms(4) by simp
  show ?thesis
    using drain_all [OF a(2) sane(2), of q ?xs]
    unfolding collect_quorum_eq [OF assms(3,6)] Let_def g gathered.case a(1) len
    by (simp del: length_drop)
qed

end
