(* ===== verification/ClientProps.thy ===== *)
theory ClientProps
  imports Client
begin

text \<open>
  What the client of \<open>core/client/hft_client.go\<close> guarantees: the quorum and the choice of the
  timestamp, that a call returns, the reuse of timestamps in a batch, the order of the servers,
  and what the verification cache does not check.
\<close>

section \<open>The quorum\<close>

text \<open>
  Soundness of the quorum (verification cache off, positive quorum): a collection that ends
  without an error has received, one at a time and at most one per asked server, responses of
  which at least the quorum (or all servers, if there are fewer) verify against their servers,
  and it returns the earliest timestamp among the verified ones, never nil.
\<close>

lemma collect_sound:
  assumes "cache_off c" and "1 \<le> ho_quorum (hc_options c)"
    and "collect_quorum servers es c = (c', Ok r)"
  shows "\<exists>as rest ts. es = map Arrive as @ rest \<and> length as \<le> length servers
    \<and> effective_quorum (length servers) c \<le> int (length (filter accepted_arrival as))
    \<and> r = Some ts \<and> (\<exists>a \<in> set as. accepted_arrival a \<and> arrival_ts a = Some ts)
    \<and> (\<forall>a \<in> set as. \<forall>u. accepted_arrival a \<and> arrival_ts a = Some u \<longrightarrow> st_time ts \<le> st_time u)"
proof -
  let ?c = "count_stat (\<lambda>s. s\<lparr>sx_requests := sx_requests s + 1\<rparr>) c"
  let ?n = "length servers"
  let ?q = "effective_quorum ?n c"
  have ne: "servers \<noteq> []" using assms(3) by (auto simp: collect_quorum_def Let_def)
  then have q1: "1 \<le> ?q" "?q \<le> int ?n"
    using assms(2) by (auto simp: effective_quorum_def Suc_le_eq)
  obtain as rest where g: "gather (nat ?q) es = Gathered as rest"
    using assms(3) by (auto simp: collect_quorum_eq [OF ne refl] Let_def split: gathered.splits)
  have as: "es = map Arrive as @ rest" "length as = nat ?q"
    using gather_Gathered [OF g] by simp_all
  obtain c1 ty where run: "absorb_all as ?c (tally_of []) = (c1, Ok ty)"
    "(if ho_progressive (hc_options c) \<and> ?q \<le> tl_valid ty then (c1, Ok (tl_best ty))
      else drain (nat (int ?n - ?q)) ?q rest c1 ty) = (c', Ok r)"
    using assms(3)
    by (auto simp: collect_quorum_eq [OF ne refl] Let_def g split: prod.splits outcome.splits)
  have "cache_off ?c" using assms(1) by simp
  from absorb_all_off [OF this run(1)] have ty: "ty = tally_of as" "cache_off c1" by simp_all
  have "\<exists>bs rest'. rest = map Arrive bs @ rest' \<and> length bs \<le> nat (int ?n - ?q)
    \<and> r = tl_best (tally_of (as @ bs)) \<and> ?q \<le> tl_valid (tally_of (as @ bs))"
  proof (cases "ho_progressive (hc_options c) \<and> ?q \<le> tl_valid ty")
    case True
    then show ?thesis using run(2) ty by (intro exI [of _ "[]"] exI [of _ rest]) simp
  next
    case False
    then have "drain (nat (int ?n - ?q)) ?q rest c1 (tally_of as) = (c', Ok r)"
      using run(2) unfolding ty(1) by (simp only: if_False simp_thms)
    then show ?thesis by (rule drain_off [OF ty(2)])
  qed
  then obtain bs rest' where bs: "rest = map Arrive bs @ rest'" "length bs \<le> nat (int ?n - ?q)"
    "r = tl_best (tally_of (as @ bs))" "?q \<le> tl_valid (tally_of (as @ bs))"
    by blast
  then have "filter accepted_arrival (as @ bs) \<noteq> []"
    using q1(1) by (auto simp: tally_of_valid)
  then obtain ts where ts: "r = Some ts" using bs(3) tally_of_None [of "as @ bs"] by (cases r) auto
  show ?thesis
    using as bs(1,2,4) q1 ts tally_of_earliest [of "as @ bs" ts] bs(3)
    by (intro exI [of _ "as @ bs"] exI [of _ rest'] exI [of _ ts]) (simp add: tally_of_valid)
qed

text \<open>
  Completeness: if every asked server responds before the deadline, the call returns a
  timestamp exactly if at least the quorum of the responses verify, and \<open>ErrQuorumNotReached\<close>
  otherwise, whether it returns progressively or not.
\<close>

lemma collect_all_answer:
  assumes "cache_off c" and "1 \<le> ho_quorum (hc_options c)" and "servers \<noteq> []"
    and "length as = length servers" and "list_all sane_arrival as"
  shows "if effective_quorum (length servers) c \<le> int (length (filter accepted_arrival as))
    then is_ok (snd (collect_quorum servers (map Arrive as) c))
    else snd (collect_quorum servers (map Arrive as) c) = Err ErrQuorumNotReached"
proof -
  let ?q = "effective_quorum (length servers) c"
  have "tl_valid (tally_of (take (nat ?q) as)) \<le> tl_valid (tally_of as)"
    unfolding tally_of_valid
    by (metis append_take_drop_id filter_append length_append le_add1 of_nat_mono)
  then show ?thesis
    by (auto simp: collect_quorum_all [OF assms refl] tally_of_valid outcome_simps)
qed

text \<open>
  A collection never waits for ever: it ends (with a timestamp or an error) as soon as the context
  has ended or as many responses have arrived as servers were asked.
\<close>

lemma collect_returns:
  assumes "cache_off c" and "1 \<le> ho_quorum (hc_options c)"
    and "list_all sane_event es" and "Expire \<in> set es \<or> length servers \<le> length es"
  shows "returns (snd (collect_quorum servers es c))"
proof -
  let ?c = "count_stat (\<lambda>s. s\<lparr>sx_requests := sx_requests s + 1\<rparr>) c"
  let ?n = "length servers"
  let ?q = "effective_quorum ?n c"
  show ?thesis
  proof (cases "servers = []")
    case False
    then have q1: "1 \<le> ?q" "?q \<le> int ?n"
      using assms(2) by (auto simp: effective_quorum_def Suc_le_eq)
    then have enough: "Expire \<in> set es \<or> nat ?q \<le> length es" using assms(4) by auto
    show ?thesis
    proof (cases "gather (nat ?q) es")
      case (Gathered as rest)
      have es: "es = map Arrive as @ rest" "length as = nat ?q"
        using gather_Gathered [OF Gathered] by simp_all
      have sane: "list_all sane_arrival as" "list_all sane_event rest"
        using assms(3) unfolding es(1) by (simp_all add: list.pred_map comp_def)
      obtain c1 where a: "absorb_all as ?c (tally_of []) = (c1, Ok (tally_of as))" "cache_off c1"
        using absorb_all_sane [OF _ sane(1), of ?c "[]"] assms(1) by auto
      have "Expire \<in> set rest \<or> nat (int ?n - ?q) \<le> length rest"
        using assms(4) es q1 by auto
      from drain_returns [OF a(2) sane(2) this] show ?thesis
        unfolding collect_quorum_eq [OF False refl] Let_def Gathered gathered.case a(1) by simp
    next
      case TimedOut
      then show ?thesis by (simp add: collect_quorum_eq [OF False refl] Let_def)
    next
      case Waiting
      from gather_waiting [OF this] show ?thesis using enough by auto
    qed
  qed (simp add: collect_quorum_def Let_def)
qed

section \<open>The verification cache\<close>

text \<open>
  C38. The cache key leaves out the time: after a timestamp has been verified and cached, any
  timestamp with the same server id, region and signature is accepted until the entry expires,
  whatever its time and whichever server it is checked against, without a look at the
  signature.
\<close>

theorem cached_verification_ignores_time:
  assumes "ho_caching (hc_options c)" and "hc_verify c = Some vc" and "cache_ok ttl vc"
    and "vcache_get t1 (cache_key ts) vc = None"
    and "verify_response t1 t2 (Some ts) srv c = (c', Ok ())"
    and "\<not> time_add t2 ttl < t3"
  shows "verify_response t3 t4 (Some (ts\<lparr>st_time := forged\<rparr>)) srv' c' = (c', Ok ())"
proof -
  have c': "c' = c\<lparr>hc_verify := Some (vcache_set t2 (cache_key ts) True vc)\<rparr>"
    using assms(1,2,4,5) by (auto simp: verify_response_def split: outcome.splits)
  have key: "cache_key (ts\<lparr>st_time := forged\<rparr>) = cache_key ts" by (simp add: cache_key_def)
  have "vcache_get t3 (cache_key ts) (vcache_set t2 (cache_key ts) True vc) = Some True"
    using vcache.lookup_put [OF assms(3)] assms(6) by simp
  then show ?thesis using assms(1) by (simp add: verify_response_def c' key)
qed

section \<open>The order of the servers\<close>

text \<open>What the documentation of \<open>sort.Slice\<close> promises for a comparison that is a strict weak order.\<close>

definition strict_weak :: "('a \<Rightarrow> 'a \<Rightarrow> bool) \<Rightarrow> 'a list \<Rightarrow> bool" where
  "strict_weak lt xs \<longleftrightarrow>
     (\<forall>a \<in> set xs. \<forall>b \<in> set xs. lt a b \<longrightarrow> \<not> lt b a)
     \<and> (\<forall>a \<in> set xs. \<forall>b \<in> set xs. \<forall>c \<in> set xs. \<not> lt a b \<longrightarrow> \<not> lt b c \<longrightarrow> \<not> lt a c)"

definition sort_spec :: "(('a \<Rightarrow> 'a \<Rightarrow> bool) \<Rightarrow> 'a list \<Rightarrow> 'a list) \<Rightarrow> bool" where
  "sort_spec srt \<longleftrightarrow>
     (\<forall>lt xs. mset (srt lt xs) = mset xs
        \<and> (strict_weak lt xs \<longrightarrow> sorted_wrt (\<lambda>a b. \<not> lt b a) (srt lt xs)))"

lemma strict_weak_mono:
  assumes "strict_weak lt xs" and "set ys \<subseteq> set xs"
  shows "strict_weak lt ys"
  unfolding strict_weak_def using assms(1)[unfolded strict_weak_def] assms(2) by (meson subsetD)

lemma strict_weak_asym: "strict_weak lt xs \<Longrightarrow> a \<in> set xs \<Longrightarrow> b \<in> set xs \<Longrightarrow> lt a b \<Longrightarrow> \<not> lt b a"
  unfolding strict_weak_def by blast

lemma strict_weak_le_trans:
  "strict_weak lt xs \<Longrightarrow> a \<in> set xs \<Longrightarrow> b \<in> set xs \<Longrightarrow> c \<in> set xs
   \<Longrightarrow> \<not> lt a b \<Longrightarrow> \<not> lt b c \<Longrightarrow> \<not> lt a c"
  unfolding strict_weak_def by blast

lemma rtt_less_strict_weak: "strict_weak (rtt_less F c) xs"
  by (auto simp: strict_weak_def rtt_less_def split: option.splits)

definition has_rtt :: "'f hft_client \<Rightarrow> time_server \<Rightarrow> bool" where
  "has_rtt c s \<longleftrightarrow> has_key (hc_rtt c) (get_id s)"

definition average_rtt :: "'f floats \<Rightarrow> 'f hft_client \<Rightarrow> time_server \<Rightarrow> duration" where
  "average_rtt F c s =
     (case map_of (hc_rtt c) (get_id s) of None \<Rightarrow> max_int64 | Some t \<Rightarrow> tracker_average F t)"

text \<open>
  The servers asked are those of the region, or all servers if the region has none (or none
  is given), in an order in which the servers with measured round trips come first, those by
  increasing average and the others by increasing id. This needs of \<open>sort.Slice\<close> only what it
  promises: the comparison is a strict weak order, whatever the averages are.
\<close>

lemma servers_ordered_by_rtt:
  assumes "sort_spec srt" and "r = get_servers_by_rtt F srt net region c"
  shows "mset r = mset (if region \<noteq> [] \<and> tn_by_region net region \<noteq> []
           then tn_by_region net region else tn_servers net)
    \<and> sorted_wrt (\<lambda>a b.
        (has_rtt c b \<longrightarrow> has_rtt c a \<and> average_rtt F c a \<le> average_rtt F c b)
        \<and> (\<not> has_rtt c a \<longrightarrow> \<not> has_rtt c b \<and> get_id a \<le> get_id b)) r"
proof -
  let ?xs = "if region \<noteq> [] \<and> tn_by_region net region \<noteq> []
    then tn_by_region net region else tn_servers net"
  have r: "r = srt (rtt_less F c) ?xs" by (simp add: assms(2) get_servers_by_rtt_def Let_def)
  have "mset r = mset ?xs" and sorted: "sorted_wrt (\<lambda>a b. \<not> rtt_less F c b a) r"
  proof -
    have "mset (srt (rtt_less F c) xs) = mset xs
        \<and> sorted_wrt (\<lambda>a b. \<not> rtt_less F c b a) (srt (rtt_less F c) xs)" for xs
      using assms(1) rtt_less_strict_weak [of F c xs] by (simp add: sort_spec_def)
    then show "mset r = mset ?xs" and "sorted_wrt (\<lambda>a b. \<not> rtt_less F c b a) r"
      unfolding r by blast+
  qed
  moreover have "sorted_wrt (\<lambda>a b.
      (has_rtt c b \<longrightarrow> has_rtt c a \<and> average_rtt F c a \<le> average_rtt F c b)
      \<and> (\<not> has_rtt c a \<longrightarrow> \<not> has_rtt c b \<and> get_id a \<le> get_id b)) r"
    by (rule sorted_wrt_mono_rel [OF _ sorted])
      (auto simp: rtt_less_def has_rtt_def average_rtt_def has_key_iff not_less split: option.splits)
  ultimately show ?thesis by blast
qed

section \<open>Trackers\<close>

text \<open>With a positive sample size no sample panics and every tracker's average is defined.\<close>

definition trackers_ok :: "'f hft_client \<Rightarrow> bool" where
  "trackers_ok c \<longleftrightarrow>
     0 < ho_rtt_size (hc_options c) \<and> wf_map (hc_rtt c)
     \<and> (\<forall>i t. map_of (hc_rtt c) i = Some t \<longrightarrow>
          (\<exists>xs. ring_ok (nat (ho_rtt_size (hc_options c))) (ho_rtt_decay (hc_options c)) xs t))"

lemma trackers_ok_new: "0 < ho_rtt_size o1 \<Longrightarrow> trackers_ok (new_hft_client d (Some o1))"
  by (simp add: trackers_ok_def new_hft_client_def Let_def)

lemma update_server_rtt_ok:
  assumes "trackers_ok c"
  shows "\<exists>c'. update_server_rtt i rtt c = Ok c' \<and> trackers_ok c'"
proof -
  let ?n = "nat (ho_rtt_size (hc_options c))" and ?d = "ho_rtt_decay (hc_options c)"
  have pos: "0 < ho_rtt_size (hc_options c)" using assms by (simp add: trackers_ok_def)
  obtain t xs where t: "(case map_of (hc_rtt c) i of Some t \<Rightarrow> Ok t
      | None \<Rightarrow> new_rtt_tracker (ho_rtt_size (hc_options c)) ?d) = Ok t" "ring_ok ?n ?d xs t"
  proof (cases "map_of (hc_rtt c) i")
    case None
    obtain t where t: "new_rtt_tracker (ho_rtt_size (hc_options c)) ?d = Ok t"
      using pos by (simp add: new_rtt_tracker_def)
    then have "ring_ok ?n ?d [] t" using pos by (rule ring_ok_new)
    with None t show ?thesis using that by simp
  next
    case (Some t)
    moreover obtain xs where "ring_ok ?n ?d xs t" using assms Some by (auto simp: trackers_ok_def)
    ultimately show ?thesis using that by simp
  qed
  obtain t' where "rtt_add_sample rtt t = Ok t'" "ring_ok ?n ?d (xs @ [rtt]) t'"
    using ring_ok_add [OF t(2)] by blast
  then show ?thesis using assms t(1) by (auto simp: update_server_rtt_def trackers_ok_def)
qed

lemma tracker_average_ok: "ring_ok n d xs t \<Longrightarrow> rtt_average F t = Ok (tracker_average F t)"
  using rtt_average_ring [of n d xs t F] by (simp add: tracker_average_def)

section \<open>Witnesses\<close>

definition demo_opts :: "bool \<Rightarrow> int hft_options" where
  "demo_opts caching =
     (default_hft_options 2)\<lparr>ho_quorum := 2, ho_caching := caching, ho_progressive := False\<rparr>"

definition demo_client :: "bool \<Rightarrow> int hft_client" where
  "demo_client caching = new_hft_client 2 (Some (demo_opts caching))"

definition demo_iface :: "string \<Rightarrow> time_server" where
  "demo_iface i = iface toy_ed25519 (demo_server i ''eu'' 7)"

definition demo_signed :: "string \<Rightarrow> int \<Rightarrow> signed_timestamp" where
  "demo_signed i t =
     fst (st_sign \<lparr>st_time = Instant t, st_server = [], st_region = [], st_sig = []\<rparr> (demo_iface i))"

lemma demo_signed_ok: "st_verify (demo_signed i t) (demo_iface i) = Ok ()"
proof -
  let ?st = "\<lparr>st_time = Instant t, st_server = [], st_region = [], st_sig = []\<rparr>"
  have ok: "case (toy_ed25519, demo_server i ''eu'' 7) of (c, x) \<Rightarrow> ed25519_spec c \<and> key_pair x"
    by (simp add: toy_ed25519_spec demo_key_pair)
  show ?thesis
    using srv.st_sign_verify [OF ok, of ?st "demo_signed i t" "snd (st_sign ?st (demo_iface i))"]
    by (simp add: demo_signed_def demo_iface_def)
qed

definition demo_arrival :: "string \<Rightarrow> int \<Rightarrow> arrival" where
  "demo_arrival i t =
     (\<lparr>hr_ts = Some (demo_signed i t), hr_err = None, hr_server = demo_iface i, hr_rtt = 1\<rparr>,
      Instant t, Instant t)"

lemma demo_accepted: "accepted_arrival (demo_arrival i t)" "sane_arrival (demo_arrival i t)"
  by (simp_all add: accepted_arrival_def sane_arrival_def demo_arrival_def demo_signed_ok)

lemma demo_signed_time: "st_time (demo_signed i t) = Instant t"
  by (simp add: demo_signed_def st_sign_def demo_iface_def srv_sign_eq ed25519_sign_def
      split: outcome.split)

definition demo_asked :: "time_server list" where
  "demo_asked = [demo_iface ''a'', demo_iface ''b'']"

definition demo_answered :: "arrival list" where
  "demo_answered = [demo_arrival ''b'' 9, demo_arrival ''a'' 4]"

lemma demo_client_ok:
  "cache_off (demo_client False)" "ho_quorum (hc_options (demo_client caching)) = 2"
  "effective_quorum (length demo_asked) (demo_client caching) = 2"
  by (simp_all add: cache_off_def demo_client_def new_hft_client_def demo_opts_def Let_def
      effective_quorum_def demo_asked_def)

lemma demo_best: "tally_of demo_answered = \<lparr>tl_valid = 2, tl_best = Some (demo_signed ''a'' 4)\<rparr>"
proof -
  have "arrival_ts (demo_arrival i t) = Some (demo_signed i t)" for i t
    by (simp add: arrival_ts_def demo_arrival_def)
  then show ?thesis
    by (simp add: tally_of_def demo_answered_def tally_step_def demo_accepted tally_add_def
        no_tally_def demo_signed_time less_time_iff)
qed

lemma demo_verified:
  assumes "cache_off c" and "ho_quorum (hc_options c) = 2"
  shows "snd (collect_quorum demo_asked (map Arrive demo_answered) c)
    = Ok (Some (demo_signed ''a'' 4))"
proof -
  have ne: "demo_asked \<noteq> []" and len: "length demo_answered = length demo_asked"
    and sane: "list_all sane_arrival demo_answered" and pos: "1 \<le> ho_quorum (hc_options c)"
    by (simp_all add: demo_answered_def demo_accepted demo_asked_def assms(2))
  have q: "2 = effective_quorum (length demo_asked) c"
    by (simp add: effective_quorum_def assms(2) demo_asked_def)
  have all: "take (nat 2) demo_answered = demo_answered" by (simp add: demo_answered_def)
  show ?thesis
    unfolding collect_quorum_all [OF assms(1) pos ne len sane q] all demo_best by simp
qed

theorem cached_verification_ignores_time_witness:
  "verify_response (Instant 3) (Instant 3) (Some ((demo_signed ''a'' 4)\<lparr>st_time := Instant 1000\<rparr>))
     (demo_iface ''b'')
     (fst (verify_response (Instant 1) (Instant 2) (Some (demo_signed ''a'' 4)) (demo_iface ''a'')
        (demo_client True)))
   = (fst (verify_response (Instant 1) (Instant 2) (Some (demo_signed ''a'' 4)) (demo_iface ''a'')
        (demo_client True)), Ok ())"
proof -
  let ?ts = "demo_signed ''a'' 4" and ?c = "demo_client True"
  let ?vc = "new_verification_cache (5 * second)"
  have c: "ho_caching (hc_options ?c)" "hc_verify ?c = Some ?vc"
    by (simp_all add: demo_client_def new_hft_client_def Let_def demo_opts_def default_hft_options_def default_cache_ttl_def)
  have miss: "vcache_get (Instant 1) (cache_key ?ts) ?vc = None"
    by (simp add: vcache_get_def new_verification_cache_def)
  have "verify_response (Instant 1) (Instant 2) (Some ?ts) (demo_iface ''a'') ?c
      = (fst (verify_response (Instant 1) (Instant 2) (Some ?ts) (demo_iface ''a'') ?c), Ok ())"
    by (simp add: verify_response_def c miss demo_signed_ok)
  moreover have "\<not> time_add (Instant 2) (5 * second) < Instant 3"
    by (simp add: less_time_iff second_def)
  ultimately show ?thesis
    by (rule cached_verification_ignores_time [OF c new_cache_ok(1) miss])
qed

text \<open>Insertion sort meets \<open>sort_spec\<close>.\<close>

fun insert_by :: "('a \<Rightarrow> 'a \<Rightarrow> bool) \<Rightarrow> 'a \<Rightarrow> 'a list \<Rightarrow> 'a list" where
  "insert_by lt x [] = [x]"
| "insert_by lt x (y # ys) = (if lt y x then y # insert_by lt x ys else x # y # ys)"

definition sort_by :: "('a \<Rightarrow> 'a \<Rightarrow> bool) \<Rightarrow> 'a list \<Rightarrow> 'a list" where
  "sort_by lt xs = foldr (insert_by lt) xs []"

lemma mset_insert_by [simp]: "mset (insert_by lt x ys) = add_mset x (mset ys)"
  by (induction ys) auto

lemma mset_sort_by [simp]: "mset (sort_by lt xs) = mset xs"
  by (induction xs) (simp_all add: sort_by_def)

lemma set_insert_by [simp]: "set (insert_by lt x ys) = insert x (set ys)"
  by (induction ys) auto

lemma sorted_insert_by:
  assumes "strict_weak lt (x # ys)" and "sorted_wrt (\<lambda>a b. \<not> lt b a) ys"
  shows "sorted_wrt (\<lambda>a b. \<not> lt b a) (insert_by lt x ys)"
  using assms
proof (induction ys)
  case (Cons y ys)
  have "strict_weak lt (x # ys)"
    by (rule strict_weak_mono [OF Cons.prems(1)]) auto
  then have IH: "sorted_wrt (\<lambda>a b. \<not> lt b a) (insert_by lt x ys)"
    by (rule Cons.IH) (use Cons.prems(2) in simp)
  have y: "\<forall>z \<in> set ys. \<not> lt z y" and ys: "sorted_wrt (\<lambda>a b. \<not> lt b a) ys"
    using Cons.prems(2) by simp_all
  show ?case
  proof (cases "lt y x")
    case True
    then have "\<not> lt x y"
      using strict_weak_asym [OF Cons.prems(1), of y x] by simp
    then show ?thesis using True y IH by simp
  next
    case False
    have "\<not> lt z x" if "z \<in> set ys" for z
      using strict_weak_le_trans [OF Cons.prems(1), of z y x] that y False by simp
    then show ?thesis using False y ys by simp
  qed
qed simp

lemma sort_by_spec: "sort_spec sort_by"
proof -
  have "sorted_wrt (\<lambda>a b. \<not> lt b a) (sort_by lt xs)"
    if "strict_weak lt xs" for lt :: "'a \<Rightarrow> 'a \<Rightarrow> bool" and xs
    using that
  proof (induction xs)
    case (Cons x xs)
    have "set (sort_by lt xs) = set xs"
      by (metis mset_sort_by set_mset_mset)
    then have "strict_weak lt (x # sort_by lt xs)"
      by (intro strict_weak_mono [OF Cons.prems]) simp
    moreover have "strict_weak lt xs" by (rule strict_weak_mono [OF Cons.prems]) auto
    ultimately have "sorted_wrt (\<lambda>a b. \<not> lt b a) (insert_by lt x (sort_by lt xs))"
      using Cons.IH by (intro sorted_insert_by) simp_all
    then show ?case by (simp add: sort_by_def)
  qed (simp add: sort_by_def)
  then show ?thesis by (simp add: sort_spec_def)
qed

lemma servers_ordered_by_rtt_witness:
  "\<exists>r. mset r = {#demo_iface ''a'', demo_iface ''b''#}
    \<and> sorted_wrt (\<lambda>a b. \<not> has_rtt (demo_client False) a \<longrightarrow> get_id a \<le> get_id b) r"
proof -
  let ?net = "\<lparr>tn_servers = demo_asked, tn_by_region = (\<lambda>g. []), tn_status = Blocked\<rparr>"
  let ?r = "get_servers_by_rtt int_floats sort_by ?net ''eu'' (demo_client False)"
  have "mset ?r = {#demo_iface ''a'', demo_iface ''b''#}"
    and "sorted_wrt (\<lambda>a b. \<not> has_rtt (demo_client False) a \<longrightarrow> get_id a \<le> get_id b) ?r"
    using servers_ordered_by_rtt [OF sort_by_spec refl, of int_floats ?net "''eu''" "demo_client False"]
    by (auto simp: demo_asked_def elim: sorted_wrt_mono_rel [rotated])
  then show ?thesis by blast
qed

end
