(* ===== verification/Calls.thy ===== *)
theory Calls
  imports ClientProps
begin

text \<open>
  Whole calls of the client of \<open>core/client/hft_client.go\<close>: the servers are chosen, a goroutine
  asks each of them, the responses are collected. The lemmas relate the goroutines' answers to
  the arrivals of the collecting loop; the theorems are what a caller may rely on.
\<close>

section \<open>What the goroutines deliver\<close>

definition answered :: "time_server list \<Rightarrow> answer \<Rightarrow> arrival \<Rightarrow> bool" where
  "answered servers a x \<longleftrightarrow>
     hr_server (fst x) = servers ! an_server a \<and> snd x = an_read a
     \<and> (case request_timestamp (an_fast a) (an_now a) (servers ! an_server a) of
          Ok ts \<Rightarrow> hr_ts (fst x) = ts \<and> hr_err (fst x) = None
        | Err e \<Rightarrow> hr_ts (fst x) = None \<and> hr_err (fst x) = Some e
        | _ \<Rightarrow> False)"

definition same_but_rtt :: "'f hft_client \<Rightarrow> 'f hft_client \<Rightarrow> bool" where
  "same_but_rtt c c' \<longleftrightarrow>
     hc_options c' = hc_options c \<and> hc_verify c' = hc_verify c \<and> hc_batch c' = hc_batch c
     \<and> hc_stats c' = hc_stats c"

lemma same_but_rtt_refl [simp]: "same_but_rtt c c"
  by (simp add: same_but_rtt_def)

lemma same_but_rtt_trans: "same_but_rtt a b \<Longrightarrow> same_but_rtt b c \<Longrightarrow> same_but_rtt a c"
  by (simp add: same_but_rtt_def)

lemma same_but_rttD:
  assumes "same_but_rtt c c'"
  shows "cache_off c' = cache_off c" "hc_options c' = hc_options c" "hc_batch c' = hc_batch c"
    "effective_quorum n c' = effective_quorum n c"
  using assms by (simp_all add: same_but_rtt_def cache_off_def effective_quorum_def)

lemma update_server_rtt_same: "update_server_rtt i d c = Ok c' \<Longrightarrow> same_but_rtt c c'"
  by (auto simp: update_server_rtt_def same_but_rtt_def outcome_simps)

lemma ask_server_answered:
  assumes "ask_server (an_fast a) (an_now a) (an_rtt a) (servers ! an_server a) c = Ok (c', resp)"
  shows "same_but_rtt c c' \<and> answered servers a (resp, an_read a)"
  using assms
  by (auto simp: ask_server_def answered_def outcome_simps split: outcome.splits
      intro: update_server_rtt_same)

lemma ask_all_answered:
  "ask_all servers answers c = Ok (c', as)
   \<Longrightarrow> same_but_rtt c c' \<and> list_all2 (answered servers) answers as"
proof (induction answers arbitrary: c as)
  case (Cons a answers)
  obtain c1 resp bs where run:
    "ask_server (an_fast a) (an_now a) (an_rtt a) (servers ! an_server a) c = Ok (c1, resp)"
    "ask_all servers answers c1 = Ok (c', bs)" "as = (resp, an_read a) # bs"
    using Cons.prems by (auto simp: outcome_simps)
  then show ?case
    using ask_server_answered [OF run(1)] Cons.IH [OF run(2)] by (auto intro: same_but_rtt_trans)
qed simp

lemma ask_all_stuck:
  assumes "get_verified_timestamp w region answers deadline c = (c', Ok r)"
  obtains c1 as where "ask_all (asked_servers w region c) answers c = Ok (c1, as)"
    and "collect_quorum (asked_servers w region c) (events_of deadline as) c1 = (c', Ok r)"
  using assms by (auto simp: get_verified_timestamp_def Let_def split: outcome.splits prod.splits)


text \<open>The goroutines run at most once per server, and the schedule names servers that exist.\<close>

definition schedule_ok :: "time_server list \<Rightarrow> answer list \<Rightarrow> bool" where
  "schedule_ok servers answers \<longleftrightarrow>
     distinct (map an_server answers) \<and> (\<forall>a \<in> set answers. an_server a < length servers)"

lemma schedule_length:
  assumes "schedule_ok servers answers"
  shows "length answers \<le> length servers"
proof -
  have "card (set (map an_server answers)) \<le> card {..<length servers}"
    by (rule card_mono) (use assms in \<open>auto simp: schedule_ok_def\<close>)
  moreover have "card (set (map an_server answers)) = length answers"
    using distinct_card [of "map an_server answers"] assms by (simp add: schedule_ok_def)
  ultimately show ?thesis by simp
qed



section \<open>Soundness\<close>


section \<open>Progress\<close>

text \<open>A server whose methods neither panic nor block.\<close>

definition steady :: "time_server \<Rightarrow> bool" where
  "steady s \<longleftrightarrow> (\<forall>m. returns (sign_op s m)) \<and> (\<forall>m sig. returns (verify_op s m sig))"

definition steady_answer :: "answer \<Rightarrow> bool" where
  "steady_answer a \<longleftrightarrow> (case an_fast a of None \<Rightarrow> True | Some r \<Rightarrow> returns r)"

lemma request_timestamp_returns:
  assumes "steady srv" and "steady_answer a"
  shows "returns (request_timestamp (an_fast a) now srv)"
proof (cases "an_fast a")
  case None
  have "returns (sign_op srv m)" for m using assms(1) by (simp add: steady_def)
  then show ?thesis
    by (cases "sign_op srv (timestamp_to_bytes now)")
      (simp_all add: request_timestamp_def None st_sign_def, (metis returns.simps(3,4))+)
next
  case (Some r)
  then show ?thesis using assms(2) by (simp add: request_timestamp_def steady_answer_def)
qed

lemma ask_server_ok:
  assumes "trackers_ok c" and "returns (request_timestamp fast now srv)"
  shows "\<exists>c' resp. ask_server fast now rtt srv c = Ok (c', resp) \<and> trackers_ok c'"
proof -
  obtain c' where "update_server_rtt (get_id srv) rtt c = Ok c'" "trackers_ok c'"
    using update_server_rtt_ok [OF assms(1)] by blast
  then show ?thesis
    using assms(2) by (cases "request_timestamp fast now srv") (simp_all add: ask_server_def)
qed

lemma ask_all_ok:
  assumes "trackers_ok c" and "list_all steady_answer answers"
    and "\<forall>a \<in> set answers. steady (servers ! an_server a)"
  shows "\<exists>c' as. ask_all servers answers c = Ok (c', as)"
  using assms
proof (induction answers arbitrary: c)
  case (Cons a answers)
  have "returns (request_timestamp (an_fast a) (an_now a) (servers ! an_server a))"
    by (rule request_timestamp_returns) (use Cons.prems in simp_all)
  from ask_server_ok [OF Cons.prems(1) this] obtain c1 resp where
    a: "ask_server (an_fast a) (an_now a) (an_rtt a) (servers ! an_server a) c = Ok (c1, resp)"
    "trackers_ok c1"
    by blast
  obtain c2 as where "ask_all servers answers c1 = Ok (c2, as)"
    using Cons.IH [OF a(2)] Cons.prems by auto
  then show ?case using a(1) by simp
qed simp

lemma answered_sane:
  assumes "answered servers a x" and "steady (servers ! an_server a)"
  shows "sane_arrival x"
proof (cases "hr_ts (fst x)")
  case (Some ts)
  have "returns (st_verify ts (servers ! an_server a))"
    using assms(2) by (simp add: steady_def st_verify_def)
  then show ?thesis
    using assms(1) Some
    by (cases x; cases "st_verify ts (servers ! an_server a)")
      (simp_all add: sane_arrival_def answered_def)
qed (cases x, simp add: sane_arrival_def)

lemma answered_all_sane:
  assumes "list_all2 (answered servers) answers as"
    and "\<forall>a \<in> set answers. steady (servers ! an_server a)"
  shows "list_all sane_arrival as"
  using assms by (induction rule: list_all2_induct) (auto intro: answered_sane)




text \<open>An answer of a server with a proper key pair, obtained by direct signing.\<close>

definition honest :: "time_server list \<Rightarrow> answer \<Rightarrow> bool" where
  "honest servers a \<longleftrightarrow>
     an_fast a = None
     \<and> (\<exists>ed x. ed25519_spec ed \<and> key_pair x \<and> servers ! an_server a = iface ed x)"

lemma honest_accepted:
  assumes "honest servers a" and "answered servers a x"
  shows "accepted_arrival x"
proof -
  obtain ed y where y: "ed25519_spec ed" "key_pair y" "servers ! an_server a = iface ed y"
    using assms(1) by (auto simp: honest_def)
  let ?ts = "\<lparr>st_time = an_now a, st_server = srv_id y, st_region = srv_region y, st_sig = []\<rparr>"
  obtain ts r where sign: "st_sign ?ts (iface ed y) = (ts, r)" by fastforce
  have "r = Ok () \<and> st_verify ts (iface ed y) = Ok ()"
    using srv.st_sign_verify [of "(ed, y)" ?ts ts r] y(1,2) sign by simp
  then show ?thesis
    using assms y(3) sign
    by (cases x) (simp add: accepted_arrival_def answered_def honest_def request_timestamp_def)
qed

lemma honest_count:
  assumes "list_all2 (answered servers) answers as"
  shows "length (filter (honest servers) answers) \<le> length (filter accepted_arrival as)"
  using assms by (induction rule: list_all2_induct) (auto dest: honest_accepted)

lemma honest_quorum_ok:
  assumes "cache_off c" and "1 \<le> ho_quorum (hc_options c)" and "servers \<noteq> []"
    and "list_all2 (answered servers) answers as"
    and "\<forall>a \<in> set answers. steady (servers ! an_server a)" and "length answers = length servers"
    and "effective_quorum (length servers) c \<le> int (length (filter (honest servers) answers))"
  shows "\<exists>c' r. collect_quorum servers (map Arrive as) c = (c', Ok r)"
proof -
  have len: "length as = length servers" using list_all2_lengthD [OF assms(4)] assms(6) by simp
  have "effective_quorum (length servers) c \<le> int (length (filter accepted_arrival as))"
    using assms(7) honest_count [OF assms(4)] by simp
  then have "is_ok (snd (collect_quorum servers (map Arrive as) c))"
    using collect_all_answer [OF assms(1,2,3) len answered_all_sane [OF assms(4,5)]] by simp
  then show ?thesis
    by (cases "collect_quorum servers (map Arrive as) c") (auto simp: is_ok_iff)
qed


section \<open>Batches\<close>

lemma call_keeps:
  assumes "get_verified_timestamp w region answers deadline c = (c', Ok r)"
  shows "hc_options c' = hc_options c" "hc_batch c' = hc_batch c"
proof -
  obtain c1 as where "ask_all (asked_servers w region c) answers c = Ok (c1, as)"
    and run: "collect_quorum (asked_servers w region c) (events_of deadline as) c1 = (c', Ok r)"
    using ask_all_stuck [OF assms] by metis
  then have "same_but_rtt c c1" using ask_all_answered by blast
  then show "hc_options c' = hc_options c" "hc_batch c' = hc_batch c"
    using collect_quorum_keeps [of "asked_servers w region c" "events_of deadline as" c1] run
    by (simp_all add: same_but_rtt_def)
qed

text \<open>
  C33. Requests of a batch share a timestamp: after a request has fetched one, a request with the
  same key returns the same timestamp without asking any server (it is counted as a hit, and
  nothing else changes), whatever region it names, as long as the entry has not expired and the
  timestamp is not older than the caller allows.
\<close>

theorem batch_reuses_timestamp:
  assumes "ho_batching (hc_options c)" and "hc_batch c = Some bc" and "cache_ok ttl bc"
    and "bcache_get t1 key bc = None"
    and "get_verified_for_batch w t1 t2 t3 key region max_age answers deadline c = (c', Ok (Some ts))"
    and "\<not> time_add t3 ttl < u1" and "time_sub u2 (st_time ts) \<le> max_age'"
  shows "get_verified_for_batch w' u1 u2 u3 key region' max_age' answers' deadline' c'
    = (count_stat (\<lambda>s. s\<lparr>sx_cache_hits := sx_cache_hits s + 1\<rparr>) c', Ok (Some ts))"
proof -
  let ?c = "count_stat (\<lambda>s. s\<lparr>sx_cache_misses := sx_cache_misses s + 1\<rparr>) c"
  obtain c1 where run: "get_verified_timestamp w region answers deadline ?c = (c1, Ok (Some ts))"
    "c' = c1\<lparr>hc_batch := map_option (bcache_set t3 key (Some ts)) (hc_batch c1)\<rparr>"
    using assms(1,2,4,5)
    by (auto simp: get_verified_for_batch_def batch_with_def Let_def split: prod.splits outcome.splits)
  have same: "hc_options c1 = hc_options c" "hc_batch c1 = hc_batch c"
    using call_keeps [OF run(1)] by simp_all
  have "bcache_entry u1 key (bcache_set t3 key (Some ts) bc) = Some (Some ts)"
    using bcache.lookup_put [OF assms(3)] assms(6) by simp
  then have "bcache_get u1 key (bcache_set t3 key (Some ts) bc) = Some ts"
    by (simp add: bcache_get_def)
  then show ?thesis
    using assms(1,2,7) same by (simp add: get_verified_for_batch_def batch_with_def Let_def run(2))
qed

section \<open>Witnesses\<close>

text \<open>Three servers, of which the third answers without a timestamp.\<close>

definition demo_world :: "int hft_world" where
  "demo_world =
     \<lparr>hw_floats = int_floats, hw_sort = sort_by,
      hw_net = \<lparr>tn_servers = map demo_iface [''c'', ''a'', ''b''], tn_by_region = (\<lambda>g. []),
                tn_status = Blocked\<rparr>\<rparr>"

definition demo_three :: "time_server list" where
  "demo_three = map demo_iface [''a'', ''b'', ''c'']"

definition demo_answer :: "nat \<Rightarrow> int \<Rightarrow> answer" where
  "demo_answer i t =
     \<lparr>an_server = i, an_fast = None, an_now = Instant t, an_rtt = 5,
      an_read = (Instant t, Instant t)\<rparr>"

definition demo_answers :: "answer list" where
  "demo_answers =
     [demo_answer 1 9, (demo_answer 2 1)\<lparr>an_fast := Some (Ok None)\<rparr>, demo_answer 0 4]"

lemma demo_asked_servers:
  "hc_rtt c = [] \<Longrightarrow> asked_servers demo_world [] c = demo_three"
  by (simp add: asked_servers_def get_servers_by_rtt_def demo_world_def demo_three_def sort_by_def
      rtt_less_def demo_iface_def demo_server_def new_mock_server_def)

lemma demo_client_start:
  "hc_rtt (demo_client b) = []" "trackers_ok (demo_client b)"
  "ho_quorum (hc_options (demo_client b)) = 2" "effective_quorum 3 (demo_client b) = 2"
  "cache_off (demo_client False)"
  by (simp_all add: trackers_ok_def demo_client_def demo_opts_def default_hft_options_def default_rtt_sample_size_def
      new_hft_client_def Let_def effective_quorum_def cache_off_def)

lemma demo_steady: "steady (demo_iface i)"
proof -
  have k: "length (srv_private (demo_server i ''eu'' 7)) = private_key_size"
    "length (srv_public (demo_server i ''eu'' 7)) = public_key_size"
    using demo_key_pair [of i "''eu''" 7]
    by (simp_all add: key_pair_def private_key_size_def public_key_size_def)
  then show ?thesis
    by (simp add: steady_def demo_iface_def srv_sign_eq srv_verify_eq ed25519_sign_def
        ed25519_verify_def)
qed

lemma demo_honest: "i < 3 \<Longrightarrow> honest demo_three (demo_answer i t)"
proof -
  assume "i < 3"
  then have "demo_three ! i = iface toy_ed25519 (demo_server ([''a'', ''b'', ''c''] ! i) ''eu'' 7)"
    unfolding demo_three_def by (subst nth_map) (simp_all add: demo_iface_def)
  then show ?thesis
    unfolding honest_def
    by (intro conjI exI [of _ toy_ed25519] exI [of _ "demo_server ([''a'', ''b'', ''c''] ! i) ''eu'' 7"])
      (simp_all add: demo_answer_def toy_ed25519_spec demo_key_pair)
qed

lemma demo_answers_ok:
  "list_all steady_answer demo_answers" "\<forall>a \<in> set demo_answers. steady (demo_three ! an_server a)"
  "schedule_ok demo_three demo_answers" "length demo_answers = length demo_three"
  "length demo_three = 3" "demo_three \<noteq> []"
  by (simp_all add: demo_answers_def steady_answer_def demo_answer_def demo_three_def demo_steady
      schedule_ok_def)

lemma demo_honest_count: "2 \<le> int (length (filter (honest demo_three) demo_answers))"
  by (simp add: demo_answers_def demo_honest)



lemma three_run:
  assumes "asked_servers w region c = demo_three" and "trackers_ok c" and "cache_off c"
    and "ho_quorum (hc_options c) = 2" and "list_all steady_answer answers"
    and "\<forall>a \<in> set answers. steady (demo_three ! an_server a)" and "length answers = length demo_three"
    and "2 \<le> int (length (filter (honest demo_three) answers))"
  shows "\<exists>c' ts. get_verified_timestamp w region answers None c = (c', Ok (Some ts))"
proof -
  obtain c1 as where ask: "ask_all demo_three answers c = Ok (c1, as)"
    using ask_all_ok [OF assms(2,5,6)] by blast
  have same: "same_but_rtt c c1" and all2: "list_all2 (answered demo_three) answers as"
    using ask_all_answered [OF ask] by simp_all
  have pre: "cache_off c1" "1 \<le> ho_quorum (hc_options c1)"
    using assms(3,4) same_but_rttD [OF same] by simp_all
  have "effective_quorum (length demo_three) c1 \<le> int (length (filter (honest demo_three) answers))"
    using assms(8) same_but_rttD(2) [OF same] assms(4) by (simp add: effective_quorum_def)
  then obtain c2 r where run: "collect_quorum demo_three (map Arrive as) c1 = (c2, Ok r)"
    using honest_quorum_ok [OF pre demo_answers_ok(6) all2 assms(6,7)] by blast
  then obtain ts where "r = Some ts" using collect_sound [OF pre run] by blast
  then show ?thesis
    using run ask assms(1)
    by (simp add: get_verified_timestamp_def Let_def events_of_def)
qed

lemma demo_three_run:
  assumes "hc_rtt c = []" and "trackers_ok c" and "cache_off c" and "ho_quorum (hc_options c) = 2"
  shows "\<exists>c' ts. get_verified_timestamp demo_world [] demo_answers None c = (c', Ok (Some ts))"
  by (rule three_run [OF demo_asked_servers [OF assms(1)] assms(2-4) demo_answers_ok(1,2,4)
        demo_honest_count])


theorem batch_reuses_timestamp_witness:
  "\<exists>c1 c2 ts.
     get_verified_for_batch demo_world (Instant 1) (Instant 1) (Instant 10) ''k'' [] 100
       demo_answers None
       ((demo_client False)\<lparr>hc_batch := Some (new_timestamp_batch_cache 50)\<rparr>) = (c1, Ok (Some ts))
     \<and> get_verified_for_batch demo_world (Instant 11) (st_time ts) (Instant 11) ''k'' ''us'' 100
       [] None c1 = (c2, Ok (Some ts))"
proof -
  let ?c = "(demo_client False)\<lparr>hc_batch := Some (new_timestamp_batch_cache 50)\<rparr>"
  let ?d = "count_stat (\<lambda>s. s\<lparr>sx_cache_misses := sx_cache_misses s + 1\<rparr>) ?c"
  have c: "ho_batching (hc_options ?c)" "hc_batch ?c = Some (new_timestamp_batch_cache 50)"
    by (simp_all add: demo_client_def new_hft_client_def Let_def demo_opts_def default_hft_options_def default_rtt_sample_size_def)
  have miss: "bcache_get (Instant 1) ''k'' (new_timestamp_batch_cache 50) = None"
    by (simp add: bcache_get_def bcache_entry_def new_timestamp_batch_cache_def)
  have "trackers_ok ?d" using demo_client_start(2) [of False] by (simp add: trackers_ok_def)
  then obtain c1 ts where "get_verified_timestamp demo_world [] demo_answers None ?d = (c1, Ok (Some ts))"
    using demo_three_run [of ?d] demo_client_start(1,3,5) by (auto simp: cache_off_def)
  then obtain c1 where run: "get_verified_for_batch demo_world (Instant 1) (Instant 1) (Instant 10) ''k''
      [] 100 demo_answers None ?c = (c1, Ok (Some ts))"
    using c miss by (simp add: get_verified_for_batch_def batch_with_def Let_def)
  have live: "\<not> time_add (Instant 10) 50 < Instant 11"
    and young: "time_sub (st_time ts) (st_time ts) \<le> 100"
    by (simp add: less_time_iff, simp add: time_sub_def max_int64_def min_int64_def)
  from batch_reuses_timestamp [OF c new_cache_ok(2) miss run live young]
  show ?thesis using run by blast
qed

end
