(* ===== verification/Security.thy ===== *)
theory Security
  imports Metrics
begin

text \<open>
  \<open>core/p2p/security.go\<close>: admission of new peers under a rate limit, peer scores, and the test for
  a Sybil attack. A peer id is its string. Scores are \<open>float64\<close>, whose operations and decimal
  literals are a parameter. The metrics of this file are its own; an operation returns its calls.
  Mutexes only serialise the calls: no method calls another locked method of the same object.
\<close>

section \<open>Model\<close>

record 'f score_ops =
  so_lit :: "int \<Rightarrow> int \<Rightarrow> 'f"
  so_of_int :: "int \<Rightarrow> 'f"
  so_add :: "'f \<Rightarrow> 'f \<Rightarrow> 'f"
  so_sub :: "'f \<Rightarrow> 'f \<Rightarrow> 'f"
  so_mul :: "'f \<Rightarrow> 'f \<Rightarrow> 'f"
  so_div :: "'f \<Rightarrow> 'f \<Rightarrow> 'f"
  so_less :: "'f \<Rightarrow> 'f \<Rightarrow> bool"

datatype 'f security_event =
  PeerConnection string | PeerScore string 'f | SuspiciousActivity string

record 'f security_config =
  sc_trusted :: "string list"
  sc_max_per_minute :: int
  sc_min_score :: 'f
  sc_max_per_region :: int

record 'f peer_security =
  ps_config :: "'f security_config"
  ps_scores :: "(string, 'f) gomap"
  ps_times :: "gotime list"

definition minute :: duration where
  "minute = 60 * second"

definition new_peer_security :: "'f security_config \<Rightarrow> 'f peer_security" where
  "new_peer_security cfg = \<lparr>ps_config = cfg, ps_scores = [], ps_times = []\<rparr>"

definition is_trusted_peer :: "string \<Rightarrow> 'f peer_security \<Rightarrow> bool" where
  "is_trusted_peer i s \<longleftrightarrow> i \<in> set (sc_trusted (ps_config s))"

definition validate_new_peer ::
  "gotime \<Rightarrow> string \<Rightarrow> 'f peer_security
   \<Rightarrow> 'f peer_security \<times> bool \<times> 'f security_event list" where
  "validate_new_peer now i s =
     (let cutoff = time_add now (- minute);
          recent = filter (\<lambda>t. cutoff < t) (ps_times s)
      in if sc_max_per_minute (ps_config s) \<le> int (length recent)
         then (s\<lparr>ps_times := recent\<rparr>, False, [SuspiciousActivity ''rate_limit_exceeded''])
         else (s\<lparr>ps_times := recent @ [now]\<rparr>, True,
               [PeerConnection (if is_trusted_peer i s then ''trusted'' else ''untrusted'')]))"

text \<open>\<open>Duration.Milliseconds\<close> truncates; a part below zero counts as zero.\<close>

definition score_part :: "'f score_ops \<Rightarrow> duration \<Rightarrow> 'f" where
  "score_part F d =
     (let x = so_sub F (so_lit F 1 1)
                (so_div F (so_of_int F (go_quot d millisecond)) (so_lit F 1000 1))
      in if so_less F x (so_lit F 0 1) then so_lit F 0 1 else x)"

definition peer_score :: "'f score_ops \<Rightarrow> duration \<Rightarrow> duration \<Rightarrow> 'f" where
  "peer_score F drift response =
     so_add F (so_mul F (score_part F drift) (so_lit F 7 10))
              (so_mul F (score_part F response) (so_lit F 3 10))"

definition update_peer_score ::
  "'f score_ops \<Rightarrow> string \<Rightarrow> duration \<Rightarrow> duration \<Rightarrow> 'f peer_security
   \<Rightarrow> 'f peer_security \<times> 'f security_event list" where
  "update_peer_score F i drift response s =
     (let score = peer_score F drift response
      in (s\<lparr>ps_scores := map_put i score (ps_scores s)\<rparr>, [PeerScore i score]))"

definition should_disconnect_peer :: "'f score_ops \<Rightarrow> string \<Rightarrow> 'f peer_security \<Rightarrow> bool" where
  "should_disconnect_peer F i s =
     (case map_of (ps_scores s) i of
        None \<Rightarrow> False
      | Some score \<Rightarrow> so_less F score (sc_min_score (ps_config s)))"

definition detect_sybil_attack ::
  "string list \<Rightarrow> 'f peer_security \<Rightarrow> bool \<times> 'f security_event list" where
  "detect_sybil_attack new_peers s =
     (if sc_max_per_minute (ps_config s) < int (length new_peers)
      then (True, [SuspiciousActivity ''potential_sybil_attack'']) else (False, []))"

section \<open>The rate limit\<close>

text \<open>The admissions of the minute that ends at \<open>t\<close>.\<close>

definition in_window :: "gotime \<Rightarrow> gotime list \<Rightarrow> gotime list" where
  "in_window t us = filter (\<lambda>u. time_add t (- minute) < u \<and> u \<le> t) us"

text \<open>
  What the list of times keeps, after admissions at \<open>us\<close>: those of the last minute before \<open>now\<close>,
  the clock of the last call.
\<close>

definition rate_inv :: "gotime \<Rightarrow> gotime list \<Rightarrow> 'f peer_security \<Rightarrow> bool" where
  "rate_inv now us s \<longleftrightarrow>
     ps_times s = filter (\<lambda>u. time_add now (- minute) < u) us
     \<and> (\<forall>t. int (length (in_window t us)) \<le> sc_max_per_minute (ps_config s))"

lemma minute_pos: "0 < minute"
  by (simp add: minute_def second_def)

lemma rate_inv_new:
  "0 \<le> sc_max_per_minute cfg \<Longrightarrow> rate_inv now [] (new_peer_security cfg)"
  by (simp add: rate_inv_def new_peer_security_def in_window_def)

lemma recent_times:
  assumes "rate_inv t0 us s" and "t0 \<le> now"
  shows "filter (\<lambda>t. time_add now (- minute) < t) (ps_times s)
    = filter (\<lambda>u. time_add now (- minute) < u) us"
proof -
  have "time_add t0 (- minute) < u" if "time_add now (- minute) < u" for u
    using that assms(2) by (simp add: less_time_iff le_time_iff)
  then show ?thesis
    using assms(1) by (auto simp: rate_inv_def intro!: filter_cong)
qed

lemma window_snoc:
  assumes "\<And>t. int (length (in_window t us)) \<le> m"
    and "int (length (filter (\<lambda>u. time_add now (- minute) < u) us)) < m"
  shows "int (length (in_window t (us @ [now]))) \<le> m"
proof (cases "time_add t (- minute) < now \<and> now \<le> t")
  case True
  have "length (in_window t us) \<le> length (filter (\<lambda>u. time_add now (- minute) < u) us)"
  proof -
    have "time_add now (- minute) < u" if "time_add t (- minute) < u" for u
      using that True by (simp add: less_time_iff le_time_iff)
    then have "in_window t us = in_window t (filter (\<lambda>u. time_add now (- minute) < u) us)"
      by (auto simp: in_window_def intro!: filter_cong)
    then show ?thesis by (metis in_window_def length_filter_le)
  qed
  then show ?thesis using assms(2) True by (simp add: in_window_def)
next
  case False
  then have "in_window t (us @ [now]) = in_window t us" by (auto simp: in_window_def)
  then show ?thesis using assms(1) by simp
qed

lemma validate_rate_inv:
  assumes "rate_inv t0 us s" and "t0 \<le> now" and "validate_new_peer now i s = (s', ok, ev)"
  shows "ok = (int (length (filter (\<lambda>u. time_add now (- minute) < u) us))
      < sc_max_per_minute (ps_config s))"
    and "rate_inv now (us @ (if ok then [now] else [])) s'" and "ps_config s' = ps_config s"
proof -
  let ?recent = "filter (\<lambda>u. time_add now (- minute) < u) us"
  have s': "s' = s\<lparr>ps_times := ?recent @ (if ok then [now] else [])\<rparr>"
    and ok: "ok = (int (length ?recent) < sc_max_per_minute (ps_config s))"
    using assms(3) recent_times [OF assms(1,2)]
    by (auto simp: validate_new_peer_def Let_def split: if_splits)
  have bound: "int (length (in_window t us)) \<le> sc_max_per_minute (ps_config s)" for t
    using assms(1) by (simp add: rate_inv_def)
  have "time_add now (- minute) < now" using minute_pos by (simp add: less_time_iff)
  then show "rate_inv now (us @ (if ok then [now] else [])) s'"
    using window_snoc [OF bound] bound ok by (simp add: rate_inv_def s')
  show "ps_config s' = ps_config s" by (simp add: s')
qed (use assms(3) recent_times [OF assms(1,2)] in
  \<open>auto simp: validate_new_peer_def Let_def split: if_splits\<close>)

end
