(* ===== verification/Discovery.thy ===== *)
theory Discovery
  imports Security Complex_Main
begin

text \<open>
  \<open>core/p2p/discovery.go\<close>: the known peers, their admission, scoring and removal. The DHT, mDNS
  and the libp2p host are not in the source: what they answer is an argument, what they are told
  is logged in \<open>ds_host\<close>. The clock readings are arguments. The mutex is part of the state as the
  running goroutine sees it; a \<open>Lock\<close> that has to wait also keeps every later \<open>RLock\<close> out, so a
  goroutine that waits for itself leaves the mutex \<open>WriteLocked\<close> for all others.
\<close>

section \<open>Model\<close>

record peer_info =
  pi_id :: string
  pi_addrs :: "string list"
  pi_seen :: gotime

datatype host_call = AddAddrs string "string list" | ClosePeer string

record 'f discovery =
  ds_mu :: rwmutex
  ds_peers :: "(string, peer_info) gomap"
  ds_security :: "'f peer_security"
  ds_dht :: bool
  ds_running :: bool
  ds_stopped :: bool
  ds_metrics :: "metric_call list"
  ds_events :: "'f security_event list"
  ds_host :: "host_call list"

text \<open>\<open>half\<close> is the \<open>float64\<close> constant 0.5.\<close>

definition new_discovery :: "'f \<Rightarrow> 'f discovery" where
  "new_discovery half =
     \<lparr>ds_mu = Unlocked, ds_peers = [],
      ds_security = new_peer_security
        \<lparr>sc_trusted = [], sc_max_per_minute = 30, sc_min_score = half, sc_max_per_region = 10\<rparr>,
      ds_dht = False, ds_running = False, ds_stopped = False, ds_metrics = [], ds_events = [],
      ds_host = []\<rparr>"

definition note_metrics :: "metric_call list \<Rightarrow> 'f discovery \<Rightarrow> 'f discovery" where
  "note_metrics ms d = d\<lparr>ds_metrics := ds_metrics d @ ms\<rparr>"

definition note_host :: "host_call \<Rightarrow> 'f discovery \<Rightarrow> 'f discovery" where
  "note_host h d = d\<lparr>ds_host := ds_host d @ [h]\<rparr>"

text \<open>A body between \<open>Lock\<close> and the deferred \<open>Unlock\<close>.\<close>

definition with_lock ::
  "('f discovery \<Rightarrow> 'f discovery) \<Rightarrow> 'f discovery \<Rightarrow> 'f discovery \<times> unit outcome" where
  "with_lock f d =
     (case mutex_lock (ds_mu d) of
        None \<Rightarrow> (d\<lparr>ds_mu := WriteLocked\<rparr>, Blocked)
      | Some _ \<Rightarrow> (f d, Ok ()))"

text \<open>\<open>now\<close> is the clock in \<open>ValidateNewPeer\<close>, \<open>seen\<close> the one that becomes \<open>LastSeen\<close>.\<close>

definition admit_peer ::
  "gotime \<Rightarrow> gotime \<Rightarrow> string \<Rightarrow> string list \<Rightarrow> 'f discovery \<Rightarrow> 'f discovery" where
  "admit_peer now seen p addrs d =
     (if has_key (ds_peers d) p then d
      else case validate_new_peer now p (ds_security d) of
             (sec, ok, ev) \<Rightarrow>
               let d1 = d\<lparr>ds_security := sec, ds_events := ds_events d @ ev\<rparr>
               in if \<not> ok then note_metrics [RecordP2PDiscoveryEvent ''peer_rejected''] d1
                  else let d2 = d1\<lparr>ds_peers :=
                              map_put p \<lparr>pi_id = p, pi_addrs = addrs, pi_seen = seen\<rparr> (ds_peers d1)\<rparr>
                       in note_metrics [RecordP2PDiscoveryEvent ''peer_added'',
                              UpdatePeerCount (int (length (ds_peers d2))) ''all'']
                            (note_host (AddAddrs p addrs) d2))"

definition add_peer ::
  "gotime \<Rightarrow> gotime \<Rightarrow> string \<Rightarrow> string list \<Rightarrow> 'f discovery \<Rightarrow> 'f discovery \<times> unit outcome" where
  "add_peer now seen p addrs d =
     (case with_lock (admit_peer now seen p addrs) d of
        (d', Ok u) \<Rightarrow> (note_metrics [RecordP2PStreamLatency ''add_peer''] d', Ok u)
      | r \<Rightarrow> r)"

definition handle_peer_found ::
  "gotime \<Rightarrow> gotime \<Rightarrow> string \<Rightarrow> string list \<Rightarrow> 'f discovery \<Rightarrow> 'f discovery \<times> unit outcome" where
  "handle_peer_found now seen p addrs d =
     add_peer now seen p addrs (note_metrics [RecordP2PDiscoveryEvent ''peer_found''] d)"

definition remove_peer :: "string \<Rightarrow> 'f discovery \<Rightarrow> 'f discovery \<times> unit outcome" where
  "remove_peer p =
     with_lock (\<lambda>d. let d1 = d\<lparr>ds_peers := map_del p (ds_peers d)\<rparr>
        in note_metrics [RecordP2PDiscoveryEvent ''peer_removed'',
             UpdatePeerCount (int (length (ds_peers d1))) ''all''] d1)"

definition get_peers ::
  "(string list \<Rightarrow> string list) \<Rightarrow> 'f discovery \<Rightarrow> peer_info list outcome" where
  "get_peers ord d =
     (case mutex_rlock (ds_mu d) of
        None \<Rightarrow> Blocked
      | Some _ \<Rightarrow> Ok (map snd (go_range ord (ds_peers d))))"

text \<open>The loop of \<open>updatePeerScores\<close>; \<open>clock\<close> gives the time at which a peer is visited.\<close>

fun score_loop ::
  "'f score_ops \<Rightarrow> (string \<Rightarrow> gotime) \<Rightarrow> (string \<times> peer_info) list \<Rightarrow> 'f discovery
   \<Rightarrow> 'f discovery \<times> unit outcome" where
  "score_loop F clock [] d = (d, Ok ())"
| "score_loop F clock ((i, info) # rest) d =
     (case update_peer_score F i 0 (time_sub (clock i) (pi_seen info)) (ds_security d) of
        (sec, ev) \<Rightarrow>
          let d1 = d\<lparr>ds_security := sec, ds_events := ds_events d @ ev\<rparr>
          in if should_disconnect_peer F i sec
             then (case remove_peer i d1 of
                     (d2, Ok _) \<Rightarrow> score_loop F clock rest (note_host (ClosePeer i) d2)
                   | r \<Rightarrow> r)
             else score_loop F clock rest d1)"

definition update_peer_scores ::
  "'f score_ops \<Rightarrow> (string list \<Rightarrow> string list) \<Rightarrow> (string \<Rightarrow> gotime) \<Rightarrow> 'f discovery
   \<Rightarrow> 'f discovery \<times> unit outcome" where
  "update_peer_scores F ord clock d =
     (case mutex_rlock (ds_mu d) of
        None \<Rightarrow> (d, Blocked)
      | Some m \<Rightarrow>
          (case score_loop F clock (go_range ord (ds_peers d)) (d\<lparr>ds_mu := m\<rparr>) of
             (d', Ok u) \<Rightarrow> (d'\<lparr>ds_mu := ds_mu d\<rparr>, Ok u)
           | r \<Rightarrow> r))"

definition remove_stale_peers ::
  "(string list \<Rightarrow> string list) \<Rightarrow> gotime \<Rightarrow> 'f discovery \<Rightarrow> 'f discovery \<times> unit outcome" where
  "remove_stale_peers ord now =
     with_lock (\<lambda>d. d\<lparr>ds_peers :=
       fold (\<lambda>(i, info) m. if 5 * minute < time_sub now (pi_seen info) then map_del i m else m)
         (go_range ord (ds_peers d)) (ds_peers d)\<rparr>)"

text \<open>One tick of \<open>discoverPeers\<close>: \<open>found\<close> are the peers of the routing table with their addresses.\<close>

fun find_peers ::
  "(gotime \<times> gotime \<times> string \<times> string list) list \<Rightarrow> 'f discovery \<Rightarrow> 'f discovery \<times> unit outcome" where
  "find_peers [] d = (note_metrics [RecordP2PStreamLatency ''find_peers''] d, Ok ())"
| "find_peers ((now, seen, p, addrs) # found) d =
     (if addrs = [] then find_peers found d
      else case add_peer now seen p addrs d of (d', Ok _) \<Rightarrow> find_peers found d' | r \<Rightarrow> r)"

definition discovery_tick ::
  "'f score_ops \<Rightarrow> (string list \<Rightarrow> string list) \<Rightarrow> (string list \<Rightarrow> string list)
   \<Rightarrow> (gotime \<times> gotime \<times> string \<times> string list) list \<Rightarrow> (string \<Rightarrow> gotime) \<Rightarrow> gotime
   \<Rightarrow> 'f discovery \<Rightarrow> 'f discovery \<times> unit outcome" where
  "discovery_tick F o1 o2 found clock now d =
     (case find_peers found d of
        (d1, Ok _) \<Rightarrow>
          (case update_peer_scores F o1 clock d1 of
             (d2, Ok _) \<Rightarrow> remove_stale_peers o2 now d2
           | r \<Rightarrow> r)
      | r \<Rightarrow> r)"

text \<open>
  The goroutine: per event of its \<open>select\<close> a tick with what the tick finds (the routing table, the
  clocks), or the end of the context. Without a next event it waits.
\<close>

type_synonym disc_tick =
  "(gotime \<times> gotime \<times> string \<times> string list) list \<times> (string \<Rightarrow> gotime) \<times> gotime"

fun discover_peers ::
  "'f score_ops \<Rightarrow> (string list \<Rightarrow> string list) \<Rightarrow> (string list \<Rightarrow> string list)
   \<Rightarrow> disc_tick option list \<Rightarrow> 'f discovery \<Rightarrow> 'f discovery \<times> unit outcome" where
  "discover_peers F o1 o2 [] d = (d, Blocked)"
| "discover_peers F o1 o2 (None # es) d = (d\<lparr>ds_running := False\<rparr>, Ok ())"
| "discover_peers F o1 o2 (Some (found, clock, now) # es) d =
     (case discovery_tick F o1 o2 found clock now d of
        (d', Ok _) \<Rightarrow> discover_peers F o1 o2 es d'
      | r \<Rightarrow> r)"

text \<open>\<open>create\<close>, \<open>boot\<close> and \<open>close\<close> are the DHT's answers.\<close>

definition discovery_start ::
  "unit outcome \<Rightarrow> unit outcome \<Rightarrow> 'f discovery \<Rightarrow> 'f discovery \<times> unit outcome" where
  "discovery_start create boot d =
     (case wrap_err ''failed to create DHT: %w'' create of
        Ok _ \<Rightarrow>
          (case wrap_err ''failed to bootstrap DHT: %w'' boot of
             Ok _ \<Rightarrow> (d\<lparr>ds_dht := True, ds_running := True\<rparr>, Ok ())
           | r \<Rightarrow> (d\<lparr>ds_dht := True\<rparr>, r))
      | r \<Rightarrow> (d, r))"

text \<open>
  \<open>Stop\<close> waits for the goroutine of \<open>discoverPeers\<close>, which never ends when it waits for itself.
\<close>

definition discovery_stop ::
  "unit outcome \<Rightarrow> 'f discovery \<Rightarrow> 'f discovery \<times> unit outcome" where
  "discovery_stop close d =
     (if ds_stopped d then (d, Panic CloseOfClosedChannel)
      else let d1 = d\<lparr>ds_stopped := True\<rparr>
           in if ds_running d \<and> ds_mu d = WriteLocked then (d1, Blocked)
              else let d2 = d1\<lparr>ds_running := False\<rparr>
                   in if \<not> ds_dht d then (d2, Panic NilDereference)
                      else (d2, wrap_err ''failed to close DHT: %w'' close))"

section \<open>Lemmas\<close>

lemma note_fields [simp]:
  "ds_mu (note_metrics ms d) = ds_mu d" "ds_peers (note_metrics ms d) = ds_peers d"
  "ds_security (note_metrics ms d) = ds_security d" "ds_mu (note_host h d) = ds_mu d"
  "ds_peers (note_host h d) = ds_peers d" "ds_security (note_host h d) = ds_security d"
  by (simp_all add: note_metrics_def note_host_def)

text \<open>The loop of \<open>updatePeerScores\<close> runs under \<open>RLock\<close>: it ends, or waits for itself at a low score.\<close>

definition low_score :: "'f score_ops \<Rightarrow> (string \<Rightarrow> gotime) \<Rightarrow> 'f discovery \<Rightarrow> string \<times> peer_info \<Rightarrow> bool" where
  "low_score F clock d e \<longleftrightarrow>
     so_less F (peer_score F 0 (time_sub (clock (fst e)) (pi_seen (snd e))))
       (sc_min_score (ps_config (ds_security d)))"

lemma disconnect_iff_low:
  assumes "update_peer_score F i 0 (time_sub (clock i) (pi_seen info)) (ds_security d) = (sec, ev)"
  shows "should_disconnect_peer F i sec = low_score F clock d (i, info)"
    and "ps_config sec = ps_config (ds_security d)" and "ps_times sec = ps_times (ds_security d)"
  using assms
  by (auto simp: update_peer_score_def Let_def should_disconnect_peer_def low_score_def)

lemma score_loop_outcome:
  assumes "ds_mu d = ReadLocked n"
  shows "(list_ex (low_score F clock d) es \<longrightarrow>
      (\<exists>d'. score_loop F clock es d = (d', Blocked) \<and> ds_mu d' = WriteLocked
         \<and> ds_running d' = ds_running d \<and> ds_stopped d' = ds_stopped d))
    \<and> (\<not> list_ex (low_score F clock d) es \<longrightarrow>
      (\<exists>d'. score_loop F clock es d = (d', Ok ()) \<and> ds_mu d' = ds_mu d))"
  using assms
proof (induction es arbitrary: d)
  case (Cons e es)
  obtain i info where e: "e = (i, info)" by (cases e)
  obtain sec ev where up:
    "update_peer_score F i 0 (time_sub (clock i) (pi_seen info)) (ds_security d) = (sec, ev)"
    by fastforce
  let ?d = "d\<lparr>ds_security := sec, ds_events := ds_events d @ ev\<rparr>"
  show ?case
  proof (cases "low_score F clock d e")
    case True
    then show ?thesis
      using disconnect_iff_low(1) [where clock = clock and info = info, OF up] Cons.prems
      by (simp add: e up Let_def remove_peer_def with_lock_def)
  next
    case False
    have "low_score F clock ?d = low_score F clock d"
      using disconnect_iff_low(2) [where clock = clock and info = info, OF up] by (simp add: low_score_def fun_eq_iff)
    then show ?thesis
      using False disconnect_iff_low(1) [where clock = clock and info = info, OF up] Cons.IH [of ?d] Cons.prems
      by (simp add: e up Let_def)
  qed
qed simp

lemma list_ex_go_range:
  "is_order ord \<Longrightarrow> wf_map m \<Longrightarrow> list_ex P (go_range ord m) \<longleftrightarrow> (\<exists>e \<in> set m. P e)"
  by (simp add: list_ex_iff set_go_range)

text \<open>Scoring touches neither the admissions nor the configuration.\<close>

lemma score_loop_security:
  "ps_times (ds_security (fst (score_loop F clock es d))) = ps_times (ds_security d)
   \<and> ps_config (ds_security (fst (score_loop F clock es d))) = ps_config (ds_security d)"
proof (induction es arbitrary: d)
  case (Cons e es)
  obtain i info where e: "e = (i, info)" by (cases e)
  obtain sec ev where up:
    "update_peer_score F i 0 (time_sub (clock i) (pi_seen info)) (ds_security d) = (sec, ev)"
    by fastforce
  note kept = disconnect_iff_low(2,3) [where clock = clock and info = info, OF up]
  let ?d = "d\<lparr>ds_security := sec, ds_events := ds_events d @ ev\<rparr>"
  show ?case
  proof (cases "should_disconnect_peer F i sec")
    case True
    obtain d2 r where d2: "remove_peer i ?d = (d2, r)" by fastforce
    then have "ds_security d2 = sec"
      by (auto simp: remove_peer_def with_lock_def Let_def split: option.splits)
    then show ?thesis
      using Cons.IH [of "note_host (ClosePeer i) d2"] d2 True kept
      by (cases r) (simp_all add: e up Let_def)
  next
    case False
    then show ?thesis using Cons.IH [of ?d] kept by (simp add: e up Let_def)
  qed
qed simp

section \<open>Histories\<close>

datatype disc_op =
  FindPeer gotime gotime string "string list" | DropPeer string
  | ScorePeers "string \<Rightarrow> gotime" | DropStale gotime

fun disc_exec ::
  "'f score_ops \<Rightarrow> (string list \<Rightarrow> string list) \<Rightarrow> disc_op \<Rightarrow> 'f discovery
   \<Rightarrow> 'f discovery \<times> unit outcome" where
  "disc_exec F ord (FindPeer now seen p addrs) d = add_peer now seen p addrs d"
| "disc_exec F ord (DropPeer p) d = remove_peer p d"
| "disc_exec F ord (ScorePeers clock) d = update_peer_scores F ord clock d"
| "disc_exec F ord (DropStale now) d = remove_stale_peers ord now d"

text \<open>The times at which the operation makes a peer known, and the clock of an admission.\<close>

fun admissions :: "disc_op \<Rightarrow> 'f discovery \<Rightarrow> 'f discovery \<Rightarrow> gotime list" where
  "admissions (FindPeer now seen p addrs) d d' =
     (if \<not> has_key (ds_peers d) p \<and> has_key (ds_peers d') p then [now] else [])"
| "admissions _ d d' = []"

fun op_clock :: "disc_op \<Rightarrow> gotime list" where
  "op_clock (FindPeer now seen p addrs) = [now]"
| "op_clock _ = []"

fun disc_run ::
  "'f score_ops \<Rightarrow> (string list \<Rightarrow> string list) \<Rightarrow> disc_op list \<Rightarrow> 'f discovery
   \<Rightarrow> 'f discovery \<times> gotime list" where
  "disc_run F ord [] d = (d, [])"
| "disc_run F ord (c # cs) d =
     (let d' = fst (disc_exec F ord c d)
      in case disc_run F ord cs d' of (d'', us) \<Rightarrow> (d'', admissions c d d' @ us))"

lemma rate_inv_cong:
  "ps_times s' = ps_times s \<Longrightarrow> ps_config s' = ps_config s \<Longrightarrow> rate_inv t us s' = rate_inv t us s"
  by (simp add: rate_inv_def)

lemma disc_exec_rate:
  assumes "rate_inv t0 us (ds_security d)" and "\<forall>t \<in> set (op_clock c). t0 \<le> t"
  shows "\<exists>t1. (t1 = t0 \<or> [t1] = op_clock c)
    \<and> rate_inv t1 (us @ admissions c d (fst (disc_exec F ord c d)))
        (ds_security (fst (disc_exec F ord c d)))
    \<and> ps_config (ds_security (fst (disc_exec F ord c d))) = ps_config (ds_security d)"
proof (cases c)
  case (FindPeer now seen p addrs)
  show ?thesis
  proof (cases "mutex_lock (ds_mu d) = None \<or> has_key (ds_peers d) p")
    case True
    then have "ds_security (fst (disc_exec F ord c d)) = ds_security d
        \<and> ds_peers (fst (disc_exec F ord c d)) = ds_peers d"
      by (auto simp: FindPeer add_peer_def with_lock_def admit_peer_def split: option.split)
    then show ?thesis using assms(1) FindPeer by auto
  next
    case False
    obtain sec ok ev where v: "validate_new_peer now p (ds_security d) = (sec, ok, ev)"
      by (cases "validate_new_peer now p (ds_security d)") auto
    have t: "t0 \<le> now" using assms(2) FindPeer by simp
    have "ds_security (fst (disc_exec F ord c d)) = sec
        \<and> admissions c d (fst (disc_exec F ord c d)) = (if ok then [now] else [])"
      using False v
      by (cases ok) (auto simp: FindPeer add_peer_def with_lock_def admit_peer_def Let_def has_key_iff)
    then show ?thesis
      using validate_rate_inv(2,3) [OF assms(1) t v] FindPeer by auto
  qed
next
  case (ScorePeers clock)
  have "ps_times (ds_security (fst (disc_exec F ord c d))) = ps_times (ds_security d)
      \<and> ps_config (ds_security (fst (disc_exec F ord c d))) = ps_config (ds_security d)"
    using score_loop_security [of F clock "go_range ord (ds_peers d)" "d\<lparr>ds_mu := m\<rparr>" for m]
    by (auto simp: ScorePeers update_peer_scores_def split: option.split prod.split outcome.split)
      (metis fst_conv)+
  then show ?thesis using assms(1) rate_inv_cong ScorePeers by fastforce
qed (use assms(1) in \<open>auto simp: remove_peer_def remove_stale_peers_def with_lock_def Let_def
      split: option.split\<close>)

lemma disc_run_rate:
  assumes "rate_inv t0 us (ds_security d)" and "sorted (concat (map op_clock cs))"
    and "\<forall>t \<in> set (concat (map op_clock cs)). t0 \<le> t"
  shows "\<exists>t1. rate_inv t1 (us @ snd (disc_run F ord cs d)) (ds_security (fst (disc_run F ord cs d)))
    \<and> ps_config (ds_security (fst (disc_run F ord cs d))) = ps_config (ds_security d)"
  using assms
proof (induction cs arbitrary: d t0 us)
  case (Cons c cs)
  let ?d = "fst (disc_exec F ord c d)"
  obtain t1 where t1: "t1 = t0 \<or> [t1] = op_clock c" "rate_inv t1 (us @ admissions c d ?d) (ds_security ?d)"
    "ps_config (ds_security ?d) = ps_config (ds_security d)"
    using disc_exec_rate [OF Cons.prems(1), of c F ord] Cons.prems(3) by auto
  have "\<forall>t \<in> set (concat (map op_clock cs)). t1 \<le> t"
    using t1(1)
  proof
    assume "[t1] = op_clock c"
    from this [symmetric] show ?thesis using Cons.prems(2) by (simp add: sorted_append)
  qed (use Cons.prems(3) in simp)
  moreover have "sorted (concat (map op_clock cs))" using Cons.prems(2) by (simp add: sorted_append)
  ultimately show ?case
    using Cons.IH [OF t1(2)] t1(3) by (auto simp: Let_def split: prod.splits)
qed auto

text \<open>
  The shape of a discovery state: each peer stands once, under its own id, its addresses have been
  given to the peer store, no connection has been closed, and between two calls the mutex is free
  unless a goroutine waits for itself.
\<close>

definition disc_ok :: "'f discovery \<Rightarrow> bool" where
  "disc_ok d \<longleftrightarrow>
     wf_map (ds_peers d)
     \<and> (\<forall>e \<in> set (ds_peers d). pi_id (snd e) = fst e
          \<and> AddAddrs (fst e) (pi_addrs (snd e)) \<in> set (ds_host d))
     \<and> (\<forall>p. ClosePeer p \<notin> set (ds_host d))
     \<and> ds_mu d \<in> {Unlocked, WriteLocked}"

lemma set_map_del_subset: "set (map_del k m) \<subseteq> set m"
  by (auto simp: AList.delete_eq)

lemma disc_ok_shrink:
  assumes "disc_ok d" and "set (ds_peers d') \<subseteq> set (ds_peers d)" and "wf_map (ds_peers d')"
    and "ds_host d' = ds_host d" and "ds_mu d' \<in> {Unlocked, WriteLocked}"
  shows "disc_ok d'"
  using assms unfolding disc_ok_def by (metis subsetD)

lemma score_loop_shape:
  assumes "ds_mu d = ReadLocked n"
  shows "ds_peers (fst (score_loop F clock es d)) = ds_peers d
    \<and> ds_host (fst (score_loop F clock es d)) = ds_host d"
  using assms
proof (induction es arbitrary: d)
  case (Cons e es)
  obtain i info where e: "e = (i, info)" by (cases e)
  obtain sec ev where up:
    "update_peer_score F i 0 (time_sub (clock i) (pi_seen info)) (ds_security d) = (sec, ev)"
    by fastforce
  show ?case
    using Cons.IH [of "d\<lparr>ds_security := sec, ds_events := ds_events d @ ev\<rparr>"] Cons.prems
    by (cases "should_disconnect_peer F i sec") (simp_all add: e up Let_def remove_peer_def with_lock_def)
qed simp

lemma stale_fold_subset:
  "set (fold (\<lambda>(i, x) m. if P x then map_del i m else m) es m) \<subseteq> set m"
proof (induction es arbitrary: m)
  case (Cons e es)
  obtain i x where e: "e = (i, x)" by (cases e)
  let ?m = "if P x then map_del i m else m"
  have "set ?m \<subseteq> set m" using set_map_del_subset [of i m] by simp
  then show ?case unfolding e using Cons.IH [of ?m] by simp
qed simp

lemma set_map_put_fresh: "\<not> has_key m k \<Longrightarrow> set (map_put k v m) = insert (k, v) (set m)"
  by (induction m) (auto simp: has_key_def keys_def)

lemma disc_exec_ok:
  assumes "disc_ok d"
  shows "disc_ok (fst (disc_exec F ord c d))"
proof (cases c)
  case (FindPeer now seen p addrs)
  show ?thesis
  proof (cases "mutex_lock (ds_mu d) = None \<or> has_key (ds_peers d) p")
    case True
    then show ?thesis
      using assms
      by (auto simp: FindPeer add_peer_def with_lock_def admit_peer_def disc_ok_def note_metrics_def
          split: option.split)
  next
    case False
    obtain sec ok ev where v: "validate_new_peer now p (ds_security d) = (sec, ok, ev)"
      by (cases "validate_new_peer now p (ds_security d)") auto
    have new: "set (map_put p x (ds_peers d)) = insert (p, x) (set (ds_peers d))" for x :: peer_info
      using False by (simp add: set_map_put_fresh)
    show ?thesis
      using assms False v
      by (cases ok) (simp_all add: FindPeer add_peer_def with_lock_def admit_peer_def Let_def disc_ok_def
          note_metrics_def note_host_def new split: option.splits)
  qed
next
  case (DropPeer p)
  then show ?thesis
    using assms set_map_del_subset [of p "ds_peers d"]
    by (auto simp: remove_peer_def with_lock_def Let_def note_metrics_def intro!: disc_ok_shrink [OF assms]
        split: option.split) (auto simp: disc_ok_def)
next
  case (ScorePeers clock)
  let ?es = "go_range ord (ds_peers d)"
  show ?thesis
  proof (cases "ds_mu d")
    case Unlocked
    let ?d = "d\<lparr>ds_mu := ReadLocked (Suc 0)\<rparr>"
    obtain e r where e: "score_loop F clock ?es ?d = (e, r)" by fastforce
    then have same: "ds_peers e = ds_peers d" "ds_host e = ds_host d"
      and r: "r = Ok () \<or> r = Blocked \<and> ds_mu e = WriteLocked"
      using score_loop_shape [of ?d "Suc 0" F clock ?es] score_loop_outcome [of ?d "Suc 0" F clock ?es]
      by auto
    have "fst (disc_exec F ord c d) = (if r = Ok () then e\<lparr>ds_mu := Unlocked\<rparr> else e)"
      using r by (auto simp: ScorePeers update_peer_scores_def Unlocked e)
    then show ?thesis
      using assms r by (auto simp: same disc_ok_def)
  qed (use assms in \<open>auto simp: ScorePeers update_peer_scores_def disc_ok_def\<close>)
next
  case (DropStale now)
  then show ?thesis
    using assms stale_fold_subset [of "\<lambda>x. 5 * minute < time_sub now (pi_seen x)"]
    by (auto simp: remove_stale_peers_def with_lock_def fold_delete_wf intro!: disc_ok_shrink [OF assms]
        split: option.split) (auto simp: disc_ok_def fold_delete_wf)
qed

lemma disc_run_ok: "disc_ok d \<Longrightarrow> disc_ok (fst (disc_run F ord ops d))"
proof (induction ops arbitrary: d)
  case (Cons c cs)
  have "fst (disc_run F ord (c # cs) d) = fst (disc_run F ord cs (fst (disc_exec F ord c d)))"
    by (simp add: Let_def split: prod.split)
  then show ?case using Cons.IH [OF disc_exec_ok [OF Cons.prems]] by simp
qed simp

text \<open>The goroutine keeps that shape too.\<close>

lemma find_peers_ok: "disc_ok d \<Longrightarrow> disc_ok (fst (find_peers found d))"
proof (induction found arbitrary: d)
  case Nil
  then show ?case by (simp add: disc_ok_def note_metrics_def)
next
  case (Cons f found)
  obtain now seen p addrs where f: "f = (now, seen, p, addrs)" by (rule prod_cases4)
  have "disc_ok (fst (add_peer now seen p addrs d))"
    using disc_exec_ok [OF Cons.prems, of F ord "FindPeer now seen p addrs" for F ord] by simp
  then show ?case
    using Cons.IH Cons.prems by (auto simp: f split: prod.splits outcome.splits)
qed

lemma discover_peers_ok: "disc_ok d \<Longrightarrow> disc_ok (fst (discover_peers F o1 o2 es d))"
proof (induction F o1 o2 es d rule: discover_peers.induct)
  case (3 F o1 o2 found clock now es d)
  have "disc_ok (fst (find_peers found d))" by (rule find_peers_ok [OF 3(2)])
  moreover have "disc_ok (fst (update_peer_scores F o1 clock d1))"
    and "disc_ok (fst (remove_stale_peers o2 now d1))" if "disc_ok d1" for d1
    using disc_exec_ok [OF that, of F o1 "ScorePeers clock"] disc_exec_ok [OF that, of F o2 "DropStale now"]
    by simp_all
  ultimately have "disc_ok (fst (discovery_tick F o1 o2 found clock now d))"
    by (auto simp: discovery_tick_def split: prod.splits outcome.splits) (metis fst_conv)+
  then show ?case
    using 3(1) by (auto split: prod.splits outcome.splits)
qed (simp_all add: disc_ok_def)

section \<open>Properties\<close>

text \<open>
  C22. The shape of the discovery state after any history of calls and any ticks of the goroutine
  \<open>discoverPeers\<close> after it: every known peer stands exactly
  once, under its own id, and the peer store has been given the addresses that are kept for it; the
  mutex is free, or held for ever by the scoring goroutine that waits for itself; and no connection
  was ever closed, since \<open>ClosePeer\<close> stands behind the call that deadlocks.
\<close>

theorem discovery_shape:
  assumes "disc_run F ord ops (new_discovery half) = (d0, admitted)"
    and "d = fst (discover_peers F o1 o2 es d0)"
  shows "distinct (keys (ds_peers d))
    \<and> (\<forall>(p, info) \<in> set (ds_peers d). pi_id info = p \<and> AddAddrs p (pi_addrs info) \<in> set (ds_host d))
    \<and> (ds_mu d = Unlocked \<or> ds_mu d = WriteLocked) \<and> (\<forall>p. ClosePeer p \<notin> set (ds_host d))"
proof -
  have "disc_ok (new_discovery half)" by (simp add: disc_ok_def new_discovery_def)
  from disc_run_ok [OF this, of F ord ops] have "disc_ok d0" using assms(1) by simp
  then have "disc_ok d" unfolding assms(2) by (rule discover_peers_ok)
  then show ?thesis by (auto simp: disc_ok_def wf_map_def)
qed

text \<open>
  C21. Admission is rate limited: in any history of discovery calls (peers found again and again,
  dropped, scored, expired), with a clock that does not run backwards, at most 30 peers become
  known in any minute, whichever minute one looks at.
\<close>

theorem peer_admission_limited:
  assumes "disc_run F ord ops (new_discovery half) = (d, admitted)"
    and "sorted (concat (map op_clock ops))"
  shows "length (in_window t admitted) \<le> 30"
proof -
  obtain t0 where t0: "\<forall>t \<in> set (concat (map op_clock ops)). t0 \<le> t"
  proof (cases "concat (map op_clock ops)")
    case (Cons a as)
    then show ?thesis using that [of a] assms(2) by auto
  qed (use that in auto)
  have "rate_inv t0 [] (ds_security (new_discovery half))"
    unfolding new_discovery_def by (simp add: rate_inv_new)
  from disc_run_rate [OF this assms(2) t0, of F ord]
  obtain t1 where "rate_inv t1 admitted (ds_security d)"
    and "ps_config (ds_security d) = ps_config (ds_security (new_discovery half))"
    by (auto simp: assms(1))
  then show ?thesis
    by (simp add: rate_inv_def) (simp add: new_discovery_def new_peer_security_def)
qed

text \<open>
  C35. \<open>updatePeerScores\<close> deadlocks as soon as a peer's score is too low: it then calls \<open>RemovePeer\<close>,
  which takes the lock that it holds for reading. From then on every operation blocks, and so does
  \<open>Stop\<close>, which waits for the goroutine. If no score is too low it returns.
\<close>

theorem low_score_deadlocks:
  assumes "ds_mu d = Unlocked" and "is_order ord" and "wf_map (ds_peers d)"
    and "update_peer_scores F ord clock d = (d', r)"
  shows "r = (if \<exists>e \<in> set (ds_peers d). low_score F clock d e then Blocked else Ok ())
    \<and> (r = Blocked \<longrightarrow>
         snd (add_peer now seen p addrs d') = Blocked \<and> snd (remove_peer p d') = Blocked
         \<and> get_peers ord d' = Blocked \<and> snd (remove_stale_peers ord now d') = Blocked
         \<and> snd (update_peer_scores F ord clock d') = Blocked
         \<and> (ds_running d \<and> \<not> ds_stopped d \<longrightarrow> snd (discovery_stop close d') = Blocked))"
proof -
  let ?d = "d\<lparr>ds_mu := ReadLocked 1\<rparr>" and ?es = "go_range ord (ds_peers d)"
  have low: "list_ex (low_score F clock ?d) ?es \<longleftrightarrow> (\<exists>e \<in> set (ds_peers d). low_score F clock d e)"
    by (simp add: list_ex_go_range [OF assms(2,3)] low_score_def)
  have run: "update_peer_scores F ord clock d =
      (case score_loop F clock ?es ?d of (d', Ok u) \<Rightarrow> (d'\<lparr>ds_mu := ds_mu d\<rparr>, Ok u) | r \<Rightarrow> r)"
    by (simp add: update_peer_scores_def assms(1) split: prod.split outcome.split)
  show ?thesis
  proof (cases "\<exists>e \<in> set (ds_peers d). low_score F clock d e")
    case True
    then obtain e where e: "score_loop F clock ?es ?d = (e, Blocked)" "ds_mu e = WriteLocked"
      "ds_running e = ds_running d" "ds_stopped e = ds_stopped d"
      using score_loop_outcome [of ?d 1 F clock ?es] low by auto
    then have d': "d' = e" "r = Blocked" using assms(4) run by simp_all
    show ?thesis
      using True e(2,3,4)
      by (simp add: d' add_peer_def remove_peer_def get_peers_def remove_stale_peers_def
          update_peer_scores_def with_lock_def discovery_stop_def Let_def)
  next
    case False
    then obtain e where "score_loop F clock ?es ?d = (e, Ok ())"
      using score_loop_outcome [of ?d 1 F clock ?es] low by auto
    then have "r = Ok ()" using assms(4) run by simp
    then show ?thesis using False by simp
  qed
qed

section \<open>Witnesses\<close>

definition rat_scores :: "rat score_ops" where
  "rat_scores =
     \<lparr>so_lit = (\<lambda>n d. of_int n / of_int d), so_of_int = of_int, so_add = (+), so_sub = (-),
      so_mul = (*), so_div = (/), so_less = (<)\<rparr>"

definition demo_discovery :: "rat discovery" where
  "demo_discovery = fst (add_peer (Instant 0) (Instant 0) ''p'' [''x''] (new_discovery (9 / 10)))"

lemma demo_discovery_fields:
  "ds_mu demo_discovery = Unlocked"
  "ds_peers demo_discovery = [(''p'', \<lparr>pi_id = ''p'', pi_addrs = [''x''], pi_seen = Instant 0\<rparr>)]"
  "sc_min_score (ps_config (ds_security demo_discovery)) = 9 / 10"
  by (simp_all add: demo_discovery_def add_peer_def with_lock_def admit_peer_def Let_def
      new_discovery_def new_peer_security_def validate_new_peer_def has_key_def keys_def)

lemma demo_low:
  "low_score rat_scores (\<lambda>_. Instant (5 * second)) demo_discovery
     (''p'', \<lparr>pi_id = ''p'', pi_addrs = [''x''], pi_seen = Instant 0\<rparr>)"
  by (simp add: low_score_def demo_discovery_fields peer_score_def score_part_def Let_def rat_scores_def
      time_sub_def second_def millisecond_def max_int64_def min_int64_def go_quot_nonneg)

theorem low_score_deadlocks_witness:
  "get_peers rev (fst (update_peer_scores rat_scores rev (\<lambda>_. Instant (5 * second)) demo_discovery))
     = Blocked"
proof -
  obtain d' r where run: "update_peer_scores rat_scores rev (\<lambda>_. Instant (5 * second)) demo_discovery
      = (d', r)"
    by fastforce
  have wf: "wf_map (ds_peers demo_discovery)" by (simp add: demo_discovery_fields wf_map_def keys_def)
  have "r = Blocked" and "r = Blocked \<longrightarrow> get_peers rev d' = Blocked"
    using low_score_deadlocks [OF demo_discovery_fields(1) is_order_rev wf run] demo_low
    by (simp_all add: demo_discovery_fields(2))
  then show ?thesis by (simp add: run)
qed

theorem peer_admission_limited_witness:
  "length (in_window (Instant 100)
     (snd (disc_run rat_scores rev
        [FindPeer (Instant 1) (Instant 1) ''p'' [], DropPeer ''p'', FindPeer (Instant 2) (Instant 2) ''p'' []]
        (new_discovery (1 / 2))))) \<le> 30"
  by (rule peer_admission_limited [OF prod.collapse [symmetric]]) (simp add: le_time_iff)

theorem discovery_shape_witness:
  "\<forall>p. ClosePeer p \<notin> set (ds_host (fst (discover_peers rat_scores rev rev
     [Some ([(Instant 2, Instant 2, ''q'', [''y''])], \<lambda>_. Instant (5 * second), Instant 3), None]
     (fst (disc_run rat_scores rev [FindPeer (Instant 1) (Instant 1) ''p'' [''x'']] (new_discovery (9 / 10)))))))"
proof -
  let ?ops = "[FindPeer (Instant 1) (Instant 1) ''p'' [''x'']]"
  obtain d us where run: "disc_run rat_scores rev ?ops (new_discovery (9 / 10)) = (d, us)" by fastforce
  show ?thesis unfolding run fst_conv using discovery_shape [OF run refl] by blast
qed

end
