(* ===== verification/P2P.thy ===== *)
theory P2P
  imports Metrics Types
begin

text \<open>
  \<open>core/p2p/network.go\<close> and \<open>message.go\<close>: protocol handlers, sending and broadcasting over libp2p
  streams. The libp2p host is not in the source: what it answers to opening, writing and reading a
  stream is an argument (by peer, since a broadcast addresses a peer once). A handler is a value of
  type \<open>'h\<close>, run by the argument \<open>run\<close>. The state logs what was written (\<open>pn_wire\<close>) and the
  metrics. JSON is an argument.
\<close>

section \<open>Messages\<close>

definition type_timestamp :: string where "type_timestamp = ''timestamp''"
definition type_consensus :: string where "type_consensus = ''consensus''"
definition type_view_change :: string where "type_view_change = ''viewchange''"
definition p2p_fast_path_protocol :: string where "p2p_fast_path_protocol = ''/timeserver/fastpath/1.0.0''"
definition p2p_consensus_protocol :: string where "p2p_consensus_protocol = ''/timeserver/consensus/1.0.0''"

record timestamp_message =
  tm_type :: string
  tm_from :: string
  tm_to :: string
  tm_signed :: "signed_timestamp option"

definition new_timestamp_message ::
  "string \<Rightarrow> string \<Rightarrow> signed_timestamp option \<Rightarrow> timestamp_message" where
  "new_timestamp_message from to ts =
     \<lparr>tm_type = type_timestamp, tm_from = from, tm_to = to, tm_signed = ts\<rparr>"

record view_change_msg =
  vm_type :: string
  vm_from :: string
  vm_to :: string
  vm_view :: u64
  vm_timestamp :: "signed_timestamp option"

record p2p_consensus_message =
  pc_type :: string
  pc_from :: string
  pc_to :: string
  pc_view :: u64
  pc_timestamp :: "signed_timestamp option"
  pc_data :: bytes

definition encode_message :: "('m \<Rightarrow> bytes outcome) \<Rightarrow> 'm \<Rightarrow> bytes outcome" where
  "encode_message marshal m = wrap_err ''failed to marshal message: %w'' (marshal m)"

definition decode_message :: "(bytes \<Rightarrow> 'm outcome) \<Rightarrow> bytes \<Rightarrow> 'm outcome" where
  "decode_message unmarshal d = wrap_err ''failed to unmarshal message: %w'' (unmarshal d)"

section \<open>The network\<close>

record 'h p2p_network =
  pn_id :: string
  pn_handlers :: "(string, 'h) gomap"
  pn_streams :: "string list"
  pn_wire :: "(string \<times> string \<times> bytes) list"
  pn_metrics :: "metric_call list"

definition new_p2p_network :: "unit outcome \<Rightarrow> string \<Rightarrow> 'h p2p_network outcome" where
  "new_p2p_network host i =
     bind_outcome (wrap_err ''failed to create libp2p host: %w'' host)
       (\<lambda>_. Ok \<lparr>pn_id = i, pn_handlers = [], pn_streams = [], pn_wire = [], pn_metrics = []\<rparr>)"

definition pn_get_id :: "'h p2p_network \<Rightarrow> string" where
  "pn_get_id n = pn_id n"

definition register_protocol :: "string \<Rightarrow> 'h \<Rightarrow> 'h p2p_network \<Rightarrow> 'h p2p_network" where
  "register_protocol proto h n = n\<lparr>pn_handlers := map_put proto h (pn_handlers n)\<rparr>"

definition p2p_note :: "metric_call list \<Rightarrow> 'h p2p_network \<Rightarrow> 'h p2p_network" where
  "p2p_note ms n = n\<lparr>pn_metrics := pn_metrics n @ ms\<rparr>"

definition pn_send ::
  "(string \<Rightarrow> unit outcome) \<Rightarrow> (string \<Rightarrow> unit outcome) \<Rightarrow> string \<Rightarrow> string \<Rightarrow> bytes
   \<Rightarrow> 'h p2p_network \<Rightarrow> 'h p2p_network \<times> unit outcome" where
  "pn_send stream wr p proto data n =
     (case stream p of
        Ok _ \<Rightarrow>
          (case wr p of
             Ok _ \<Rightarrow> (p2p_note [RecordP2PMessage proto ''send_success'', RecordP2PStreamLatency ''send'']
                        (n\<lparr>pn_wire := pn_wire n @ [(p, proto, data)]\<rparr>), Ok ())
           | Err e \<Rightarrow> (p2p_note [RecordP2PMessage proto ''write_error'', RecordP2PStreamLatency ''send''] n,
                        Err (Errorf ''failed to write to stream: %w'' [FErr e]))
           | r \<Rightarrow> (n, r))
      | Err e \<Rightarrow> (p2p_note [RecordP2PMessage proto ''send_error'', RecordP2PStreamLatency ''send''] n,
                   Err (Errorf ''failed to create stream: %w'' [FErr e]))
      | r \<Rightarrow> (n, r))"

fun broadcast_loop ::
  "(string \<Rightarrow> unit outcome) \<Rightarrow> (string \<Rightarrow> unit outcome) \<Rightarrow> string list \<Rightarrow> string \<Rightarrow> bytes
   \<Rightarrow> 'h p2p_network \<Rightarrow> 'h p2p_network \<times> unit outcome" where
  "broadcast_loop stream wr [] proto data n =
     (p2p_note [RecordP2PMessage proto ''broadcast_success''] n, Ok ())"
| "broadcast_loop stream wr (p # ps) proto data n =
     (case pn_send stream wr p proto data n of
        (n', Ok _) \<Rightarrow> broadcast_loop stream wr ps proto data n'
      | (n', Err e) \<Rightarrow> (p2p_note [RecordP2PMessage proto ''broadcast_error''] n',
                        Err (Errorf ''failed to send to peer %s: %w'' [FStr p, FErr e]))
      | r \<Rightarrow> r)"

text \<open>\<open>peers\<close> is the host's list of connected peers.\<close>

definition pn_broadcast ::
  "(string \<Rightarrow> unit outcome) \<Rightarrow> (string \<Rightarrow> unit outcome) \<Rightarrow> string list \<Rightarrow> string \<Rightarrow> bytes
   \<Rightarrow> 'h p2p_network \<Rightarrow> 'h p2p_network \<times> unit outcome" where
  "pn_broadcast stream wr peers proto data n =
     (case broadcast_loop stream wr peers proto data n of
        (n', r) \<Rightarrow> (p2p_note [RecordP2PStreamLatency ''broadcast''] n', r))"

definition pn_connect ::
  "'a outcome \<Rightarrow> ('a \<Rightarrow> string outcome) \<Rightarrow> (string \<Rightarrow> unit outcome) \<Rightarrow> string \<Rightarrow> unit outcome" where
  "pn_connect parse info connect addr =
     (case parse of
        Ok maddr \<Rightarrow>
          bind_outcome (wrap_err ''failed to get peer info from multiaddr: %w'' (info maddr)) (\<lambda>p.
            case connect p of
              Err e \<Rightarrow> Err (Errorf ''failed to connect to peer %s: %w'' [FStr p, FErr e])
            | r \<Rightarrow> r)
      | Err e \<Rightarrow> Err (Errorf ''invalid multiaddr %s: %w'' [FStr addr, FErr e])
      | Panic q \<Rightarrow> Panic q
      | Blocked \<Rightarrow> Blocked)"

text \<open>\<open>Start\<close> sets a stream handler for every protocol registered so far.\<close>

definition pn_start ::
  "(string list \<Rightarrow> string list) \<Rightarrow> 'h p2p_network \<Rightarrow> 'h p2p_network \<times> unit outcome" where
  "pn_start ord n =
     (n\<lparr>pn_streams := fold List.insert (map fst (go_range ord (pn_handlers n))) (pn_streams n)\<rparr>, Ok ())"

definition pn_stop :: "unit outcome \<Rightarrow> unit outcome" where
  "pn_stop close = close"

definition stream_buffer :: nat where
  "stream_buffer = 1024 * 1024"

text \<open>
  One incoming stream; \<open>read\<close> is what its first \<open>Read\<close> into the buffer gives. The stream is served
  only if its protocol has a stream handler, which is the host's part.
\<close>

definition handle_stream ::
  "('h \<Rightarrow> string \<Rightarrow> bytes \<Rightarrow> unit outcome) \<Rightarrow> string \<Rightarrow> string \<Rightarrow> bytes outcome
   \<Rightarrow> 'h p2p_network \<Rightarrow> 'h p2p_network \<times> unit outcome" where
  "handle_stream run proto from read n =
     (let answer = (\<lambda>m r. (p2p_note [RecordP2PMessage proto m, RecordP2PStreamLatency ''handle_stream''] n, r))
      in case map_of (pn_handlers n) proto of
           None \<Rightarrow> answer ''unknown_protocol'' (Ok ())
         | Some h \<Rightarrow>
             (case read of
                Ok data \<Rightarrow>
                  (case run h from data of
                     Ok _ \<Rightarrow> answer ''handle_success'' (Ok ())
                   | Err _ \<Rightarrow> answer ''handle_error'' (Ok ())
                   | r \<Rightarrow> (n, r))
              | Err _ \<Rightarrow> answer ''read_error'' (Ok ())
              | Panic p \<Rightarrow> (n, Panic p)
              | Blocked \<Rightarrow> (n, Blocked)))"

text \<open>Not implemented in the source: both return nil and no error.\<close>

definition p2p_get_peer :: "string \<Rightarrow> time_server option outcome" where
  "p2p_get_peer i = Ok None"

definition p2p_peers_in_region :: "string \<Rightarrow> time_server list outcome" where
  "p2p_peers_in_region region = Ok []"

section \<open>Broadcasting\<close>

definition reachable_peer :: "(string \<Rightarrow> unit outcome) \<Rightarrow> (string \<Rightarrow> unit outcome) \<Rightarrow> string \<Rightarrow> bool" where
  "reachable_peer stream wr p \<longleftrightarrow> is_ok (stream p) \<and> is_ok (wr p)"

lemma p2p_note_fields [simp]:
  "pn_wire (p2p_note ms n) = pn_wire n" "pn_handlers (p2p_note ms n) = pn_handlers n"
  "pn_metrics (p2p_note ms n) = pn_metrics n @ ms"
  by (simp_all add: p2p_note_def)

lemma pn_send_cases:
  assumes "returns (stream p)" and "returns (wr p)"
  shows "if reachable_peer stream wr p
    then snd (pn_send stream wr p proto data n) = Ok ()
      \<and> pn_wire (fst (pn_send stream wr p proto data n)) = pn_wire n @ [(p, proto, data)]
    else (\<exists>e. snd (pn_send stream wr p proto data n) = Err e)
      \<and> pn_wire (fst (pn_send stream wr p proto data n)) = pn_wire n"
  using assms
  by (cases "stream p"; cases "wr p") (simp_all add: pn_send_def reachable_peer_def)

lemma broadcast_loop_wire:
  assumes "\<forall>p \<in> set peers. returns (stream p) \<and> returns (wr p)"
  shows "pn_wire (fst (broadcast_loop stream wr peers proto data n))
      = pn_wire n @ map (\<lambda>p. (p, proto, data)) (takeWhile (reachable_peer stream wr) peers)
    \<and> (case dropWhile (reachable_peer stream wr) peers of
         [] \<Rightarrow> snd (broadcast_loop stream wr peers proto data n) = Ok ()
       | p # rest \<Rightarrow> \<exists>e. snd (broadcast_loop stream wr peers proto data n)
           = Err (Errorf ''failed to send to peer %s: %w'' [FStr p, FErr e]))"
  using assms
proof (induction peers arbitrary: n)
  case (Cons p ps)
  obtain n' r where s: "pn_send stream wr p proto data n = (n', r)" by fastforce
  show ?case
  proof (cases "reachable_peer stream wr p")
    case True
    then have "r = Ok ()" "pn_wire n' = pn_wire n @ [(p, proto, data)]"
      using pn_send_cases [of stream p wr proto data n] Cons.prems s by simp_all
    note sent = this
    have step: "broadcast_loop stream wr (p # ps) proto data n = broadcast_loop stream wr ps proto data n'"
      using s sent(1) by simp
    show ?thesis
      unfolding step using Cons.IH [of n'] Cons.prems True sent(2) by simp
  next
    case False
    then obtain e where "r = Err e" "pn_wire n' = pn_wire n"
      using pn_send_cases [of stream p wr proto data n] Cons.prems s by auto
    then show ?thesis using s False by simp
  qed
qed simp

lemma pn_send_Ok_wire:
  "pn_send stream wr p proto data n = (n', Ok u) \<Longrightarrow> pn_wire n' = pn_wire n @ [(p, proto, data)]"
  by (auto simp: pn_send_def split: outcome.splits)

lemma pn_broadcast_Ok_wire:
  assumes "pn_broadcast stream wr peers proto data n = (n', Ok u)"
  shows "pn_wire n' = pn_wire n @ map (\<lambda>p. (p, proto, data)) peers"
proof -
  have "broadcast_loop stream wr peers proto data n = (n1, Ok u)
      \<Longrightarrow> pn_wire n1 = pn_wire n @ map (\<lambda>p. (p, proto, data)) peers" for n1
  proof (induction peers arbitrary: n)
    case (Cons p ps)
    then obtain n2 v where "pn_send stream wr p proto data n = (n2, Ok v)"
      "broadcast_loop stream wr ps proto data n2 = (n1, Ok u)"
      by (auto split: prod.splits outcome.splits)
    then show ?case using Cons.IH pn_send_Ok_wire by fastforce
  qed auto
  then show ?thesis using assms by (auto simp: pn_broadcast_def split: prod.splits)
qed

text \<open>
  A broadcast is not fault tolerant: it writes the message to the peers in the host's order up
  to the first that cannot be reached, and to no peer after it; it succeeds exactly if every peer
  can be reached, and otherwise the error names the peer that stopped it.
\<close>

lemma broadcast_stops_at_failure:
  assumes "\<forall>p \<in> set peers. returns (stream p) \<and> returns (wr p)"
    and "pn_broadcast stream wr peers proto data n = (n', r)"
  shows "pn_wire n' = pn_wire n @ map (\<lambda>p. (p, proto, data)) (takeWhile (reachable_peer stream wr) peers)
    \<and> (r = Ok () \<longleftrightarrow> (\<forall>p \<in> set peers. reachable_peer stream wr p))
    \<and> (r \<noteq> Ok () \<longrightarrow> (\<exists>e. r = Err (Errorf ''failed to send to peer %s: %w''
          [FStr (hd (dropWhile (reachable_peer stream wr) peers)), FErr e])))"
proof -
  have n': "pn_wire n' = pn_wire (fst (broadcast_loop stream wr peers proto data n))"
    and r: "r = snd (broadcast_loop stream wr peers proto data n)"
    using assms(2) by (auto simp: pn_broadcast_def split: prod.splits)
  have all: "(\<forall>p \<in> set peers. reachable_peer stream wr p)
      \<longleftrightarrow> dropWhile (reachable_peer stream wr) peers = []"
    by (simp add: dropWhile_eq_Nil_conv)
  show ?thesis
    using broadcast_loop_wire [OF assms(1), of proto data n]
    unfolding n' r all by (cases "dropWhile (reachable_peer stream wr) peers") auto
qed

lemma broadcast_stops_at_failure_witness:
  "\<exists>n' e. pn_broadcast (\<lambda>p. if p = ''b'' then Err ErrRequestTimeout else Ok ()) (\<lambda>p. Ok ())
      [''a'', ''b'', ''c''] ''x'' [1]
      (\<lparr>pn_id = [], pn_handlers = [], pn_streams = [], pn_wire = [], pn_metrics = []\<rparr> :: unit p2p_network)
     = (n', Err (Errorf ''failed to send to peer %s: %w'' [FStr ''b'', FErr e]))
   \<and> pn_wire n' = [(''a'', ''x'', [1])]"
proof -
  let ?n = "\<lparr>pn_id = [], pn_handlers = [], pn_streams = [], pn_wire = [], pn_metrics = []\<rparr> :: unit p2p_network"
  let ?f = "\<lambda>p. if p = ''b'' then Err ErrRequestTimeout else Ok ()"
  obtain n' r where run: "pn_broadcast ?f (\<lambda>p. Ok ()) [''a'', ''b'', ''c''] ''x'' [1] ?n = (n', r)"
    by fastforce
  have "\<forall>p \<in> set [''a'', ''b'', ''c'']. returns (?f p) \<and> returns (Ok ())" by simp
  from broadcast_stops_at_failure [OF this run] show ?thesis
    unfolding run by (auto simp: reachable_peer_def)
qed

end
