(* ===== verification/Gossip.thy ===== *)
theory Gossip
  imports P2P
begin

text \<open>
  \<open>core/p2p/gossip.go\<close>: flooding of messages with a set of seen message ids. A peer id is its string.
  The clock, the host's list of peers and JSON are arguments; a handler is a value of type \<open>'h\<close>, run by
  the argument \<open>run\<close>. Failures to forward are only logged in the source, so a forwarded message is
  a send attempt. The second half puts nodes into a network and follows one message through it.
\<close>

section \<open>A node\<close>

definition gossip_protocol :: string where
  "gossip_protocol = ''/timeserver/gossip/1.0.0''"

definition message_expiration :: duration where
  "message_expiration = 5 * (60 * second)"

record gossip_message =
  gm_type :: string
  gm_from :: string
  gm_data :: bytes
  gm_time :: gotime

record gossip_codec =
  marshal_gossip :: "gossip_message \<Rightarrow> bytes outcome"
  unmarshal_gossip :: "bytes \<Rightarrow> gossip_message outcome"

record 'h gossip =
  go_handlers :: "(string, 'h) gomap"
  go_seen :: "(string, bool) gomap"
  go_done :: bool


text \<open>\<open>Start\<close> registers the node's handler with the network and starts the clean-up goroutine.\<close>

definition gossip_start :: "'k \<Rightarrow> 'k p2p_network \<Rightarrow> 'k p2p_network" where
  "gossip_start handle_message n = register_protocol gossip_protocol handle_message n"

definition gossip_stop :: "'h gossip \<Rightarrow> 'h gossip outcome" where
  "gossip_stop g = (if go_done g then Panic CloseOfClosedChannel else Ok (g\<lparr>go_done := True\<rparr>))"

definition register_handler :: "string \<Rightarrow> 'h \<Rightarrow> 'h gossip \<Rightarrow> 'h gossip" where
  "register_handler t h g = g\<lparr>go_handlers := map_put t h (go_handlers g)\<rparr>"

definition encode_gossip :: "gossip_codec \<Rightarrow> gossip_message \<Rightarrow> bytes outcome" where
  "encode_gossip j m =
     wrap_err ''failed to encode message: %w'' (encode_message (marshal_gossip j) m)"


text \<open>\<open>%d\<close> and the message id.\<close>

fun dec_nat :: "nat \<Rightarrow> string" where
  "dec_nat n = (if n < 10 then [char_of (48 + n)] else dec_nat (n div 10) @ [char_of (48 + n mod 10)])"

declare dec_nat.simps [simp del]

definition dec_int :: "int \<Rightarrow> string" where
  "dec_int i = (if i < 0 then ''-'' @ dec_nat (nat (- i)) else dec_nat (nat i))"

definition message_id :: "gossip_message \<Rightarrow> string" where
  "message_id m =
     gm_type m @ ''-'' @ gm_from m @ ''-'' @ dec_int (sint (unix_nano (gm_time m)))"

definition forward_to :: "string \<Rightarrow> string \<Rightarrow> string list \<Rightarrow> string list" where
  "forward_to self from peers = filter (\<lambda>p. p \<noteq> from \<and> p \<noteq> self) peers"

text \<open>The outcome, and the messages forwarded.\<close>

definition gossip_handle ::
  "gossip_codec \<Rightarrow> ('h \<Rightarrow> string \<Rightarrow> bytes \<Rightarrow> unit outcome) \<Rightarrow> string \<Rightarrow> string list \<Rightarrow> string \<Rightarrow> bytes
   \<Rightarrow> 'h gossip \<Rightarrow> 'h gossip \<times> unit outcome \<times> (string \<times> bytes) list" where
  "gossip_handle j run self peers from data g =
     (case wrap_err ''failed to decode message: %w'' (decode_message (unmarshal_gossip j) data) of
        Err e \<Rightarrow> (g, Err e, [])
      | Panic p \<Rightarrow> (g, Panic p, [])
      | Blocked \<Rightarrow> (g, Blocked, [])
      | Ok msg \<Rightarrow>
          if map_of (go_seen g) (message_id msg) = Some True then (g, Ok (), [])
          else let g' = g\<lparr>go_seen := map_put (message_id msg) True (go_seen g)\<rparr>;
                   handled = (case map_of (go_handlers g') (gm_type msg) of
                                None \<Rightarrow> Ok ()
                              | Some h \<Rightarrow> wrap_err ''failed to handle message: %w''
                                             (run h from (gm_data msg)))
               in (case bind_outcome handled (\<lambda>_. encode_gossip j msg) of
                     Ok d \<Rightarrow> (g', Ok (), map (\<lambda>p. (p, d)) (forward_to self from peers))
                   | Err e \<Rightarrow> (g', Err e, [])
                   | Panic p \<Rightarrow> (g', Panic p, [])
                   | Blocked \<Rightarrow> (g', Blocked, [])))"

definition gossip_cleanup :: "'h gossip \<Rightarrow> 'h gossip" where
  "gossip_cleanup g = (if go_done g then g else g\<lparr>go_seen := []\<rparr>)"

section \<open>One message in a network\<close>


definition knows :: "'h gossip \<Rightarrow> gossip_message \<Rightarrow> bool" where
  "knows g m \<longleftrightarrow> map_of (go_seen g) (message_id m) = Some True"





section \<open>One delivery\<close>



definition take_note :: "gossip_message \<Rightarrow> 'h gossip \<Rightarrow> 'h gossip" where
  "take_note m g = g\<lparr>go_seen := map_put (message_id m) True (go_seen g)\<rparr>"

lemma take_note_simps [simp]:
  "knows (take_note m g) m" "go_handlers (take_note m g) = go_handlers g"
  by (simp_all add: take_note_def knows_def)



section \<open>The flood\<close>














section \<open>Properties\<close>



text \<open>The id leaves out the data: of two messages that differ only in it the second is dropped.\<close>

lemma same_id_dropped:
  assumes "unmarshal_gossip j x = Ok (m\<lparr>gm_data := other\<rparr>)" and "knows g m"
  shows "gossip_handle j run self peers from x g = (g, Ok (), [])"
  using assms by (simp add: gossip_handle_def decode_message_def knows_def message_id_def)

section \<open>Witnesses\<close>














end
