(* ===== verification/Config.thy ===== *)
theory Config
  imports Server
begin

text \<open>
  \<open>core/config/config.go\<close> and \<open>cmd/timeserver/main.go\<close>: the configuration, its file and its
  validation, and the start of the server from it. The operating system is a parameter (\<open>os_calls\<close>)
  with its own state, and so are the YAML codec, which decodes onto the configuration it is given, and
  key generation. \<open>filepath.Dir\<close> is modelled for Unix. Lists stand for slices, so an empty slice and
  nil are the same.
\<close>

section \<open>Configuration\<close>

record server_cfg =
  cs_id :: string
  cs_listen_addr :: string
  cs_validator_ids :: "string list"
  cs_validator_count :: int
  cs_min_validators :: int

record network_cfg =
  cn_bootstrap_peers :: "string list"
  cn_bootstrap_nodes :: "string list"
  cn_max_peers :: int
  cn_dial_timeout :: duration

record region_cfg =
  cr_id :: string
  cr_name :: string
  cr_description :: string
  cr_peers :: "string list"

record consensus_cfg =
  cc_max_drift :: duration
  cc_future_window :: duration
  cc_batch_timeout :: duration
  cc_view_timeout :: duration

record security_cfg =
  cy_key_file :: string
  cy_key_path :: string
  cy_key_type :: string
  cy_tls_enabled :: bool
  cy_tls_cert_file :: string
  cy_tls_key_file :: string

record config =
  cf_server :: server_cfg
  cf_network :: network_cfg
  cf_regions :: "region_cfg list"
  cf_security :: security_cfg
  cf_consensus :: consensus_cfg

definition default_config :: config where
  "default_config =
     \<lparr>cf_server = \<lparr>cs_id = [], cs_listen_addr = '':8080'', cs_validator_ids = [],
        cs_validator_count = 4, cs_min_validators = 3\<rparr>,
      cf_network = \<lparr>cn_bootstrap_peers = [], cn_bootstrap_nodes = [], cn_max_peers = 50,
        cn_dial_timeout = 30 * second\<rparr>,
      cf_regions = [],
      cf_security = \<lparr>cy_key_file = ''server.key'', cy_key_path = ''server.key'', cy_key_type = ''ed25519'',
        cy_tls_enabled = False, cy_tls_cert_file = [], cy_tls_key_file = []\<rparr>,
      cf_consensus = \<lparr>cc_max_drift = 500 * millisecond, cc_future_window = 1 * second,
        cc_batch_timeout = 100 * millisecond, cc_view_timeout = 5 * second\<rparr>\<rparr>"

section \<open>Paths\<close>

text \<open>\<open>strings.Split(path, "/")\<close>, and the elements that \<open>filepath.Clean\<close> keeps, last first.\<close>

fun split_slash :: "string \<Rightarrow> string list" where
  "split_slash [] = [[]]"
| "split_slash (c # cs) =
     (if c = CHR ''/'' then [] # split_slash cs
      else case split_slash cs of [] \<Rightarrow> [[c]] | w # ws \<Rightarrow> (c # w) # ws)"

fun clean_step :: "bool \<Rightarrow> string \<Rightarrow> string list \<Rightarrow> string list" where
  "clean_step rooted w acc =
     (if w = [] \<or> w = ''.'' then acc
      else if w = ''..'' then
        (if acc \<noteq> [] \<and> hd acc \<noteq> ''..'' then List.tl acc else if rooted then acc else w # acc)
      else w # acc)"

fun join_slash :: "string list \<Rightarrow> string" where
  "join_slash [] = []"
| "join_slash [w] = w"
| "join_slash (w # ws) = w @ ''/'' @ join_slash ws"

definition path_clean :: "string \<Rightarrow> string" where
  "path_clean p =
     (let rooted = (p \<noteq> [] \<and> hd p = CHR ''/'');
          ws = rev (fold (clean_step rooted) (split_slash p) [])
      in if rooted then ''/'' @ join_slash ws else if ws = [] then ''.'' else join_slash ws)"

definition path_dir :: "string \<Rightarrow> string" where
  "path_dir p = path_clean (rev (dropWhile (\<lambda>c. c \<noteq> CHR ''/'') (rev p)))"

section \<open>Loading and saving\<close>

record 'w os_calls =
  os_read :: "string \<Rightarrow> 'w \<Rightarrow> bytes outcome"
  os_mkdir :: "string \<Rightarrow> 'w \<Rightarrow> 'w \<times> unit outcome"
  os_write :: "string \<Rightarrow> bytes \<Rightarrow> 'w \<Rightarrow> 'w \<times> unit outcome"

record yaml_codec =
  y_marshal :: "config \<Rightarrow> bytes outcome"
  y_unmarshal :: "bytes \<Rightarrow> config \<Rightarrow> config outcome"

definition load_config :: "'w os_calls \<Rightarrow> yaml_codec \<Rightarrow> string \<Rightarrow> 'w \<Rightarrow> config outcome" where
  "load_config os y path w =
     bind_outcome (wrap_err ''failed to read config file: %w'' (os_read os path w)) (\<lambda>data.
       wrap_err ''failed to parse config file: %w'' (y_unmarshal y data default_config))"

definition save_config ::
  "'w os_calls \<Rightarrow> yaml_codec \<Rightarrow> config \<Rightarrow> string \<Rightarrow> 'w \<Rightarrow> 'w \<times> unit outcome" where
  "save_config os y c path w =
     (case os_mkdir os (path_dir path) w of
        (w1, Ok _) \<Rightarrow>
          (case y_marshal y c of
             Ok data \<Rightarrow>
               (case os_write os path data w1 of
                  (w2, r) \<Rightarrow> (w2, wrap_err ''failed to write config file: %w'' r))
           | Err e \<Rightarrow> (w1, Err (Errorf ''failed to marshal config: %w'' [FErr e]))
           | Panic p \<Rightarrow> (w1, Panic p)
           | Blocked \<Rightarrow> (w1, Blocked))
      | (w1, r) \<Rightarrow> (w1, wrap_err ''failed to create config directory: %w'' r))"

definition config_validate :: "config \<Rightarrow> unit outcome" where
  "config_validate c =
     (if cs_validator_count (cf_server c) < 1
      then Err (Errorf ''validator count must be at least 1'' [])
      else if cn_max_peers (cf_network c) < 1
      then Err (Errorf ''max peers must be at least 1'' [])
      else if cn_dial_timeout (cf_network c) < 1 * second
      then Err (Errorf ''dial timeout must be at least 1 second'' [])
      else if cy_tls_enabled (cf_security c)
      then (if cy_tls_cert_file (cf_security c) = []
            then Err (Errorf ''TLS cert file required when TLS is enabled'' [])
            else if cy_tls_key_file (cf_security c) = []
            then Err (Errorf ''TLS key file required when TLS is enabled'' [])
            else Ok ())
      else Ok ())"

section \<open>Starting the server\<close>

text \<open>
  \<open>main\<close> up to the wait for a signal. A \<open>Fatal\<close> log entry ends the process: it is an error value with
  the entry's message. \<open>generate\<close> is the answer of \<open>ed25519.GenerateKey\<close>, \<open>convert\<close> and \<open>p2p\<close> are
  those of the libraries \<open>NewServer\<close> calls, \<open>net\<close> is the p2p network it makes.
\<close>

definition private_key_of :: "'w os_calls \<Rightarrow> bytes outcome \<Rightarrow> config \<Rightarrow> 'w \<Rightarrow> bytes outcome" where
  "private_key_of os generate c w =
     (if cy_key_path (cf_security c) \<noteq> []
      then (case os_read os (cy_key_path (cf_security c)) w of
              Err e \<Rightarrow> Err (Errorf ''Failed to read private key'' [FStr (cy_key_path (cf_security c)), FErr e])
            | r \<Rightarrow> r)
      else wrap_err ''Failed to generate private key'' generate)"

definition first_region :: "config \<Rightarrow> string outcome" where
  "first_region c = (case cf_regions c of [] \<Rightarrow> Panic IndexOutOfRange | g # _ \<Rightarrow> Ok (cr_id g))"

definition startup ::
  "'w os_calls \<Rightarrow> yaml_codec \<Rightarrow> bytes outcome \<Rightarrow> unit outcome \<Rightarrow> unit outcome \<Rightarrow> p2p_iface \<Rightarrow> string
   \<Rightarrow> 'w \<Rightarrow> core_server outcome" where
  "startup os y generate convert p2p net path w =
     bind_outcome (wrap_err ''Failed to load config'' (load_config os y path w)) (\<lambda>c.
     bind_outcome (private_key_of os generate c w) (\<lambda>priv.
     bind_outcome (first_region c) (\<lambda>g.
     bind_outcome (wrap_err ''Failed to create server'' (new_server convert p2p (cs_id (cf_server c)) g priv)) (\<lambda>s.
     bind_outcome (wrap_err ''Failed to start server'' (server_start net)) (\<lambda>_. Ok s)))))"

text \<open>After the signal: the server is stopped, an error only logged.\<close>

definition main_end :: "p2p_iface \<Rightarrow> unit outcome \<times> goerr list" where
  "main_end net = (case server_stop net of Err e \<Rightarrow> (Ok (), [e]) | r \<Rightarrow> (r, []))"

section \<open>Laws of the parameters\<close>

text \<open>A successful write can be read back; decoding what was encoded gives it back, onto any base.\<close>

definition os_spec :: "'w os_calls \<Rightarrow> bool" where
  "os_spec os \<longleftrightarrow> (\<forall>p d w w'. os_write os p d w = (w', Ok ()) \<longrightarrow> os_read os p w' = Ok d)"

definition yaml_spec :: "yaml_codec \<Rightarrow> bool" where
  "yaml_spec y \<longleftrightarrow> (\<forall>c d base. y_marshal y c = Ok d \<longrightarrow> y_unmarshal y d base = Ok c)"

section \<open>Lemmas\<close>

lemma save_config_OkD:
  assumes "save_config os y c path w = (w', Ok u)"
  obtains w1 d where "os_mkdir os (path_dir path) w = (w1, Ok ())" "y_marshal y c = Ok d"
    "os_write os path d w1 = (w', Ok ())"
  using assms by (auto simp: save_config_def split: prod.splits outcome.splits)

lemma load_after_save:
  assumes "os_spec os" and "yaml_spec y" and "save_config os y c path w = (w', Ok u)"
  shows "load_config os y path w' = Ok c"
  using assms(3)
proof (rule save_config_OkD)
  fix w1 d
  assume "y_marshal y c = Ok d" and "os_write os path d w1 = (w', Ok ())"
  then have "os_read os path w' = Ok d" and "y_unmarshal y d default_config = Ok c"
    using assms(1,2) unfolding os_spec_def yaml_spec_def by blast+
  then show ?thesis by (simp add: load_config_def)
qed

lemma startup_loaded:
  "load_config os y path w = Ok c \<Longrightarrow>
   startup os y generate convert p2p net path w =
     bind_outcome (private_key_of os generate c w) (\<lambda>priv.
       case cf_regions c of
         [] \<Rightarrow> Panic IndexOutOfRange
       | g # _ \<Rightarrow> bind_outcome (wrap_err ''Failed to create server''
                    (new_server convert p2p (cs_id (cf_server c)) (cr_id g) priv))
                  (\<lambda>s. bind_outcome (wrap_err ''Failed to start server'' (p2p_start net)) (\<lambda>_. Ok s)))"
  by (cases "private_key_of os generate c w"; cases "cf_regions c")
    (simp_all add: startup_def first_region_def server_start_def adapter_start_def)

lemma config_validate_Ok_iff:
  "config_validate c = Ok () \<longleftrightarrow>
     1 \<le> cs_validator_count (cf_server c) \<and> 1 \<le> cn_max_peers (cf_network c)
     \<and> second \<le> cn_dial_timeout (cf_network c)
     \<and> (cy_tls_enabled (cf_security c) \<longrightarrow>
          cy_tls_cert_file (cf_security c) \<noteq> [] \<and> cy_tls_key_file (cf_security c) \<noteq> [])"
  by (auto simp: config_validate_def)

section \<open>Properties\<close>


text \<open>
  The default configuration passes \<open>Validate\<close>, but the program cannot start with it: it names
  no region, and \<open>main\<close> takes the first one without looking.
\<close>

lemma default_config_crashes:
  assumes "os_spec os" and "yaml_spec y" and "save_config os y default_config path w = (w', Ok u)"
    and "os_read os ''server.key'' w' = Ok priv"
  shows "config_validate default_config = Ok ()
    \<and> startup os y generate convert p2p net path w' = Panic IndexOutOfRange"
proof -
  have "private_key_of os generate default_config w' = Ok priv"
    using assms(4) by (simp add: private_key_of_def default_config_def)
  then have "startup os y generate convert p2p net path w' = Panic IndexOutOfRange"
    unfolding startup_loaded [OF load_after_save [OF assms(1-3)]] by (simp add: default_config_def)
  then show ?thesis by (simp add: config_validate_Ok_iff default_config_def second_def)
qed

section \<open>Witnesses\<close>

text \<open>A file system that maps paths to bytes, and a codec that knows two configurations.\<close>

definition map_os :: "(string, bytes) gomap os_calls" where
  "map_os =
     \<lparr>os_read = (\<lambda>p w. case map_of w p of Some d \<Rightarrow> Ok d | None \<Rightarrow> Err (ErrForeign ''no such file'')),
      os_mkdir = (\<lambda>p w. (w, Ok ())), os_write = (\<lambda>p d w. (map_put p d w, Ok ()))\<rparr>"

definition demo_config :: config where
  "demo_config = default_config\<lparr>cf_regions :=
     [\<lparr>cr_id = ''eu'', cr_name = [], cr_description = [], cr_peers = []\<rparr>]\<rparr>"

definition demo_yaml :: yaml_codec where
  "demo_yaml =
     \<lparr>y_marshal = (\<lambda>c. if c = demo_config then Ok [1] else if c = default_config then Ok [2]
        else Err (ErrForeign ''yaml'')),
      y_unmarshal = (\<lambda>d base. if d = [1] then Ok demo_config else if d = [2] then Ok default_config
        else Err (ErrForeign ''yaml''))\<rparr>"

definition demo_disk :: "(string, bytes) gomap" where
  "demo_disk = [(''server.key'', replicate 64 7)]"

lemma demo_laws: "os_spec map_os" "yaml_spec demo_yaml"
  by (auto simp: os_spec_def map_os_def yaml_spec_def demo_yaml_def update_conv' split: if_splits)

lemma demo_save:
  "save_config map_os demo_yaml demo_config ''c.yaml'' demo_disk
     = (map_put ''c.yaml'' [1] demo_disk, Ok ())"
  "save_config map_os demo_yaml default_config ''c.yaml'' demo_disk
     = (map_put ''c.yaml'' [2] demo_disk, Ok ())"
  by (simp_all add: save_config_def map_os_def demo_yaml_def demo_config_def default_config_def)

lemma demo_key:
  "os_read map_os ''server.key'' (map_put ''c.yaml'' d demo_disk) = Ok (replicate 64 7)"
  by (simp add: map_os_def demo_disk_def)


lemma default_config_crashes_witness:
  "startup map_os demo_yaml (Ok []) (Ok ()) (Ok ())
      \<lparr>p2p_start = Ok (), p2p_stop = Ok (), p2p_broadcast = (\<lambda>_ _. Ok ()), p2p_send = (\<lambda>_ _ _. Ok ())\<rparr>
      ''c.yaml'' (map_put ''c.yaml'' [2] demo_disk) = Panic IndexOutOfRange"
  using default_config_crashes [OF demo_laws demo_save(2) demo_key] by blast

end
