(* ===== verification/Api.thy ===== *)
theory Api
  imports Service Metrics
begin

text \<open>
  \<open>api/rest/server.go\<close> and \<open>api/grpc/server.go\<close>: the two front ends over one timestamp service. The
  service is an interface in the source: a record of its methods on a state of its own. The request
  decoder and the router (\<open>gorilla/mux\<close>) are parameters. A reply is its status and the value that
  is encoded as JSON; \<open>Encode\<close> cannot fail on these types.
\<close>

section \<open>The service interface\<close>

record signature_info =
  si_validator :: string
  si_bytes :: bytes
  si_region :: string

record rest_validator =
  rv_id :: string
  rv_region :: string
  rv_status :: string

record rest_status =
  rs_status :: string
  rs_region :: string
  rs_peer_count :: "32 word"
  rs_latest_round :: "64 word"

record 's api_service =
  as_get :: "'s \<Rightarrow> 's \<times> (int \<times> signature_info list \<times> string) outcome"
  as_verify :: "int \<Rightarrow> signature_info list \<Rightarrow> 's \<Rightarrow> 's \<times> (bool \<times> string) outcome"
  as_validators :: "'s \<Rightarrow> 's \<times> rest_validator list outcome"
  as_status :: "'s \<Rightarrow> 's \<times> rest_status option outcome"

section \<open>REST\<close>

datatype rest_value =
    TimestampJson int "signature_info list" string
  | VerifyJson bool string
  | ValidatorsJson "rest_validator list"
  | StatusJson "rest_status option"

datatype http_reply = Json rest_value | HttpError nat goerr | Unrouted nat

fun http_status :: "http_reply \<Rightarrow> nat" where
  "http_status (Json v) = 200"
| "http_status (HttpError n e) = n"
| "http_status (Unrouted n) = n"

record http_request =
  hr_method :: string
  hr_path :: string
  hr_body :: bytes

text \<open>The end of every handler: an error of the service becomes status 500, a value is encoded.\<close>

fun answer :: "('a \<Rightarrow> rest_value) \<Rightarrow> 's \<times> 'a outcome \<Rightarrow> 's \<times> http_reply outcome" where
  "answer f (s, Ok x) = (s, Ok (Json (f x)))"
| "answer f (s, Err e) = (s, Ok (HttpError 500 e))"
| "answer f (s, Panic p) = (s, Panic p)"
| "answer f (s, Blocked) = (s, Blocked)"

definition handle_get_timestamp :: "'s api_service \<Rightarrow> 's \<Rightarrow> 's \<times> http_reply outcome" where
  "handle_get_timestamp svc s = answer (\<lambda>(t, sigs, g). TimestampJson t sigs g) (as_get svc s)"

definition handle_verify_timestamp ::
  "(bytes \<Rightarrow> (int \<times> signature_info list) outcome) \<Rightarrow> 's api_service \<Rightarrow> bytes \<Rightarrow> 's
   \<Rightarrow> 's \<times> http_reply outcome" where
  "handle_verify_timestamp dec svc body s =
     (case dec body of
        Ok (t, sigs) \<Rightarrow> answer (\<lambda>(valid, msg). VerifyJson valid msg) (as_verify svc t sigs s)
      | Err e \<Rightarrow> (s, Ok (HttpError 400 e))
      | Panic p \<Rightarrow> (s, Panic p)
      | Blocked \<Rightarrow> (s, Blocked))"

definition handle_get_validators :: "'s api_service \<Rightarrow> 's \<Rightarrow> 's \<times> http_reply outcome" where
  "handle_get_validators svc s = answer ValidatorsJson (as_validators svc s)"

definition handle_get_status :: "'s api_service \<Rightarrow> 's \<Rightarrow> 's \<times> http_reply outcome" where
  "handle_get_status svc s = answer StatusJson (as_status svc s)"

text \<open>The metrics are recorded after the handler has returned; a panic passes them by.\<close>

definition metrics_middleware ::
  "string \<Rightarrow> 's \<times> http_reply outcome \<Rightarrow> 's \<times> http_reply outcome \<times> metric_call list" where
  "metrics_middleware path res =
     (case res of
        (s, Ok r) \<Rightarrow> (s, Ok r, [RecordAPILatency path, RecordAPIRequest path])
      | (s, r) \<Rightarrow> (s, r, []))"

datatype endpoint = EpTimestamp | EpVerify | EpValidators | EpStatus

text \<open>The route table: path, method, the path the middleware records, the handler.\<close>

definition rest_routes :: "(string \<times> string \<times> string \<times> endpoint) list" where
  "rest_routes =
     [(''/v1/timestamp'', ''POST'', ''/v1/timestamp'', EpTimestamp),
      (''/v1/timestamp/verify'', ''POST'', ''/v1/timestamp/verify'', EpVerify),
      (''/v1/validators'', ''GET'', ''/v1/validators'', EpValidators),
      (''/v1/status'', ''GET'', ''/v1/status'', EpStatus)]"

fun run_endpoint ::
  "(bytes \<Rightarrow> (int \<times> signature_info list) outcome) \<Rightarrow> 's api_service \<Rightarrow> bytes \<Rightarrow> endpoint \<Rightarrow> 's
   \<Rightarrow> 's \<times> http_reply outcome" where
  "run_endpoint dec svc body EpTimestamp s = handle_get_timestamp svc s"
| "run_endpoint dec svc body EpVerify s = handle_verify_timestamp dec svc body s"
| "run_endpoint dec svc body EpValidators s = handle_get_validators svc s"
| "run_endpoint dec svc body EpStatus s = handle_get_status svc s"

text \<open>The server: the routes its router was told, and the service.\<close>

record 's rest_server =
  rt_routes :: "(string \<times> string \<times> string \<times> endpoint) list"
  rt_service :: "'s api_service"

definition new_rest_server :: "'s api_service \<Rightarrow> 's rest_server" where
  "new_rest_server svc = \<lparr>rt_routes = rest_routes, rt_service = svc\<rparr>"

text \<open>
  \<open>mx\<close> is the router: of a route table and a request it gives the handler, or the status it answers
  itself.
\<close>

type_synonym 'h router = "(string \<times> string \<times> 'h) list \<Rightarrow> http_request \<Rightarrow> 'h + nat"

definition rest_serve ::
  "(string \<times> endpoint) router \<Rightarrow> (bytes \<Rightarrow> (int \<times> signature_info list) outcome) \<Rightarrow> 's rest_server
   \<Rightarrow> http_request \<Rightarrow> 's \<Rightarrow> 's \<times> http_reply outcome \<times> metric_call list" where
  "rest_serve mx dec srv req s =
     (case mx (rt_routes srv) req of
        Inr n \<Rightarrow> (s, Ok (Unrouted n), [])
      | Inl (path, e) \<Rightarrow> metrics_middleware path (run_endpoint dec (rt_service srv) (hr_body req) e s))"

text \<open>A sequence of requests: the replies and all calls of the metrics.\<close>

fun rest_run ::
  "(string \<times> endpoint) router \<Rightarrow> (bytes \<Rightarrow> (int \<times> signature_info list) outcome) \<Rightarrow> 's rest_server
   \<Rightarrow> http_request list \<Rightarrow> 's \<Rightarrow> http_reply outcome list \<times> metric_call list" where
  "rest_run mx dec srv [] s = ([], [])"
| "rest_run mx dec srv (req # reqs) s =
     (case rest_serve mx dec srv req s of
        (s', r, ms) \<Rightarrow> (case rest_run mx dec srv reqs s' of (rs, ms') \<Rightarrow> (r # rs, ms @ ms')))"

section \<open>gRPC\<close>

record 's grpc_server =
  gs_service :: "'s api_service"


text \<open>\<open>status.Error(codes.Internal, err.Error())\<close>.\<close>

definition internal_error :: "'a outcome \<Rightarrow> 'a outcome" where
  "internal_error r = wrap_err ''rpc error: code = Internal desc = %s'' r"



definition grpc_api_validators :: "'s grpc_server \<Rightarrow> 's \<Rightarrow> 's \<times> pb_validator_info list outcome" where
  "grpc_api_validators srv s =
     (case as_validators (gs_service srv) s of
        (s', r) \<Rightarrow> (s', bind_outcome (internal_error r) (\<lambda>vs.
           Ok (map (\<lambda>v. \<lparr>pi_id = rv_id v, pi_region = rv_region v, pi_status = rv_status v\<rparr>) vs))))"

definition grpc_api_status :: "'s grpc_server \<Rightarrow> 's \<Rightarrow> 's \<times> pb_status_response outcome" where
  "grpc_api_status srv s =
     (case as_status (gs_service srv) s of
        (s', r) \<Rightarrow> (s', bind_outcome (internal_error r) (\<lambda>st.
           case st of
             None \<Rightarrow> Panic NilDereference
           | Some n \<Rightarrow> Ok \<lparr>ps_status = rs_status n, ps_region = rs_region n,
                           ps_peer_count = sint (rs_peer_count n),
                           ps_latest_round = sint (rs_latest_round n)\<rparr>)))"

section \<open>What is assumed of the router\<close>

text \<open>A handler is chosen by path and method; another method gives 405, another path no handler.\<close>

definition mux_spec :: "(string \<times> endpoint) router \<Rightarrow> bool" where
  "mux_spec mx \<longleftrightarrow>
     (\<forall>req. case List.find (\<lambda>(p, m, h). p = hr_path req \<and> m = hr_method req) rest_routes of
        Some (p, m, h) \<Rightarrow> mx rest_routes req = Inl h
      | None \<Rightarrow> (\<exists>n. n \<noteq> 200 \<and> mx rest_routes req = Inr n
                   \<and> (hr_path req \<in> fst ` set rest_routes \<longrightarrow> n = 405)))"

section \<open>Lemmas\<close>

lemma answer_cases:
  "(\<exists>s x. res = (s, Ok x) \<and> answer f res = (s, Ok (Json (f x))))
   \<or> (\<exists>s e. res = (s, Err e) \<and> answer f res = (s, Ok (HttpError 500 e)))
   \<or> (\<exists>s p. res = (s, Panic p) \<and> answer f res = (s, Panic p))
   \<or> (\<exists>s. res = (s, Blocked) \<and> answer f res = (s, Blocked))"
  by (cases res; cases "snd res") auto

lemma answer_fst [simp]: "fst (answer f res) = fst res"
  by (cases res; cases "snd res") auto

lemma answer_routed [simp]: "snd (answer f res) \<noteq> Ok (Unrouted n)"
  by (cases res; cases "snd res") auto

lemma run_endpoint_routed: "snd (run_endpoint dec svc body e s) \<noteq> Ok (Unrouted n)"
  by (cases e)
    (auto simp: handle_get_timestamp_def handle_verify_timestamp_def handle_get_validators_def
      handle_get_status_def split: outcome.split)

lemma api_counts:
  "sample_count (record_all cs r) ''timeserver_api_requests_total'' [p]
     = sample_count r ''timeserver_api_requests_total'' [p] + count_list cs (RecordAPIRequest p)"
  "sample_count (record_all cs r) ''timeserver_api_latency_seconds'' [p]
     = sample_count r ''timeserver_api_latency_seconds'' [p] + count_list cs (RecordAPILatency p)"
proof (induction cs arbitrary: r)
  case (Cons a cs)
  { case 1 show ?case using Cons.IH(1) by (cases a) (auto simp: record_all_def) }
  { case 2 show ?case using Cons.IH(2) by (cases a) (auto simp: record_all_def) }
qed (simp_all add: record_all_def)

text \<open>A request that a handler answered under the path \<open>p\<close>.\<close>

fun served :: "string \<Rightarrow> http_request \<Rightarrow> http_reply outcome \<Rightarrow> bool" where
  "served p req (Ok (Unrouted n)) = False"
| "served p req (Ok r) = (hr_path req = p)"
| "served p req _ = False"

lemma served_Ok: "(\<forall>n. r \<noteq> Unrouted n) \<Longrightarrow> served p req (Ok r) = (hr_path req = p)"
  by (cases r) auto

lemma routes_record_their_path:
  "(p, m, path, e) \<in> set rest_routes \<Longrightarrow> path = p"
  by (auto simp: rest_routes_def)

lemma mux_cases:
  assumes "mux_spec mx"
  obtains (unrouted) n where "mx rest_routes req = Inr n"
  | (routed) m path e where "(hr_path req, m, path, e) \<in> set rest_routes" "m = hr_method req"
      "mx rest_routes req = Inl (path, e)"
proof (cases "List.find (\<lambda>(p, m, h). p = hr_path req \<and> m = hr_method req) rest_routes")
  case None
  then show ?thesis using assms [unfolded mux_spec_def, THEN spec, of req] unrouted by auto
next
  case (Some t)
  obtain p m path e where t: "t = (p, m, path, e)" by (cases t) auto
  have "t \<in> set rest_routes" and pm: "p = hr_path req" "m = hr_method req"
    using Some by (auto simp: t find_Some_iff in_set_conv_nth)
  moreover have "mx rest_routes req = Inl (path, e)"
    using assms [unfolded mux_spec_def, THEN spec, of req] unfolding Some t by simp
  ultimately show ?thesis using routed [of "hr_method req" path e] by (simp add: t pm)
qed

lemma serve_metrics:
  assumes "mux_spec mx" and "rest_serve mx dec (new_rest_server svc) req s = (s', r, ms)"
  shows "count_list ms (RecordAPIRequest p) = (if served p req r then 1 else 0)"
    and "count_list ms (RecordAPILatency p) = (if served p req r then 1 else 0)"
proof -
  have "count_list ms (RecordAPIRequest p) = (if served p req r then 1 else 0)
      \<and> count_list ms (RecordAPILatency p) = (if served p req r then 1 else 0)"
    using assms(1)
  proof (cases rule: mux_cases [of mx req])
    case (unrouted n)
    then show ?thesis using assms(2) by (auto simp: rest_serve_def new_rest_server_def)
  next
    case (routed m path e)
    have path: "path = hr_path req" using routes_record_their_path routed(1) by blast
    obtain s1 x where x: "run_endpoint dec svc (hr_body req) e s = (s1, x)" by fastforce
    then have "x \<noteq> Ok (Unrouted n)" for n using run_endpoint_routed by (metis snd_conv)
    then show ?thesis
      using assms(2) routed(3) x path
      by (cases x) (auto simp: rest_serve_def new_rest_server_def metrics_middleware_def served_Ok)
  qed
  then show "count_list ms (RecordAPIRequest p) = (if served p req r then 1 else 0)"
    and "count_list ms (RecordAPILatency p) = (if served p req r then 1 else 0)" by simp_all
qed

lemma run_metrics:
  assumes "mux_spec mx" and "rest_run mx dec (new_rest_server svc) reqs s = (rs, ms)"
  shows "length rs = length reqs
    \<and> count_list ms (RecordAPIRequest p) = length (filter (\<lambda>(req, r). served p req r) (zip reqs rs))
    \<and> count_list ms (RecordAPILatency p) = length (filter (\<lambda>(req, r). served p req r) (zip reqs rs))"
  using assms(2)
proof (induction reqs arbitrary: s rs ms)
  case (Cons req reqs)
  obtain s1 r ms1 where one: "rest_serve mx dec (new_rest_server svc) req s = (s1, r, ms1)"
    by (cases "rest_serve mx dec (new_rest_server svc) req s") auto
  obtain rs2 ms2 where rest: "rest_run mx dec (new_rest_server svc) reqs s1 = (rs2, ms2)" by fastforce
  have "rs = r # rs2" "ms = ms1 @ ms2" using Cons.prems by (simp_all add: one rest)
  then show ?case
    using Cons.IH [OF rest] serve_metrics [OF assms(1) one, of p] by (simp add: count_list_append)
qed simp

section \<open>Properties\<close>





text \<open>
  C34. The API metrics count what was served: after any sequence of requests to the REST server, the
  number of requests and the number of latency observations recorded for a path are both the number
  of requests with that path that a handler answered. Requests the router turned away and handlers
  that panicked leave no trace.
\<close>

theorem rest_requests_counted:
  assumes "mux_spec mx" and "rest_run mx dec (new_rest_server svc) reqs s = (rs, ms)"
  shows "sample_count (record_all ms empty_registry) ''timeserver_api_requests_total'' [p]
      = length (filter (\<lambda>(req, r). served p req r) (zip reqs rs))
    \<and> sample_count (record_all ms empty_registry) ''timeserver_api_latency_seconds'' [p]
      = length (filter (\<lambda>(req, r). served p req r) (zip reqs rs))
    \<and> length rs = length reqs"
  using run_metrics [OF assms] by (simp add: api_counts)

section \<open>Witnesses\<close>

definition demo_mux :: "(string \<times> endpoint) router" where
  "demo_mux rs req =
     (case List.find (\<lambda>(p, m, h). p = hr_path req \<and> m = hr_method req) rs of
        Some (p, m, h) \<Rightarrow> Inl h
      | None \<Rightarrow> Inr (if hr_path req \<in> fst ` set rs then 405 else 404))"

lemma demo_mux_spec: "mux_spec demo_mux"
  by (auto simp: mux_spec_def demo_mux_def split: option.split)

text \<open>A service that signs for a region and verifies a signature only with its region.\<close>

definition demo_service :: "nat api_service" where
  "demo_service =
     \<lparr>as_get = (\<lambda>n. (Suc n, Ok (int n, [\<lparr>si_validator = ''v'', si_bytes = [1], si_region = ''eu''\<rparr>], ''eu''))),
      as_verify = (\<lambda>t sigs n. (Suc n, Ok (list_all (\<lambda>x. si_region x = ''eu'') sigs, []))),
      as_validators = (\<lambda>n. (Suc n, Err ErrRequestTimeout)), as_status = (\<lambda>n. (Suc n, Ok None))\<rparr>"


theorem rest_requests_counted_witness:
  "sample_count (record_all (snd (rest_run demo_mux (\<lambda>_. Err ErrRequestTimeout) (new_rest_server demo_service)
      [\<lparr>hr_method = ''POST'', hr_path = ''/v1/timestamp'', hr_body = []\<rparr>,
       \<lparr>hr_method = ''GET'', hr_path = ''/v1/timestamp'', hr_body = []\<rparr>] 0)) empty_registry)
     ''timeserver_api_requests_total'' [''/v1/timestamp''] = 1"
proof -
  let ?reqs = "[\<lparr>hr_method = ''POST'', hr_path = ''/v1/timestamp'', hr_body = []\<rparr>,
    \<lparr>hr_method = ''GET'', hr_path = ''/v1/timestamp'', hr_body = []\<rparr>]"
  obtain rs ms where run: "rest_run demo_mux (\<lambda>_. Err ErrRequestTimeout) (new_rest_server demo_service) ?reqs 0 = (rs, ms)"
    by fastforce
  then have "\<exists>v. rs = [Ok (Json v), Ok (Unrouted 405)]"
    by (auto simp: rest_serve_def new_rest_server_def demo_mux_def rest_routes_def metrics_middleware_def
        handle_get_timestamp_def demo_service_def)
  then show ?thesis
    unfolding run using rest_requests_counted [OF demo_mux_spec run, of "''/v1/timestamp''"] by auto
qed

end
