(* ===== verification/MockPath.thy ===== *)
theory MockPath
  imports FastPath "HOL-Library.Sublist"
begin

text \<open>
  The simulated fast paths: \<open>MockNetwork\<close> and \<open>MockFastPath\<close> of \<open>core/consensus/test_utils.go\<close>, and
  \<open>core/service/mock_fast_path.go\<close>. The goroutines of the simulated servers write to the timestamp
  that the main goroutine returns: it is shared, so its time (\<open>mp_time\<close>) is part of the state, also
  after the return. The simulated network does not change during a call; how long a delay takes and
  when the context expires is the nondeterminism of the step relation.
\<close>

section \<open>The simulated network\<close>

record sim_network =
  sn_delays :: "(string, duration) gomap"
  sn_failures :: "(string, bool) gomap"
  sn_offsets :: "(string, duration) gomap"
  sn_fixed :: "(string, gotime) gomap"

definition new_sim_network :: sim_network where
  "new_sim_network = \<lparr>sn_delays = [], sn_failures = [], sn_offsets = [], sn_fixed = []\<rparr>"

definition set_delay :: "string \<Rightarrow> duration \<Rightarrow> sim_network \<Rightarrow> sim_network" where
  "set_delay i d n = n\<lparr>sn_delays := map_put i d (sn_delays n)\<rparr>"

definition set_failure :: "string \<Rightarrow> bool \<Rightarrow> sim_network \<Rightarrow> sim_network" where
  "set_failure i b n = n\<lparr>sn_failures := map_put i b (sn_failures n)\<rparr>"

definition set_offset :: "string \<Rightarrow> duration \<Rightarrow> sim_network \<Rightarrow> sim_network" where
  "set_offset i d n = n\<lparr>sn_offsets := map_put i d (sn_offsets n)\<rparr>"

definition set_fixed :: "string \<Rightarrow> gotime \<Rightarrow> sim_network \<Rightarrow> sim_network" where
  "set_fixed i t n = n\<lparr>sn_fixed := map_put i t (sn_fixed n)\<rparr>"

text \<open>Reading a map whose key may be missing gives the zero value.\<close>

definition delay_of :: "sim_network \<Rightarrow> string \<Rightarrow> duration" where
  "delay_of n i = (case map_of (sn_delays n) i of Some d \<Rightarrow> d | None \<Rightarrow> 0)"

definition fails_at :: "sim_network \<Rightarrow> string \<Rightarrow> bool" where
  "fails_at n i = (case map_of (sn_failures n) i of Some b \<Rightarrow> b | None \<Rightarrow> False)"

definition offset_of :: "sim_network \<Rightarrow> string \<Rightarrow> duration" where
  "offset_of n i = (case map_of (sn_offsets n) i of Some d \<Rightarrow> d | None \<Rightarrow> 0)"

text \<open>What \<open>requestSignature\<close> writes to the shared timestamp, and the signature it returns.\<close>

definition adjust_time :: "sim_network \<Rightarrow> string \<Rightarrow> gotime \<Rightarrow> gotime" where
  "adjust_time n i t =
     (case map_of (sn_fixed n) i of
        Some f \<Rightarrow> f
      | None \<Rightarrow> if offset_of n i \<noteq> 0 then time_add t (offset_of n i) else t)"

definition sim_signature :: "string \<Rightarrow> bytes" where
  "sim_signature i = bytes_of (''sig-from-'' @ i)"

text \<open>The server's own time, sent with the signature.\<close>

definition server_time :: "sim_network \<Rightarrow> gotime \<Rightarrow> string \<Rightarrow> gotime" where
  "server_time n now i =
     (case map_of (sn_fixed n) i of
        Some f \<Rightarrow> f
      | None \<Rightarrow> (case map_of (sn_offsets n) i of Some d \<Rightarrow> time_add now d | None \<Rightarrow> now))"

section \<open>Errors on the error channel\<close>

datatype sim_error =
    ServerFailed string string
  | FutureTime string gotime
  | DriftBetween string string duration

text \<open>
  The part of the text that \<open>strings.Contains(err.Error(), "timestamp")\<close> can find: ids are part of it,
  the formatted times and durations at the end contain no letters of the word in sequence.
\<close>

fun error_text :: "sim_error \<Rightarrow> string" where
  "error_text (ServerFailed i reason) = ''server '' @ i @ '' failed: '' @ reason"
| "error_text (FutureTime i t) = ''server '' @ i @ '' timestamp is in the future: ''"
| "error_text (DriftBetween i j d) =
     ''timestamp drift between '' @ i @ '' and '' @ j @ '' exceeds MaxDrift: ''"

definition about_timestamp :: "sim_error \<Rightarrow> bool" where
  "about_timestamp e \<longleftrightarrow> sublist ''timestamp'' (error_text e)"

fun goerr_of :: "sim_error \<Rightarrow> goerr" where
  "goerr_of (ServerFailed i reason) = Errorf ''server %s failed: %v'' [FStr i, FErr (ErrForeign reason)]"
| "goerr_of (FutureTime i t) = Errorf ''server %s timestamp is in the future: %v'' [FStr i, FInt (nanos t)]"
| "goerr_of (DriftBetween i j d) =
     Errorf ''timestamp drift between %s and %s exceeds MaxDrift: %v'' [FStr i, FStr j, FInt d]"

section \<open>One turn of the loop\<close>

text \<open>
  A turn puts errors on the error channel and then goes on with the loop, or returns the signature
  after writing the shared time, or returns an error.
\<close>

datatype mp_turn =
    MNext "sim_error list" collect
  | MDone "sim_error list" "gotime option" "bytes outcome"

definition future_time :: "fast_path \<Rightarrow> gotime \<Rightarrow> gotime \<Rightarrow> bool" where
  "future_time fp now t \<longleftrightarrow> time_add now (max_drift (fp_cfg fp)) < t"

text \<open>The drift errors of a response: the inner \<open>continue\<close> only goes on to the next entry.\<close>

definition drift_errors ::
  "fast_path \<Rightarrow> string \<Rightarrow> gotime \<Rightarrow> (string \<times> gotime) list \<Rightarrow> sim_error list" where
  "drift_errors fp i t es =
     map (\<lambda>(j, u). DriftBetween i j (time_sub t u)) (filter (\<lambda>(j, u). drift_exceeds (fp_cfg fp) t u) es)"

definition mp_collect ::
  "ed25519 \<Rightarrow> fast_path \<Rightarrow> gotime \<Rightarrow> (string list \<Rightarrow> string list) \<Rightarrow> (string list \<Rightarrow> string list)
   \<Rightarrow> (string list \<Rightarrow> string list) \<Rightarrow> (string list \<Rightarrow> string list)
   \<Rightarrow> collect \<Rightarrow> string \<times> bytes \<times> gotime \<Rightarrow> mp_turn" where
  "mp_collect ed fp now od om o1 o2 c resp =
     (case resp of (server, sig, t) \<Rightarrow>
      if future_time fp now t
      then MNext [FutureTime server t] (c\<lparr>c_remaining := c_remaining c - 1\<rparr>)
      else let es = drift_errors fp server t (go_range od (c_times c));
               c' = c\<lparr>c_sigs := map_put server sig (c_sigs c),
                      c_times := map_put server t (c_times c),
                      c_valid := c_valid c + 1,
                      c_remaining := c_remaining c - int (length es) - 1\<rparr>
           in if min_signatures (fp_cfg fp) \<le> c_valid c'
              then (case fp_threshold fp of
                      None \<Rightarrow> MDone es (Some (median_time om (c_times c'))) (Panic NilDereference)
                    | Some th \<Rightarrow>
                        MDone es (Some (median_time om (c_times c')))
                          (wrap_err ''fast path: failed to aggregate signatures: %v''
                            (aggregate ed th o1 o2 (c_sigs c'))))
              else if c_valid c' + c_remaining c' < min_signatures (fp_cfg fp)
              then MDone es None (Err not_enough) else MNext es c')"

definition mp_error :: "fast_path \<Rightarrow> collect \<Rightarrow> sim_error \<Rightarrow> mp_turn" where
  "mp_error fp c e =
     (if about_timestamp e then MDone [] None (Err (goerr_of e))
      else let c' = c\<lparr>c_remaining := c_remaining c - 1\<rparr>
           in if c_valid c' + c_remaining c' < min_signatures (fp_cfg fp)
              then MDone [] None (Err not_enough) else MNext [] c')"

text \<open>
  \<open>MockFastPath\<close>: the configuration, keys and servers as in the fast path, and the simulated
  network. Its mutex is held for a whole call, of which the step relation below runs one.
\<close>

record mock_fast_path =
  mf_path :: fast_path
  mf_network :: sim_network

definition new_mock_fast_path ::
  "fp_config \<Rightarrow> threshold_sig option \<Rightarrow> string list \<Rightarrow> sim_network \<Rightarrow> mock_fast_path" where
  "new_mock_fast_path cfg th servers n = \<lparr>mf_path = new_fast_path cfg th servers, mf_network = n\<rparr>"

section \<open>The goroutines\<close>

datatype mp_main = MRunning collect | MHung | MReturned "bytes outcome"

record mp_sys =
  mp_waiting :: "string list"
  mp_ready :: "string list"
  mp_failed :: "sim_error list"
  mp_sigq :: "(string \<times> bytes \<times> gotime) list"
  mp_errq :: "sim_error list"
  mp_expired :: bool
  mp_time :: gotime
  mp_main :: mp_main

definition mp_init :: "fast_path \<Rightarrow> gotime \<Rightarrow> mp_sys" where
  "mp_init fp now =
     \<lparr>mp_waiting = (if min_signatures (fp_cfg fp) < 0 then [] else fp_servers fp),
      mp_ready = [], mp_failed = [], mp_sigq = [], mp_errq = [], mp_expired = False, mp_time = now,
      mp_main = (if min_signatures (fp_cfg fp) < 0 then MReturned (Panic MakeChanNegative)
        else MRunning \<lparr>c_sigs = [], c_times = [], c_valid = 0,
                       c_remaining = int (length (fp_servers fp))\<rparr>)\<rparr>"

text \<open>The main goroutine hangs when the error channel has no room for its errors.\<close>

fun mp_turn_taken :: "fast_path \<Rightarrow> mp_turn \<Rightarrow> mp_sys \<Rightarrow> mp_sys" where
  "mp_turn_taken fp (MNext es c) s =
     (if length (mp_errq s) + length es \<le> err_capacity fp
      then s\<lparr>mp_errq := mp_errq s @ es, mp_main := MRunning c\<rparr>
      else s\<lparr>mp_errq := mp_errq s @ take (err_capacity fp - length (mp_errq s)) es, mp_main := MHung\<rparr>)"
| "mp_turn_taken fp (MDone es t r) s =
     (if length (mp_errq s) + length es \<le> err_capacity fp
      then s\<lparr>mp_errq := mp_errq s @ es, mp_main := MReturned r,
             mp_time := (case t of None \<Rightarrow> mp_time s | Some m \<Rightarrow> m)\<rparr>
      else s\<lparr>mp_errq := mp_errq s @ take (err_capacity fp - length (mp_errq s)) es, mp_main := MHung\<rparr>)"

definition cancelled :: "mp_sys \<Rightarrow> bool" where
  "cancelled s \<longleftrightarrow> mp_expired s \<or> (\<exists>r. mp_main s = MReturned r)"

text \<open>
  \<open>ask\<close> is the end of \<open>requestSignature\<close>: after the delay it writes the shared time. \<open>mp_ready\<close> are
  the goroutines that have a signature to send, \<open>mp_failed\<close> those that have an error to send.
\<close>

inductive mp_step ::
  "ed25519 \<Rightarrow> fast_path \<Rightarrow> sim_network \<Rightarrow> gotime \<Rightarrow> mp_sys \<Rightarrow> mp_sys \<Rightarrow> bool"
  for ed fp n now where
  ask: "mp_waiting s = xs @ i # ys \<Longrightarrow> \<not> fails_at n i \<Longrightarrow>
     mp_step ed fp n now s
       (s\<lparr>mp_waiting := xs @ ys, mp_ready := mp_ready s @ [i], mp_time := adjust_time n i (mp_time s)\<rparr>)"
| ask_fails: "mp_waiting s = xs @ i # ys \<Longrightarrow> fails_at n i \<Longrightarrow>
     mp_step ed fp n now s
       (s\<lparr>mp_waiting := xs @ ys,
          mp_failed := mp_failed s @ [ServerFailed i (''server '' @ i @ '' failed'')]\<rparr>)"
| ask_cancelled: "mp_waiting s = xs @ i # ys \<Longrightarrow> \<not> fails_at n i \<Longrightarrow> 0 < delay_of n i \<Longrightarrow> cancelled s \<Longrightarrow>
     mp_step ed fp n now s
       (s\<lparr>mp_waiting := xs @ ys,
          mp_failed := mp_failed s @ [ServerFailed i
            (if mp_expired s then ''context deadline exceeded'' else ''context canceled'')]\<rparr>)"
| send_sig: "mp_ready s = xs @ i # ys \<Longrightarrow> length (mp_sigq s) < sig_capacity fp \<Longrightarrow>
     mp_step ed fp n now s
       (s\<lparr>mp_ready := xs @ ys, mp_sigq := mp_sigq s @ [(i, sim_signature i, server_time n now i)]\<rparr>)"
| send_err: "mp_failed s = xs @ e # ys \<Longrightarrow> length (mp_errq s) < err_capacity fp \<Longrightarrow>
     mp_step ed fp n now s (s\<lparr>mp_failed := xs @ ys, mp_errq := mp_errq s @ [e]\<rparr>)"
| recv_sig: "mp_main s = MRunning c \<Longrightarrow> mp_sigq s = resp # q \<Longrightarrow>
     is_order od \<Longrightarrow> is_order om \<Longrightarrow> is_order o1 \<Longrightarrow> is_order o2 \<Longrightarrow>
     mp_step ed fp n now s
       (mp_turn_taken fp (mp_collect ed fp now od om o1 o2 c resp) (s\<lparr>mp_sigq := q\<rparr>))"
| recv_err: "mp_main s = MRunning c \<Longrightarrow> mp_errq s = e # q \<Longrightarrow>
     mp_step ed fp n now s (mp_turn_taken fp (mp_error fp c e) (s\<lparr>mp_errq := q\<rparr>))"
| expire: "\<forall>r. mp_main s \<noteq> MReturned r \<Longrightarrow> mp_step ed fp n now s (s\<lparr>mp_expired := True\<rparr>)"
| timeout: "mp_main s = MRunning c \<Longrightarrow> mp_expired s \<Longrightarrow>
     mp_step ed fp n now s
       (s\<lparr>mp_main := MReturned (Err (Errorf ''fast path: timeout waiting for signatures'' []))\<rparr>)"

inductive mp_steps ::
  "ed25519 \<Rightarrow> fast_path \<Rightarrow> sim_network \<Rightarrow> gotime \<Rightarrow> mp_sys \<Rightarrow> mp_sys \<Rightarrow> bool"
  for ed fp n now s where
  refl: "mp_steps ed fp n now s s"
| step: "mp_steps ed fp n now s t \<Longrightarrow> mp_step ed fp n now t u \<Longrightarrow> mp_steps ed fp n now s u"

section \<open>The handler of the service tests\<close>

record mock_handler =
  mh_timestamp :: "signed_timestamp option"
  mh_err :: "goerr option"

definition new_mock_handler :: "gotime \<Rightarrow> mock_handler" where
  "new_mock_handler now =
     \<lparr>mh_timestamp = Some \<lparr>st_time = now, st_server = ''mock-server'', st_region = ''mock-region'', st_sig = []\<rparr>,
      mh_err = None\<rparr>"

text \<open>Both results are returned, also when there is an error.\<close>

definition mh_get_timestamp :: "mock_handler \<Rightarrow> signed_timestamp option \<times> goerr option" where
  "mh_get_timestamp h = (mh_timestamp h, mh_err h)"

definition mh_set_timestamp :: "signed_timestamp option \<Rightarrow> mock_handler \<Rightarrow> mock_handler" where
  "mh_set_timestamp ts h = h\<lparr>mh_timestamp := ts\<rparr>"

definition mh_set_error :: "goerr option \<Rightarrow> mock_handler \<Rightarrow> mock_handler" where
  "mh_set_error e h = h\<lparr>mh_err := e\<rparr>"

section \<open>Lemmas\<close>

text \<open>
  The drift bound is not enforced: a response that is not ahead of the clock is stored, however far
  it lies from the times accepted before; what it leaves is one error for each of them.
\<close>

lemma drifting_response_accepted:
  assumes "\<not> future_time fp now t"
    and "mp_collect ed fp now od om o1 o2 c (server, sig, t) = MNext es c'"
  shows "map_of (c_times c') server = Some t \<and> map_of (c_sigs c') server = Some sig
    \<and> length es = length (filter (\<lambda>(j, u). drift_exceeds (fp_cfg fp) t u) (go_range od (c_times c)))"
  using assms
  by (auto simp: mp_collect_def Let_def drift_errors_def update_conv' split: if_splits option.splits)

lemma drift_is_about_timestamp: "about_timestamp (DriftBetween i j d)"
proof -
  have "error_text (DriftBetween i j d)
      = [] @ ''timestamp'' @ '' drift between '' @ i @ '' and '' @ j @ '' exceeds MaxDrift: ''"
    by simp
  then show ?thesis unfolding about_timestamp_def sublist_def by blast
qed

lemma mp_step_returned:
  assumes "mp_step ed fp n now s t" and "mp_main s = MReturned r"
    and "\<forall>i \<in> set (mp_waiting s). \<not> fails_at n i \<longrightarrow> adjust_time n i (mp_time s) = mp_time s"
  shows "mp_main t = MReturned r \<and> mp_time t = mp_time s \<and> set (mp_waiting t) \<subseteq> set (mp_waiting s)"
  using assms by cases auto

text \<open>
  The returned timestamp is shared with the goroutines of the servers: after the return it keeps its
  time exactly if none of the servers that have not answered yet would set another one.
\<close>

lemma mock_result_stable_iff:
  assumes "mp_main s = MReturned r"
  shows "(\<forall>t. mp_steps ed fp n now s t \<longrightarrow> mp_time t = mp_time s) \<longleftrightarrow>
    (\<forall>i \<in> set (mp_waiting s). \<not> fails_at n i \<longrightarrow> adjust_time n i (mp_time s) = mp_time s)"
proof
  assume stable: "\<forall>t. mp_steps ed fp n now s t \<longrightarrow> mp_time t = mp_time s"
  show "\<forall>i \<in> set (mp_waiting s). \<not> fails_at n i \<longrightarrow> adjust_time n i (mp_time s) = mp_time s"
  proof (intro ballI impI)
    fix i
    assume "i \<in> set (mp_waiting s)" and ok: "\<not> fails_at n i"
    then obtain xs ys where "mp_waiting s = xs @ i # ys" by (meson split_list)
    from mp_steps.step [OF mp_steps.refl mp_step.ask [OF this ok]] stable
    show "adjust_time n i (mp_time s) = mp_time s" by fastforce
  qed
next
  assume quiet: "\<forall>i \<in> set (mp_waiting s). \<not> fails_at n i \<longrightarrow> adjust_time n i (mp_time s) = mp_time s"
  have "mp_main t = MReturned r \<and> mp_time t = mp_time s \<and> set (mp_waiting t) \<subseteq> set (mp_waiting s)"
    if "mp_steps ed fp n now s t" for t
    using that
  proof (induction rule: mp_steps.induct)
    case (step t u)
    then have "mp_main t = MReturned r" and "mp_time t = mp_time s"
      and "\<forall>i \<in> set (mp_waiting t). \<not> fails_at n i \<longrightarrow> adjust_time n i (mp_time t) = mp_time t"
      using quiet by auto
    then show ?case using mp_step_returned [OF step(2)] step.IH by fastforce
  qed (use assms in simp)
  then show "\<forall>t. mp_steps ed fp n now s t \<longrightarrow> mp_time t = mp_time s" by blast
qed

end
