(* ===== verification/FastLive.thy ===== *)
theory FastLive
  imports FastPath
begin

text \<open>
  When the fast path of \<open>core/consensus/fastpath.go\<close> succeeds: the runs in which the context does not
  expire and every reply is read within \<open>MaxDrift\<close> of the start of the call. The servers are a
  parameter of \<open>fp_step\<close>; here some of them fail and the others answer with signatures that count.
\<close>

section \<open>Prompt runs\<close>





section \<open>The invariant\<close>














section \<open>Properties\<close>


section \<open>Witness\<close>





end
