(* ===== verification/NodeSystem.thy ===== *)
theory NodeSystem
  imports BigBFT
begin

text \<open>
  A consensus node as a whole: \<open>BigBFTConsensus\<close> of \<open>pbft.go\<close> with its own fast path of
  \<open>fastpath.go\<close>. In \<open>bb_step\<close> the answer of the fast path is arbitrary; here it is one that a run
  of the goroutines of the node's fast path ends with, so the two transition systems are composed.
\<close>

section \<open>The answer of a node's own fast path\<close>










section \<open>The node\<close>








section \<open>Property\<close>


section \<open>Witness\<close>



end
