(* ===== verification/Delivery.thy ===== *)
theory Delivery
  imports P2P Consensus Network
begin

text \<open>
  The consensus engine of \<open>core/consensus/consensus.go\<close> over the network adapter of
  \<open>core/network/adapters.go\<close> over the peer-to-peer network of \<open>core/p2p/network.go\<close>: what the
  engine asks of its network (\<open>net_call\<close>) is carried out on the node's network, and what is written
  there is delivered to the engines of the peers.
\<close>

section \<open>Model\<close>













section \<open>Lemmas\<close>











section \<open>Property\<close>


section \<open>Witness\<close>






end
