(* ===== verification/EndToEnd.thy ===== *)
theory EndToEnd
  imports Calls
begin

text \<open>
  From the client to the service: \<open>core/client/hft_client.go\<close> asking the servers of a network of
  \<open>core/network/mock_network.go\<close>, whose timestamps the service and the gRPC adapter of
  \<open>core/service\<close> check against the same network.
\<close>

section \<open>Where a result comes from\<close>











section \<open>The network's servers\<close>




section \<open>Property\<close>


section \<open>Witness\<close>








end
