(* ===== verification/ViewCluster.thy ===== *)
theory ViewCluster
  imports ViewChange Election
begin

text \<open>
  The validators together: every validator runs the view change of \<open>core/consensus/view.go\<close>, and what
  one broadcasts is delivered to the others, in any order and with any delay. The leader of the view
  they reach is elected by \<open>core/consensus/leader.go\<close>.
\<close>

section \<open>The cluster\<close>




definition to_others :: "string list \<Rightarrow> string \<Rightarrow> (string \<times> bytes) list \<Rightarrow> (string \<times> bytes) list" where
  "to_others V p out = concat (map (\<lambda>m. map (\<lambda>q. (q, snd m)) (filter (\<lambda>q. q \<noteq> p) V)) out)"


section \<open>The invariant\<close>






lemma to_others_one [simp]:
  "to_others V p [(proto, d)] = map (\<lambda>q. (q, d)) (filter (\<lambda>q. q \<noteq> p) V)"
  by (simp add: to_others_def)












section \<open>Property\<close>


section \<open>Witness\<close>




end
