(* ===== verification/ViewRounds.thy ===== *)
theory ViewRounds
  imports ViewCluster
begin

text \<open>
  View change after view change: the validators of \<open>ViewCluster\<close> run the view change of
  \<open>core/consensus/view.go\<close> again and again, from the moment \<open>NewViewChange\<close> has built them, and
  ask \<open>core/consensus/leader.go\<close> for the leader of each view they reach.
\<close>

section \<open>Rounds\<close>









section \<open>A round can always be finished\<close>





section \<open>Property\<close>


section \<open>Witness\<close>


end
