(* ===== verification/ClientHistory.thy ===== *)
theory ClientHistory
  imports Calls
begin

text \<open>
  The life of a client of \<open>core/client/hft_client.go\<close>: calls one after the other, between them the ticks
  of the clean-up goroutines of its two caches. What is shown is where the timestamps of batch calls
  come from, and that the statistics account for all that happened.
\<close>

section \<open>Histories\<close>

text \<open>
  \<open>op_get\<close>, \<open>op_since\<close> and \<open>op_set\<close> are the clock readings of a batch call, see \<open>batch_with\<close>.
\<close>

datatype 'f client_op =
    is_direct: DirectCall (op_world: "'f hft_world") (op_region: string) (op_answers: "answer list")
      (op_deadline: "nat option")
  | is_batch: BatchCall (op_world: "'f hft_world") (op_region: string) (op_answers: "answer list")
      (op_deadline: "nat option") (op_get: gotime) (op_since: gotime) (op_set: gotime) (op_key: string)
      (op_age: duration)
  | CleanVerify "string list \<Rightarrow> string list" gotime
  | CleanBatch "string list \<Rightarrow> string list" gotime

fun client_exec ::
  "'f client_op \<Rightarrow> 'f hft_client \<Rightarrow> 'f hft_client \<times> signed_timestamp option outcome" where
  "client_exec (DirectCall w region answers deadline) c = get_verified_timestamp w region answers deadline c"
| "client_exec (BatchCall w region answers deadline t1 t2 t3 key age) c =
     get_verified_for_batch w t1 t2 t3 key region age answers deadline c"
| "client_exec (CleanVerify ord t) c =
     (c\<lparr>hc_verify := map_option (vcache_tick ord t) (hc_verify c)\<rparr>, Ok None)"
| "client_exec (CleanBatch ord t) c =
     (c\<lparr>hc_batch := map_option (bcache_tick ord t) (hc_batch c)\<rparr>, Ok None)"

text \<open>A history of operations that returned, with their results, the latest first.\<close>

inductive client_history ::
  "'f hft_client \<Rightarrow> ('f client_op \<times> signed_timestamp option outcome) list \<Rightarrow> 'f hft_client \<Rightarrow> bool"
  for c0 where
  fresh: "client_history c0 [] c0"
| next_op: "client_history c0 h c \<Longrightarrow> client_exec p c = (c', r) \<Longrightarrow> returns r
    \<Longrightarrow> client_history c0 ((p, r) # h) c'"

section \<open>What one call leaves in the books\<close>

definition book :: "'f hft_client \<Rightarrow> int \<times> int \<times> int \<times> int" where
  "book c = (sx_requests (hc_stats c), sx_cache_hits (hc_stats c), sx_cache_misses (hc_stats c),
     sx_quorum_failures (hc_stats c) + sx_request_timeouts (hc_stats c))"

definition book_error :: "int \<times> int \<times> int \<times> int \<Rightarrow> int \<times> int \<times> int \<times> int" where
  "book_error b = (case b of (n, hits, misses, bad) \<Rightarrow> (n, hits, misses, bad + 1))"

definition book_request :: "int \<times> int \<times> int \<times> int \<Rightarrow> int \<times> int \<times> int \<times> int" where
  "book_request b = (case b of (n, hits, misses, bad) \<Rightarrow> (n + 1, hits, misses, bad))"

lemma book_notes [simp]:
  "book (note_timeout c) = book_error (book c)"
  "book (note_quorum_failure c) = book_error (book c)"
  "book (count_stat (\<lambda>s. s\<lparr>sx_requests := sx_requests s + 1\<rparr>) c) = book_request (book c)"
  "book (count_stat (\<lambda>s. s\<lparr>sx_verification_failures := sx_verification_failures s + 1\<rparr>) c) = book c"
  by (simp_all add: book_def book_error_def book_request_def note_timeout_def note_quorum_failure_def
      count_stat_def)

lemma verify_response_book [simp]: "book (fst (verify_response t1 t2 ots srv c)) = book c"
  by (simp add: verify_response_def book_def split: option.split outcome.split)

text \<open>What the best timestamp of a tally can be after an arrival.\<close>

lemma absorb_effect:
  assumes "absorb a c ty = (c', r)"
  shows "book c' = book c \<and> (\<forall>e. r \<noteq> Err e)
    \<and> (\<forall>ty'. r = Ok ty' \<longrightarrow> tl_best ty' = tl_best ty \<or> hr_err (fst a) = None \<and> tl_best ty' = arrival_ts a)"
proof (cases a)
  case (fields resp t1 t2)
  obtain c1 v where v: "verify_response t1 t2 (hr_ts resp) (hr_server resp) c = (c1, v)" by fastforce
  then have "book c1 = book c" using verify_response_book [of t1 t2 "hr_ts resp" "hr_server resp" c] by simp
  then show ?thesis
    using assms fields v
    by (cases v) (auto simp: tally_add_def arrival_ts_def split: if_splits option.splits)
qed

definition came_in :: "arrival list \<Rightarrow> signed_timestamp option \<Rightarrow> bool" where
  "came_in as best \<longleftrightarrow> best = None \<or> (\<exists>a \<in> set as. hr_err (fst a) = None \<and> best = arrival_ts a)"

lemma came_in_mono: "came_in as b \<Longrightarrow> set as \<subseteq> set bs \<Longrightarrow> came_in bs b"
  by (auto simp: came_in_def)

lemma absorb_all_effect:
  "absorb_all as c ty = (c', r) \<Longrightarrow> set as \<subseteq> set bs \<Longrightarrow> came_in bs (tl_best ty)
   \<Longrightarrow> book c' = book c \<and> (\<forall>e. r \<noteq> Err e) \<and> (\<forall>ty'. r = Ok ty' \<longrightarrow> came_in bs (tl_best ty'))"
proof (induction as arbitrary: c ty)
  case (Cons a as)
  obtain c1 s where one: "absorb a c ty = (c1, s)" by fastforce
  note effect = absorb_effect [OF one]
  show ?case
  proof (cases s)
    case (Ok ty1)
    have "came_in bs (tl_best ty1)" using effect Ok Cons.prems(2,3) by (auto simp: came_in_def)
    then show ?thesis using Cons.IH [of c1 ty1] Cons.prems(1,2) effect one Ok by simp
  qed (use effect one Cons.prems(1) in auto)
qed auto

lemma drain_effect:
  "drain n q es c ty = (c', r) \<Longrightarrow> {a. Arrive a \<in> set es} \<subseteq> set bs \<Longrightarrow> came_in bs (tl_best ty)
   \<Longrightarrow> (\<forall>x. r = Ok x \<longrightarrow> book c' = book c \<and> came_in bs x)
     \<and> (\<forall>e. r = Err e \<longrightarrow> book c' = book_error (book c))"
proof (induction n q es c ty rule: drain.induct)
  case (4 n q a es c ty)
  obtain c1 s where one: "absorb a c ty = (c1, s)" by fastforce
  note effect = absorb_effect [OF one]
  show ?case
  proof (cases s)
    case (Ok ty1)
    have "came_in bs (tl_best ty1)" using effect Ok "4.prems"(2,3) by (auto simp: came_in_def)
    moreover have "{a. Arrive a \<in> set es} \<subseteq> set bs" using "4.prems"(2) by auto
    ultimately show ?thesis using "4.IH" [OF one [symmetric] Ok] "4.prems"(1) effect one Ok by simp
  qed (use effect one "4.prems"(1) in auto)
qed (auto split: if_splits)

lemma gather_subset: "gather n es = Gathered as rest \<Longrightarrow>
   set as \<subseteq> {a. Arrive a \<in> set es} \<and> set rest \<subseteq> set es"
  using gather_Gathered [of n es as rest] by auto

text \<open>A call counts as a request, and an error counts exactly once.\<close>

definition booked :: "(int \<times> int \<times> int \<times> int) \<Rightarrow> 'a outcome \<Rightarrow> (int \<times> int \<times> int \<times> int) \<Rightarrow> bool" where
  "booked b r b' \<longleftrightarrow> (\<forall>x. r = Ok x \<longrightarrow> b' = b) \<and> (\<forall>e. r = Err e \<longrightarrow> b' = book_error b)"

lemma collect_quorum_effect:
  assumes "collect_quorum servers es c = (c', r)" and "{a. Arrive a \<in> set es} \<subseteq> set bs"
  shows "booked (book_request (book c)) r (book c') \<and> (\<forall>x. r = Ok x \<longrightarrow> came_in bs x)"
proof (cases "servers = []")
  case True
  then show ?thesis using assms(1) by (auto simp: collect_quorum_def Let_def booked_def)
next
  case False
  let ?c = "count_stat (\<lambda>s. s\<lparr>sx_requests := sx_requests s + 1\<rparr>) c"
  let ?q = "effective_quorum (length servers) c"
  note run = assms(1) [unfolded collect_quorum_eq [OF False refl] Let_def]
  show ?thesis
  proof (cases "gather (nat ?q) es")
    case (Gathered as rest)
    have as: "set as \<subseteq> set bs" and rest: "{a. Arrive a \<in> set rest} \<subseteq> set bs"
      using gather_subset [OF Gathered] assms(2) by auto
    obtain c1 s where abs: "absorb_all as ?c (tally_of []) = (c1, s)" by fastforce
    have "came_in bs (tl_best (tally_of []))" by (simp add: came_in_def tally_of_Nil no_tally_def)
    note effect = absorb_all_effect [OF abs as this]
    show ?thesis
    proof (cases s)
      case (Ok ty)
      then have best: "came_in bs (tl_best ty)" using effect by blast
      show ?thesis
      proof (cases "ho_progressive (hc_options c) \<and> ?q \<le> tl_valid ty")
        case True
        then have "(c1, Ok (tl_best ty)) = (c', r)" using run by (simp add: Gathered abs Ok)
        then show ?thesis using effect best by (auto simp: booked_def)
      next
        case False
        then have "drain (nat (int (length servers) - ?q)) ?q rest c1 ty = (c', r)"
          using run by (simp only: Gathered abs Ok gathered.case prod.case outcome.case if_False simp_thms)
        from drain_effect [OF this rest best] show ?thesis using effect by (simp add: booked_def)
      qed
    qed (use run effect in \<open>auto simp: Gathered abs booked_def\<close>)
  qed (use run in \<open>auto simp: booked_def\<close>)
qed

lemma update_server_rtt_no_error: "update_server_rtt i rtt c \<noteq> Err e"
  by (auto simp: update_server_rtt_def new_rtt_tracker_def rtt_add_sample_def split: option.split)

lemma bind_outcome_Err_iff:
  "bind_outcome r f = Err e \<longleftrightarrow> r = Err e \<or> (\<exists>x. r = Ok x \<and> f x = Err e)"
  by (cases r) auto

lemma ask_server_no_error: "ask_server fast now rtt srv c \<noteq> Err e"
  by (simp add: ask_server_def bind_outcome_Err_iff update_server_rtt_no_error split: outcome.split)

lemma ask_all_no_error: "ask_all servers answers c \<noteq> Err e"
  by (induction answers arbitrary: c e)
    (auto simp: bind_outcome_Err_iff ask_server_no_error split: prod.split)

lemma arrivals_of_events: "{a. Arrive a \<in> set (events_of deadline as)} \<subseteq> set as"
  by (auto simp: events_of_def split: option.splits dest: in_set_takeD in_set_dropD)

text \<open>The servers a call can ask.\<close>

definition candidates :: "time_network \<Rightarrow> string \<Rightarrow> time_server list" where
  "candidates net region =
     (if region \<noteq> [] \<and> tn_by_region net region \<noteq> [] then tn_by_region net region else tn_servers net)"

definition answered_with ::
  "'f hft_world \<Rightarrow> string \<Rightarrow> answer list \<Rightarrow> signed_timestamp \<Rightarrow> bool" where
  "answered_with w region answers ts \<longleftrightarrow>
     (\<exists>a \<in> set answers. \<exists>srv \<in> set (candidates (hw_net w) region).
        request_timestamp (an_fast a) (an_now a) srv = Ok (Some ts))"

definition call_ok :: "'f hft_world \<Rightarrow> string \<Rightarrow> answer list \<Rightarrow> bool" where
  "call_ok w region answers \<longleftrightarrow>
     sort_spec (hw_sort w) \<and> (\<forall>a \<in> set answers. an_server a < length (candidates (hw_net w) region))"

lemma asked_candidates:
  "sort_spec (hw_sort w) \<Longrightarrow> mset (asked_servers w region c) = mset (candidates (hw_net w) region)"
  unfolding asked_servers_def candidates_def by (rule conjunct1 [OF servers_ordered_by_rtt [OF _ refl]])

lemma call_effect:
  assumes run: "get_verified_timestamp w region answers deadline c = (c', r)" and "returns r"
    and ok: "call_ok w region answers"
  shows "hc_options c' = hc_options c \<and> hc_batch c' = hc_batch c
    \<and> booked (book_request (book c)) r (book c')
    \<and> (\<forall>ts. r = Ok (Some ts) \<longrightarrow> answered_with w region answers ts)"
proof -
  let ?servers = "asked_servers w region c"
  obtain c1 as where ask: "ask_all ?servers answers c = Ok (c1, as)"
    and coll: "collect_quorum ?servers (events_of deadline as) c1 = (c', r)"
    using run assms(2) ask_all_no_error [of ?servers answers c]
    by (auto simp: get_verified_timestamp_def Let_def split: outcome.splits)
  have same: "same_but_rtt c c1" and all2: "list_all2 (answered ?servers) answers as"
    using ask_all_answered [OF ask] by simp_all
  then have b1: "book c1 = book c" by (simp add: book_def same_but_rtt_def)
  note effect = collect_quorum_effect [OF coll arrivals_of_events]
  have perm: "mset ?servers = mset (candidates (hw_net w) region)"
    using ok by (intro asked_candidates) (simp add: call_ok_def)
  have "answered_with w region answers ts" if ts: "r = Ok (Some ts)" for ts
  proof -
    obtain x where x: "x \<in> set as" "hr_err (fst x) = None" "arrival_ts x = Some ts"
      using effect ts by (auto simp: came_in_def)
    then obtain a where a: "a \<in> set answers" "answered ?servers a x"
      using all2 by (metis in_set_conv_nth list_all2_conv_all_nth)
    have "an_server a < length ?servers"
      using ok a(1) perm by (metis call_ok_def size_mset)
    then have "?servers ! an_server a \<in> set (candidates (hw_net w) region)"
      using perm by (metis nth_mem set_mset_mset)
    moreover have "request_timestamp (an_fast a) (an_now a) (?servers ! an_server a) = Ok (Some ts)"
      using a(2) x(2,3) by (auto simp: answered_def arrival_ts_def split: outcome.splits)
    ultimately show ?thesis using a(1) by (auto simp: answered_with_def)
  qed
  then show ?thesis
    using effect b1 same collect_quorum_keeps [of ?servers "events_of deadline as" c1] coll
    by (simp add: same_but_rtt_def)
qed

lemma batch_call_cases:
  assumes "get_verified_for_batch w t1 t2 t3 key region age answers deadline c = (c', r)"
  obtains (off) "\<not> ho_batching (hc_options c) \<or> hc_batch c = None"
      "get_verified_timestamp w region answers deadline c = (c', r)"
  | (hit) bc ts where "ho_batching (hc_options c)" "hc_batch c = Some bc" "bcache_get t1 key bc = Some ts"
      "time_sub t2 (st_time ts) \<le> age" "r = Ok (Some ts)"
      "c' = count_stat (\<lambda>s. s\<lparr>sx_cache_hits := sx_cache_hits s + 1\<rparr>) c"
  | (miss) bc c1 where "ho_batching (hc_options c)" "hc_batch c = Some bc"
      "get_verified_timestamp w region answers deadline
         (count_stat (\<lambda>s. s\<lparr>sx_cache_misses := sx_cache_misses s + 1\<rparr>) c) = (c1, r)"
      "c' = (case r of Ok ots \<Rightarrow> c1\<lparr>hc_batch := map_option (bcache_set t3 key ots) (hc_batch c1)\<rparr> | _ \<Rightarrow> c1)"
proof (cases "if ho_batching (hc_options c) then hc_batch c else None")
  case None
  then show ?thesis using assms off
    by (auto simp: get_verified_for_batch_def batch_with_def split: if_splits)
next
  case (Some bc)
  then have on: "ho_batching (hc_options c)" "hc_batch c = Some bc" by (auto split: if_splits)
  let ?d = "count_stat (\<lambda>s. s\<lparr>sx_cache_misses := sx_cache_misses s + 1\<rparr>) c"
  let ?hit = "case bcache_get t1 key bc of None \<Rightarrow> None
    | Some ts \<Rightarrow> if time_sub t2 (st_time ts) \<le> age then Some ts else None"
  note run = assms [unfolded get_verified_for_batch_def batch_with_def Let_def Some option.case]
  show ?thesis
  proof (cases ?hit)
    case None
    obtain c1 s where "get_verified_timestamp w region answers deadline ?d = (c1, s)" by fastforce
    then show ?thesis using run None on by (intro miss [of bc c1]) (cases s; auto)+
  next
    case (Some ts)
    then have "bcache_get t1 key bc = Some ts" "time_sub t2 (st_time ts) \<le> age"
      by (auto split: option.splits if_splits)
    then show ?thesis using run on by (intro hit [of bc ts]) auto
  qed
qed

section \<open>The invariant of a history\<close>

text \<open>Calls see servers that exist, sorting sorts, clean-ups visit every key.\<close>

fun op_ok :: "'f client_op \<Rightarrow> bool" where
  "op_ok (DirectCall w region answers deadline) = call_ok w region answers"
| "op_ok (BatchCall w region answers deadline t1 t2 t3 key age) = call_ok w region answers"
| "op_ok (CleanVerify ord t) = is_order ord"
| "op_ok (CleanBatch ord t) = is_order ord"

definition fetched :: "'f client_op \<Rightarrow> signed_timestamp \<Rightarrow> bool" where
  "fetched p ts = answered_with (op_world p) (op_region p) (op_answers p) ts"

text \<open>A batch call of the history fetched the timestamp for this key and stored it until \<open>e\<close>.\<close>

definition stored_by ::
  "duration \<Rightarrow> ('f client_op \<times> signed_timestamp option outcome) list \<Rightarrow> string \<Rightarrow> signed_timestamp
   \<Rightarrow> gotime \<Rightarrow> bool" where
  "stored_by ttl h key ts e \<longleftrightarrow>
     (\<exists>p. (p, Ok (Some ts)) \<in> set h \<and> is_batch p \<and> op_key p = key \<and> fetched p ts
        \<and> e = time_add (op_set p) ttl)"

fun traced :: "duration \<Rightarrow> ('f client_op \<times> signed_timestamp option outcome) list \<Rightarrow> bool" where
  "traced ttl [] = True"
| "traced ttl ((p, r) # h) = (traced ttl h
     \<and> (\<forall>ts. r = Ok (Some ts) \<longrightarrow> fetched p ts
          \<or> is_batch p \<and> time_sub (op_since p) (st_time ts) \<le> op_age p
            \<and> (\<exists>e. stored_by ttl h (op_key p) ts e \<and> \<not> e < op_get p)))"

lemma traced_at:
  "traced ttl (newer @ (p, Ok (Some ts)) # older) \<Longrightarrow>
   fetched p ts \<or> is_batch p \<and> time_sub (op_since p) (st_time ts) \<le> op_age p
     \<and> (\<exists>e. stored_by ttl older (op_key p) ts e \<and> \<not> e < op_get p)"
  by (induction newer) auto

definition balanced ::
  "bool \<Rightarrow> ('f client_op \<times> signed_timestamp option outcome) list \<Rightarrow> int \<times> int \<times> int \<times> int \<Rightarrow> bool" where
  "balanced batching h b \<longleftrightarrow> (case b of (requests, hits, misses, bad) \<Rightarrow>
     requests + hits = int (length (filter (\<lambda>(p, r). is_direct p \<or> is_batch p) h))
     \<and> hits + misses = (if batching then int (length (filter (is_batch \<circ> fst) h)) else 0)
     \<and> bad = int (length (filter (\<lambda>(p, r). \<exists>e. r = Err e) h)))"

definition hist_inv ::
  "'f hft_options \<Rightarrow> ('f client_op \<times> signed_timestamp option outcome) list \<Rightarrow> 'f hft_client \<Rightarrow> bool" where
  "hist_inv opt h c \<longleftrightarrow>
     hc_options c = opt
     \<and> (case hc_batch c of None \<Rightarrow> \<not> ho_caching opt
        | Some bc \<Rightarrow> ho_caching opt \<and> cache_ok (ho_cache_ttl opt) bc
            \<and> (\<forall>k ts e. cache_entry bc k = Some (Some ts, e) \<longrightarrow> stored_by (ho_cache_ttl opt) h k ts e))
     \<and> balanced (ho_caching opt \<and> ho_batching opt) h (book c)
     \<and> traced (ho_cache_ttl opt) h"

lemma stored_by_Cons: "stored_by ttl h k ts e \<Longrightarrow> stored_by ttl (x # h) k ts e"
  by (auto simp: stored_by_def)

lemma fresh_entry [simp]: "cache_entry (new_timestamp_batch_cache ttl) k = None"
  by (simp add: cache_entry_def new_timestamp_batch_cache_def)

lemma hist_inv_fresh: "hist_inv (hc_options (new_hft_client d opts)) [] (new_hft_client d opts)"
  by (simp add: hist_inv_def new_hft_client_def Let_def new_cache_ok balanced_def book_def)

lemma stored_mono:
  "(\<forall>k ts e. cache_entry bc k = Some (Some ts, e) \<longrightarrow> stored_by ttl h k ts e) \<Longrightarrow>
   (\<forall>k ts e. cache_entry bc k = Some (Some ts, e) \<longrightarrow> stored_by ttl (x # h) k ts e)"
  by (simp add: stored_by_Cons)

text \<open>A call that asks the servers: directly, or because there is no cache.\<close>

lemma hist_inv_ask:
  assumes inv: "hist_inv opt h c" and run: "get_verified_timestamp w region answers deadline c = (c', r)"
    and r: "returns r" and ok: "call_ok w region answers"
    and p: "is_direct p \<or> is_batch p \<and> \<not> (ho_caching opt \<and> ho_batching opt)"
    and args: "op_world p = w" "op_region p = region" "op_answers p = answers"
  shows "hist_inv opt ((p, r) # h) c'"
proof -
  have effect: "hc_options c' = hc_options c" "hc_batch c' = hc_batch c"
    "booked (book_request (book c)) r (book c')"
    and got: "\<And>ts. r = Ok (Some ts) \<Longrightarrow> fetched p ts"
    using call_effect [OF run r ok] by (simp_all add: fetched_def args)
  have "\<not> (is_direct p \<and> is_batch p)" by (cases p) simp_all
  then have "balanced (ho_caching opt \<and> ho_batching opt) ((p, r) # h) (book c')"
    using effect(3) inv p r
    by (cases r; cases "book c")
      (auto simp: hist_inv_def balanced_def booked_def book_request_def book_error_def)
  then show ?thesis
    using inv effect(1,2) got by (simp add: hist_inv_def stored_by_Cons split: option.splits)
qed

text \<open>A hit of the batch cache.\<close>

lemma hist_inv_hit:
  assumes inv: "hist_inv opt h c" and on: "ho_batching opt" "hc_batch c = Some bc"
    and get: "bcache_get (op_get p) (op_key p) bc = Some ts" and p: "is_batch p"
    and age: "time_sub (op_since p) (st_time ts) \<le> op_age p"
  shows "hist_inv opt ((p, Ok (Some ts)) # h)
    (count_stat (\<lambda>s. s\<lparr>sx_cache_hits := sx_cache_hits s + 1\<rparr>) c)"
proof -
  have bc: "ho_caching opt" "cache_ok (ho_cache_ttl opt) bc"
    and stored: "\<And>k ts e. cache_entry bc k = Some (Some ts, e) \<Longrightarrow> stored_by (ho_cache_ttl opt) h k ts e"
    using inv on(2) by (simp_all add: hist_inv_def)
  have "bcache_entry (op_get p) (op_key p) bc = Some (Some ts)"
    using get by (simp add: bcache_get_def split: option.splits)
  then obtain e where e: "cache_entry bc (op_key p) = Some (Some ts, e)" "\<not> e < op_get p"
    unfolding bcache.lookup_entry [OF bc(2)]
    by (cases "(op_get p, cache_entry bc (op_key p))" rule: live.cases) (auto split: if_splits)
  have "traced (ho_cache_ttl opt) ((p, Ok (Some ts)) # h)"
    using inv p age stored [OF e(1)] e(2) by (auto simp: hist_inv_def)
  moreover have "balanced (ho_caching opt \<and> ho_batching opt) ((p, Ok (Some ts)) # h)
      (book (count_stat (\<lambda>s. s\<lparr>sx_cache_hits := sx_cache_hits s + 1\<rparr>) c))"
    using inv p on(1) bc(1) by (auto simp: hist_inv_def balanced_def book_def count_stat_def)
  ultimately show ?thesis using inv on(2) by (simp add: hist_inv_def stored_by_Cons)
qed

text \<open>A miss: the servers are asked and what they gave is stored.\<close>

lemma hist_inv_miss:
  assumes inv: "hist_inv opt h c" and on: "ho_batching opt" "hc_batch c = Some bc"
    and run: "get_verified_timestamp (op_world p) (op_region p) (op_answers p) (op_deadline p)
        (count_stat (\<lambda>s. s\<lparr>sx_cache_misses := sx_cache_misses s + 1\<rparr>) c) = (c1, r)"
    and r: "returns r" and ok: "call_ok (op_world p) (op_region p) (op_answers p)" and p: "is_batch p"
    and c': "c' = (case r of
        Ok ots \<Rightarrow> c1\<lparr>hc_batch := map_option (bcache_set (op_set p) (op_key p) ots) (hc_batch c1)\<rparr> | _ \<Rightarrow> c1)"
  shows "hist_inv opt ((p, r) # h) c'"
proof -
  let ?d = "count_stat (\<lambda>s. s\<lparr>sx_cache_misses := sx_cache_misses s + 1\<rparr>) c"
  have bc: "ho_caching opt" "cache_ok (ho_cache_ttl opt) bc"
    and stored: "\<And>k ts e. cache_entry bc k = Some (Some ts, e) \<Longrightarrow> stored_by (ho_cache_ttl opt) h k ts e"
    using inv on(2) by (simp_all add: hist_inv_def)
  have c1: "hc_options c1 = opt" "hc_batch c1 = Some bc" "booked (book_request (book ?d)) r (book c1)"
    and got: "\<And>ts. r = Ok (Some ts) \<Longrightarrow> fetched p ts"
    using call_effect [OF run r ok] inv on(2) by (simp_all add: fetched_def hist_inv_def)
  have "book c' = book c1" unfolding c' by (cases r) (simp_all add: book_def)
  moreover have "\<not> is_direct p" using p by (cases p) simp_all
  ultimately have balance: "balanced (ho_caching opt \<and> ho_batching opt) ((p, r) # h) (book c')"
    using c1(3) inv p on(1) bc(1) r
    by (cases r) (auto simp: hist_inv_def balanced_def booked_def book_request_def book_error_def book_def
        count_stat_def)
  have trace: "traced (ho_cache_ttl opt) ((p, r) # h)" using inv got by (simp add: hist_inv_def)
  show ?thesis
  proof (cases r)
    case (Ok ots)
    let ?bc = "bcache_set (op_set p) (op_key p) ots bc"
    have "stored_by (ho_cache_ttl opt) ((p, r) # h) k ts e" if "cache_entry ?bc k = Some (Some ts, e)" for k ts e
    proof (cases "k = op_key p")
      case True
      then have "ots = Some ts" "e = time_add (op_set p) (ho_cache_ttl opt)"
        using that by (simp_all add: bcache.put_entry [OF bc(2)])
      then show ?thesis using True p got Ok by (auto simp: stored_by_def)
    next
      case False
      then show ?thesis using that stored by (simp add: bcache.put_entry [OF bc(2)] stored_by_Cons)
    qed
    then show ?thesis
      using balance trace c1(1,2) bc(1) bcache.put_ok [OF bc(2)] by (simp add: hist_inv_def c' Ok)
  next
    case (Err e)
    then show ?thesis
      using balance trace c1(1,2) bc stored by (simp add: hist_inv_def c' stored_by_Cons)
  qed (use r in simp_all)
qed

text \<open>The ticks of the clean-ups.\<close>

lemma hist_inv_clean_verify:
  assumes "hist_inv opt h c"
  shows "hist_inv opt ((CleanVerify ord t, Ok None) # h) (c\<lparr>hc_verify := map_option (vcache_tick ord t) (hc_verify c)\<rparr>)"
  using assms by (simp add: hist_inv_def balanced_def book_def stored_by_Cons split: option.splits)

lemma hist_inv_clean_batch:
  assumes inv: "hist_inv opt h c" and ord: "is_order ord"
  shows "hist_inv opt ((CleanBatch ord t, Ok None) # h) (c\<lparr>hc_batch := map_option (bcache_tick ord t) (hc_batch c)\<rparr>)"
proof (cases "hc_batch c")
  case None
  then show ?thesis using inv by (simp add: hist_inv_def balanced_def book_def)
next
  case (Some bc)
  have bc: "cache_ok (ho_cache_ttl opt) bc" using inv Some by (simp add: hist_inv_def)
  then have "cache_ok (ho_cache_ttl opt) (bcache_tick ord t bc)"
    by (simp add: bcache_tick_def bcache.clean_ok)
  moreover have "cache_entry bc k = Some (v, e)" if "cache_entry (bcache_tick ord t bc) k = Some (v, e)" for k v e
    using that unfolding bcache_tick_def
    by (cases "(t, cache_entry bc k)" rule: live.cases)
      (auto simp: bcache.clean_entry [OF ord bc] split: if_splits)
  ultimately show ?thesis
    using inv Some by (simp add: hist_inv_def balanced_def book_def stored_by_Cons)
qed

lemma client_exec_inv:
  assumes inv: "hist_inv opt h c" and run: "client_exec p c = (c', r)" and r: "returns r" and ok: "op_ok p"
  shows "hist_inv opt ((p, r) # h) c'"
proof (cases p)
  case (DirectCall w region answers deadline)
  then show ?thesis
    using hist_inv_ask [OF inv _ r, of w region answers deadline c' p] run ok by simp
next
  case (BatchCall w region answers deadline t1 t2 t3 key age)
  then have call: "get_verified_for_batch w t1 t2 t3 key region age answers deadline c = (c', r)"
    using run by simp
  have opt: "hc_options c = opt" using inv by (simp add: hist_inv_def)
  show ?thesis
  proof (cases rule: batch_call_cases [OF call])
    case 1
    then have "\<not> (ho_caching opt \<and> ho_batching opt)"
      using inv by (auto simp: hist_inv_def split: option.splits)
    then show ?thesis using hist_inv_ask [OF inv 1(2) r, of p] ok by (simp add: BatchCall)
  next
    case (2 bc ts)
    then show ?thesis using hist_inv_hit [OF inv, of bc p ts] opt by (simp add: BatchCall)
  next
    case (3 bc c1)
    show ?thesis
      by (rule hist_inv_miss [OF inv, of bc p c1 r c']) (use 3 opt r ok in \<open>simp_all add: BatchCall split: outcome.split\<close>)
  qed
next
  case (CleanVerify ord t)
  then show ?thesis using hist_inv_clean_verify [OF inv] run by auto
next
  case (CleanBatch ord t)
  then show ?thesis using hist_inv_clean_batch [OF inv] run ok by auto
qed

lemma client_history_inv:
  assumes "client_history (new_hft_client d opts) h c" and "\<forall>p \<in> fst ` set h. op_ok p"
  shows "hist_inv (hc_options (new_hft_client d opts)) h c"
  using assms
proof (induction rule: client_history.induct)
  case fresh
  show ?case by (rule hist_inv_fresh)
next
  case (next_op h c p c' r)
  then show ?case by (intro client_exec_inv) auto
qed

section \<open>Property\<close>

text \<open>
  C32. The life of a client: in any history of direct and batch calls that returned, with clean-ups
  between them, every timestamp a call returned was an answer that call itself got from a server
  its network named, or it was got so by an earlier batch call with the same key, whose entry had
  not expired, and is no older than the caller allows. The statistics account for everything:
  requests and hits together are the calls, hits and misses together the batch calls (if caching
  and batching are on), failed quorums and timeouts together the calls that returned an error.
\<close>

theorem client_history_accounted:
  assumes "client_history (new_hft_client d opts) h c" and "\<forall>p \<in> fst ` set h. op_ok p"
    and "opt = hc_options (new_hft_client d opts)"
    and "stat = (\<lambda>name. the (map_of (get_stats c) name))"
  shows "(\<forall>newer p ts older. h = newer @ (p, Ok (Some ts)) # older \<longrightarrow>
      answered_with (op_world p) (op_region p) (op_answers p) ts
      \<or> is_batch p \<and> time_sub (op_since p) (st_time ts) \<le> op_age p
        \<and> (\<exists>q. (q, Ok (Some ts)) \<in> set older \<and> is_batch q \<and> op_key q = op_key p
             \<and> answered_with (op_world q) (op_region q) (op_answers q) ts
             \<and> \<not> time_add (op_set q) (ho_cache_ttl opt) < op_get p))
    \<and> stat ''requests'' + stat ''cache_hits''
        = int (length (filter (\<lambda>(p, r). is_direct p \<or> is_batch p) h))
    \<and> (ho_caching opt \<and> ho_batching opt \<longrightarrow>
        stat ''cache_hits'' + stat ''cache_misses'' = int (length (filter (is_batch \<circ> fst) h)))
    \<and> stat ''quorum_failures'' + stat ''request_timeouts''
        = int (length (filter (\<lambda>(p, r). \<exists>e. r = Err e) h))"
proof -
  have inv: "hist_inv opt h c" unfolding assms(3) by (rule client_history_inv [OF assms(1,2)])
  have "answered_with (op_world p) (op_region p) (op_answers p) ts
      \<or> is_batch p \<and> time_sub (op_since p) (st_time ts) \<le> op_age p
        \<and> (\<exists>q. (q, Ok (Some ts)) \<in> set older \<and> is_batch q \<and> op_key q = op_key p
             \<and> answered_with (op_world q) (op_region q) (op_answers q) ts
             \<and> \<not> time_add (op_set q) (ho_cache_ttl opt) < op_get p)"
    if h: "h = newer @ (p, Ok (Some ts)) # older" for newer p ts older
  proof -
    have "traced (ho_cache_ttl opt) (newer @ (p, Ok (Some ts)) # older)"
      using inv unfolding h hist_inv_def by blast
    from traced_at [OF this] show ?thesis unfolding stored_by_def fetched_def by blast
  qed
  moreover have "balanced (ho_caching opt \<and> ho_batching opt) h (book c)"
    using inv by (simp add: hist_inv_def)
  ultimately show ?thesis
    by (auto simp: assms(4) get_stats_def balanced_def book_def)
qed

section \<open>Witness\<close>

text \<open>The second call of a batch asks nobody and takes what the first has fetched.\<close>

definition demo_first_call :: "int client_op" where
  "demo_first_call = BatchCall demo_world [] demo_answers None (Instant 1) (Instant 1) (Instant 10) ''k'' 100"

definition demo_second_call :: "int client_op" where
  "demo_second_call = BatchCall demo_world ''us'' [] None (Instant 11) (Instant 50) (Instant 51) ''k'' 100"

lemma demo_calls_run:
  "(case client_exec demo_first_call (demo_client True) of
      (c1, Ok (Some ts)) \<Rightarrow> snd (client_exec demo_second_call c1) = Ok (Some ts)
    | _ \<Rightarrow> False)"
  by code_simp

lemma demo_history:
  "\<exists>ts c. client_history (new_hft_client 2 (Some (demo_opts True)))
    [(demo_second_call, Ok (Some ts)), (demo_first_call, Ok (Some ts))] c"
proof -
  obtain c1 ts where one: "client_exec demo_first_call (demo_client True) = (c1, Ok (Some ts))"
    and "snd (client_exec demo_second_call c1) = Ok (Some ts)"
    using demo_calls_run by (auto split: prod.splits outcome.splits option.splits)
  then obtain c2 where two: "client_exec demo_second_call c1 = (c2, Ok (Some ts))" by (metis prod.collapse)
  have "client_history (demo_client True) [(demo_first_call, Ok (Some ts))] c1"
    by (rule client_history.next_op [OF client_history.fresh one]) simp
  then have "client_history (demo_client True)
      [(demo_second_call, Ok (Some ts)), (demo_first_call, Ok (Some ts))] c2"
    by (rule client_history.next_op [OF _ two]) simp
  then show ?thesis unfolding demo_client_def by blast
qed

lemma demo_calls_ok: "op_ok demo_first_call" "op_ok demo_second_call"
  using sort_by_spec
  by (simp_all add: demo_first_call_def demo_second_call_def call_ok_def demo_world_def demo_answers_def
      demo_answer_def candidates_def)

theorem client_history_accounted_witness:
  "\<exists>ts c. client_history (new_hft_client 2 (Some (demo_opts True)))
      [(demo_second_call, Ok (Some ts)), (demo_first_call, Ok (Some ts))] c
    \<and> answered_with demo_world [] demo_answers ts
    \<and> the (map_of (get_stats c) ''requests'') + the (map_of (get_stats c) ''cache_hits'') = 2"
proof -
  obtain ts c where h: "client_history (new_hft_client 2 (Some (demo_opts True)))
      [(demo_second_call, Ok (Some ts)), (demo_first_call, Ok (Some ts))] c"
    using demo_history by blast
  note accounted = client_history_accounted [OF h _ refl refl]
  have "\<forall>p \<in> fst ` set [(demo_second_call, Ok (Some ts)), (demo_first_call, Ok (Some ts))]. op_ok p"
    using demo_calls_ok by simp
  note facts = accounted [OF this]
  have "\<not> answered_with (op_world demo_second_call) (op_region demo_second_call)
      (op_answers demo_second_call) ts"
    by (simp add: demo_second_call_def answered_with_def)
  then obtain q where "(q, Ok (Some ts)) \<in> set [(demo_first_call, Ok (Some ts))]"
    "answered_with (op_world q) (op_region q) (op_answers q) ts"
    using conjunct1 [OF facts, rule_format, of "[]" demo_second_call ts] by auto
  then have "answered_with demo_world [] demo_answers ts" by (simp add: demo_first_call_def)
  moreover have "the (map_of (get_stats c) ''requests'') + the (map_of (get_stats c) ''cache_hits'') = 2"
    using conjunct1 [OF conjunct2 [OF facts]] by (simp add: demo_first_call_def demo_second_call_def)
  ultimately show ?thesis using h by blast
qed

end
