(* ===== verification/Support.thy ===== *)
theory Support
  imports Service Gossip
begin

text \<open>
  What stands around the program's logic: the logger (\<open>core/logger/logger.go\<close>), the metrics endpoint
  (\<open>core/metrics/server.go\<close>), and the network of the service's tests (\<open>core/service/mock_network.go\<close>),
  which hands every call to the recorder of the library testify. zap, \<open>net/http\<close> and testify are
  parameters.
\<close>

section \<open>The logger\<close>

text \<open>The global logger as the list of what it was given, a level, a message, keys and values.\<close>

datatype log_level = LogError | LogInfo | LogDebug

type_synonym 'v log = "(log_level \<times> string \<times> 'v list) list"

definition log_error :: "string \<Rightarrow> 'v list \<Rightarrow> 'v log \<Rightarrow> 'v log" where
  "log_error msg kvs l = l @ [(LogError, msg, kvs)]"

definition log_info :: "string \<Rightarrow> 'v list \<Rightarrow> 'v log \<Rightarrow> 'v log" where
  "log_info msg kvs l = l @ [(LogInfo, msg, kvs)]"

definition log_debug :: "string \<Rightarrow> 'v list \<Rightarrow> 'v log \<Rightarrow> 'v log" where
  "log_debug msg kvs l = l @ [(LogDebug, msg, kvs)]"

section \<open>The metrics endpoint\<close>

record metrics_server =
  ms_addr :: string
  ms_routes :: "string list"

definition new_metrics_server :: "int \<Rightarrow> metrics_server" where
  "new_metrics_server port = \<lparr>ms_addr = '':'' @ dec_int port, ms_routes = [''/metrics'']\<rparr>"

definition metrics_server_start :: "(metrics_server \<Rightarrow> unit outcome) \<Rightarrow> metrics_server \<Rightarrow> unit outcome" where
  "metrics_server_start listen_and_serve s = listen_and_serve s"

definition metrics_server_stop :: "(metrics_server \<Rightarrow> unit outcome) \<Rightarrow> metrics_server \<Rightarrow> unit outcome" where
  "metrics_server_stop shutdown s = shutdown s"

section \<open>The recording network of the service's tests\<close>

datatype mock_arg = ArgServer time_server | ArgString string

text \<open>A value of an interface type, by its dynamic type.\<close>

datatype mock_value =
  NilValue | ServersValue "time_server list" | StatusValue network_status | OtherValue

text \<open>testify's \<open>Called\<close>, \<open>Get\<close> and \<open>Error\<close>; \<open>'m\<close> is the state of its \<open>mock.Mock\<close>.\<close>

record ('m, 'a) mock_lib =
  ml_called :: "string \<Rightarrow> mock_arg list \<Rightarrow> 'm \<Rightarrow> 'm \<times> 'a outcome"
  ml_get :: "'a \<Rightarrow> nat \<Rightarrow> mock_value outcome"
  ml_error :: "'a \<Rightarrow> nat \<Rightarrow> unit outcome"

record 'm mock_time_network =
  mtn_mock :: 'm

definition new_mock_time_network :: "'m \<Rightarrow> 'm mock_time_network" where
  "new_mock_time_network zero = \<lparr>mtn_mock = zero\<rparr>"

definition recorded ::
  "('m, 'a) mock_lib \<Rightarrow> string \<Rightarrow> mock_arg list \<Rightarrow> ('a \<Rightarrow> 'b outcome) \<Rightarrow> 'm mock_time_network
   \<Rightarrow> 'm mock_time_network \<times> 'b outcome" where
  "recorded L name args f m =
     (case ml_called L name args (mtn_mock m) of (m', r) \<Rightarrow> (m\<lparr>mtn_mock := m'\<rparr>, bind_outcome r f))"

definition mock_add_server ::
  "('m, 'a) mock_lib \<Rightarrow> time_server \<Rightarrow> 'm mock_time_network \<Rightarrow> 'm mock_time_network \<times> unit outcome" where
  "mock_add_server L srv = recorded L ''AddServer'' [ArgServer srv] (\<lambda>a. ml_error L a 0)"

definition mock_remove_server ::
  "('m, 'a) mock_lib \<Rightarrow> string \<Rightarrow> 'm mock_time_network \<Rightarrow> 'm mock_time_network \<times> unit outcome" where
  "mock_remove_server L i = recorded L ''RemoveServer'' [ArgString i] (\<lambda>a. ml_error L a 0)"

text \<open>A nil value gives nil, a value of another type than the asserted one panics.\<close>

definition as_servers :: "mock_value \<Rightarrow> time_server list outcome" where
  "as_servers v =
     (case v of NilValue \<Rightarrow> Ok [] | ServersValue xs \<Rightarrow> Ok xs | _ \<Rightarrow> Panic TypeAssertion)"

definition mock_get_servers ::
  "('m, 'a) mock_lib \<Rightarrow> 'm mock_time_network \<Rightarrow> 'm mock_time_network \<times> time_server list outcome" where
  "mock_get_servers L = recorded L ''GetServers'' [] (\<lambda>a. bind_outcome (ml_get L a 0) as_servers)"

definition mock_get_by_region ::
  "('m, 'a) mock_lib \<Rightarrow> string \<Rightarrow> 'm mock_time_network \<Rightarrow> 'm mock_time_network \<times> time_server list outcome" where
  "mock_get_by_region L g =
     recorded L ''GetServersByRegion'' [ArgString g] (\<lambda>a. bind_outcome (ml_get L a 0) as_servers)"

definition mock_get_status ::
  "('m, 'a) mock_lib \<Rightarrow> 'm mock_time_network \<Rightarrow> 'm mock_time_network \<times> network_status option outcome" where
  "mock_get_status L =
     recorded L ''GetStatus'' [] (\<lambda>a. bind_outcome (ml_get L a 0) (\<lambda>v.
       case v of
         NilValue \<Rightarrow> bind_outcome (ml_error L a 1) (\<lambda>_. Ok None)
       | StatusValue st \<Rightarrow> bind_outcome (ml_error L a 1) (\<lambda>_. Ok (Some st))
       | _ \<Rightarrow> Panic TypeAssertion))"

definition mock_start ::
  "('m, 'a) mock_lib \<Rightarrow> 'm mock_time_network \<Rightarrow> 'm mock_time_network \<times> unit outcome" where
  "mock_start L = recorded L ''Start'' [] (\<lambda>a. ml_error L a 0)"

definition mock_stop ::
  "('m, 'a) mock_lib \<Rightarrow> 'm mock_time_network \<Rightarrow> 'm mock_time_network \<times> unit outcome" where
  "mock_stop L = recorded L ''Stop'' [] (\<lambda>a. ml_error L a 0)"

text \<open>
  What \<open>On(...).Return(...)\<close> sets up for the queries of the service: the recorder answers with the
  servers of \<open>net\<close>.
\<close>

definition stands_for :: "('m, 'a) mock_lib \<Rightarrow> 'm \<Rightarrow> time_network \<Rightarrow> bool" where
  "stands_for L m net \<longleftrightarrow>
     (\<exists>m' a. ml_called L ''GetServers'' [] m = (m', Ok a) \<and> ml_get L a 0 = Ok (ServersValue (tn_servers net)))
     \<and> (\<forall>g. \<exists>m' a. ml_called L ''GetServersByRegion'' [ArgString g] m = (m', Ok a)
           \<and> ml_get L a 0 = Ok (if tn_by_region net g = [] then NilValue else ServersValue (tn_by_region net g)))"

lemma recorder_answers:
  assumes "stands_for L (mtn_mock m) net"
  shows "snd (mock_get_servers L m) = Ok (tn_servers net)"
    and "snd (mock_get_by_region L g m) = Ok (tn_by_region net g)"
proof -
  show "snd (mock_get_servers L m) = Ok (tn_servers net)"
    using assms by (auto simp: stands_for_def mock_get_servers_def recorded_def as_servers_def)
  obtain m' a where "ml_called L ''GetServersByRegion'' [ArgString g] (mtn_mock m) = (m', Ok a)"
    "ml_get L a 0 = Ok (if tn_by_region net g = [] then NilValue else ServersValue (tn_by_region net g))"
    using assms unfolding stands_for_def by blast
  then show "snd (mock_get_by_region L g m) = Ok (tn_by_region net g)"
    by (simp add: mock_get_by_region_def recorded_def as_servers_def)
qed

end
