(* ===== verification/Spec2Isabelle.thy ===== *)
theory Spec2Isabelle
  imports Election ViewChange FastPath BigBFT Metrics Consensus Regions Network Server Service
    Caches DualFormat Rtt Calls Discovery Gossip Config Api MockPath FastLive NodeSystem Delivery
    EndToEnd ViewRounds ClientHistory Support
begin

text \<open>
  A verification library for \<open>timeserver-core\<close>, a network of servers that sign timestamps.

  \<^bold>\<open>The program and its model.\<close> A server (\<open>core/server\<close>) holds a key pair, signs the present time and
  checks the timestamps of its peers, which a registry holds (\<open>core/network\<close>); a service and a gRPC
  adapter (\<open>core/service\<close>) offer this to clients. Nodes agree on timestamps (\<open>core/consensus\<close>): a
  fast path collects signatures of near servers, BigBFT batches the timestamps that the fast path
  could not serve and votes on them, and elections and view changes choose the leader. A client
  (\<open>core/client\<close>) asks several servers and trusts a quorum of them. Below the registries a layer over
  libp2p (\<open>core/p2p\<close>) discovers peers and floods messages; REST and gRPC front ends (\<open>api\<close>) and the
  program's start from its configuration (\<open>core/config\<close>, \<open>cmd\<close>) are around them. The theories:

  \<^item> \<^bold>\<open>Prelude\<close>: outcomes of calls (\<open>Ok\<close>, \<open>Err\<close>, \<open>Panic\<close>, \<open>Blocked\<close>), error values, Go maps as
    association lists with the iteration order as a parameter (\<open>go_range\<close>, \<open>is_order\<close>).
    \<^bold>\<open>GoTime\<close>: instants as integers of nanoseconds with the ranges of \<open>time.Time\<close> and
    \<open>time.Duration\<close>, saturating subtraction, \<open>UnixNano\<close> with its wrap-around, big- and little-endian
    byte forms on words.
  \<^item> \<^bold>\<open>Types\<close>: \<open>core/types\<close>; the interface \<open>TimeServer\<close> is the record of its methods, its contract
    the locale \<open>time_servers\<close>. ed25519 is a parameter with its documented laws (\<open>ed25519_spec\<close>).
  \<^item> \<^bold>\<open>Threshold\<close>, \<^bold>\<open>ConsState\<close>, \<^bold>\<open>Election\<close>, \<^bold>\<open>Quorums\<close>, \<^bold>\<open>ViewChange\<close>, \<^bold>\<open>FastPath\<close>, \<^bold>\<open>BigBFT\<close>,
    \<^bold>\<open>Consensus\<close>: the files \<open>threshold.go\<close>; \<open>state.go\<close>, \<open>types.go\<close>, \<open>messages.go\<close>, \<open>protocol.go\<close>;
    \<open>leader.go\<close>, \<open>election.go\<close>; \<open>view.go\<close>; \<open>fastpath.go\<close>; \<open>pbft.go\<close>; \<open>consensus.go\<close>, \<open>network.go\<close>.
    The mutex of the shared state is part of it: an accessor of a locked state is \<open>Blocked\<close>. The
    goroutines of the fast path and the timers of BigBFT are the labelled steps of \<open>fp_step\<close> and
    \<open>bb_step\<close>; a state of the model is the local variables, channels and running goroutines.
    \<open>Quorums\<close> holds the contract of a quorum size (any two quorums share an honest member), which
    view changes and BigBFT instantiate.
  \<^item> \<^bold>\<open>Metrics\<close>: \<open>core/metrics\<close>, counters, observation counts and gauges.
  \<^item> \<^bold>\<open>Regions\<close>: \<open>core/regions\<close>, with the abstract machine it implements.
  \<^item> \<^bold>\<open>Servers\<close>: the three implementations of \<open>TimeServer\<close> as constructors of one datatype; servers
    are objects, so registries hold references into a store, and a change of region is visible
    through every registry. \<^bold>\<open>Network\<close>: \<open>adapters.go\<close>, \<open>mock_network.go\<close>, \<open>mock_test_network.go\<close> under
    the locale \<open>server_registry\<close>. \<^bold>\<open>Server\<close>: \<open>server.go\<close>, \<open>fastpath.go\<close>, \<open>messages.go\<close> of
    \<open>core/server\<close>. \<^bold>\<open>Service\<close>: \<open>timestamp_service.go\<close>, \<open>grpc_adapter.go\<close>.
  \<^item> \<^bold>\<open>Caches\<close>, \<^bold>\<open>Rtt\<close>, \<^bold>\<open>DualFormat\<close>, \<^bold>\<open>Client\<close>, \<^bold>\<open>ClientProps\<close>, \<^bold>\<open>Calls\<close>: \<open>hft_client.go\<close>. Both caches
    meet the locale \<open>expiring_cache\<close>. A call is a function of its world (sorting, registry), of the
    answers of its goroutines in the order in which they come, and of the place of the deadline
    among them; floating-point arithmetic is a parameter. \<^bold>\<open>ClientHistory\<close>: the life of a client, its
    calls with the ticks of the caches' clean-ups between them.
  \<^item> \<^bold>\<open>Security\<close>, \<^bold>\<open>Discovery\<close>, \<^bold>\<open>P2P\<close>, \<^bold>\<open>Gossip\<close>: the files of \<open>core/p2p\<close>. What libp2p answers is an
    argument, what it is told is logged. Discovery keeps its mutex as the running goroutine sees it.
    Gossip models one node and then a network of nodes, in which the deliveries of one message are
    the steps of \<open>flood_step\<close>.
  \<^item> \<^bold>\<open>Config\<close>: \<open>config.go\<close> and \<open>main.go\<close> up to the wait for a signal; the operating system is a record
    of its calls on a state of its own. \<^bold>\<open>Api\<close>: \<open>api/rest/server.go\<close> and \<open>api/grpc/server.go\<close> over any
    service, REST with its route table and its metrics.
  \<^item> \<^bold>\<open>MockPath\<close>: the simulated network and fast path of \<open>test_utils.go\<close> and \<open>mock_fast_path.go\<close>; the
    timestamp shared by the goroutines is part of the state. \<^bold>\<open>Support\<close>: \<open>logger.go\<close>, the metrics
    endpoint, and the recording network of \<open>core/service/mock_network.go\<close>.
  \<^item> The components put together: \<^bold>\<open>FastLive\<close>, the runs of the fast path in which it succeeds;
    \<^bold>\<open>NodeSystem\<close>, BigBFT with its own fast path, two transition systems composed; \<^bold>\<open>ViewCluster\<close>, the
    view change of all validators with the messages between them, and the leader they elect, and
    \<^bold>\<open>ViewRounds\<close>, any number of such view changes one after the other;
    \<^bold>\<open>Delivery\<close>, the consensus engine over the adapter over the p2p network, and the peers' engines;
    \<^bold>\<open>EndToEnd\<close>, the client asking servers of a network, and service and gRPC adapter over the same.

  \<^bold>\<open>What the lemmas show.\<close> For consensus: the fast path's result is the median of enough accepted
  times with the aggregate of exactly their signatures, in every interleaving, and the fast path
  always comes back; aggregation is independent of map order; two nodes elect the same leader and
  every validator leads once per round; views move only with a majority; no timestamp given to
  BigBFT is lost or duplicated, and commits of one batch share an honest voter. For the registries
  and regions: refinement of abstract maps over whole histories, map orders included. For the
  service: a timestamp survives the way over gRPC and back. For the components together: a node
  announces every timestamp given to it exactly once, as its own fast path always fails; enough good
  servers make a fast path succeed whatever the others do; once a majority has given up on a leader
  all validators reach the next view and name the same leader, and over \<open>n\<close> view changes in a row
  each of the \<open>n\<close> validators is that leader once; a proposal reaches the peers' engines and is
  ignored there; what the client returns, the service accepts. For the client: a result rests on a
  quorum of verified responses, calls end, enough honest servers make a call succeed, caches keep
  what was stored last and no longer than they may, every timestamp returned in the life of a client
  goes back to a server's answer, and the statistics add up to what happened. For the p2p layer: at
  most 30 peers become known in any minute, a gossip message reaches every linked node exactly once
  and its flood ends. Around
  the core: a saved configuration is the one the server starts with, both front ends answer alike
  but for the regions that gRPC drops, and the API metrics count what was served. Some theorems
  state how the code fails: deadlock of the peer scores, broadcasts that stop at the first failure,
  deadlock of \<open>StartViewChange\<close>, panics for huge views and at the quorum of BigBFT, a fast path
  that never succeeds, one sender forcing a view, a cache key without the time.

  \<^bold>\<open>Termination and bounds.\<close> No definition uses fuel. Loops over maps and lists are folds; the fast
  path's loop is a step relation whose runs are bounded by a measure (theorem
  \<open>fast_path_terminates\<close>), a view change of \<open>n\<close> validators by \<open>n * n\<close> steps; the
  client's loops recurse over the number of responses still to come.
  View numbers and time stamps are 64-bit words, lengths of the dual format 32-bit words.

  \<^bold>\<open>What is not modelled.\<close> JSON, ed25519, SHA-256, \<open>sort.Slice\<close>, \<open>float64\<close>, libp2p and the clock are
  parameters with their documented laws as hypotheses, and so are YAML, the operating system, the
  router of the REST server, zap, \<open>net/http\<close> and testify. HTTP transports, flag parsing, the handling
  of signals and generated protocol buffer code are left out: they only call libraries. The engine's
  handler of incoming messages ends in a TODO of the source, so no theory lets one node's proposal
  change another node.
\<close>

end
